(* ===== verification/Api_Prelude.thy ===== *)
theory Api_Prelude
  imports "HOL-Library.Code_Target_Nat" Main
begin

text \<open>
  Shared vocabulary of the development: the type names that model Go's basic types, the
  shape of an effectful call, the named collections of facts the component proofs share, and
  the generic lemmas on lists and association lists used by more than one component.

  A Go string is a sequence of bytes, so it is a \<^typ>\<open>string\<close> (a list of 8-bit
  characters); a byte slice is modelled by the same type. An \<open>int\<close>, \<open>int32\<close> or
  \<open>int64\<close> is an \<^typ>\<open>int\<close>, with the two's complement truncation written out at every
  operation of the source that can overflow. A \<open>time.Time\<close> is the \<^typ>\<open>int\<close> of its instant.
\<close>

type_synonym bytes = string
type_synonym instant = int

text \<open>
  A Go call that returns \<open>(value, error)\<close> and changes the state \<open>'w\<close> is a function of
  this type: \<open>Inl e\<close> is \<open>(nil, e)\<close> and \<open>Inr x\<close> is \<open>(x, nil)\<close>.
\<close>

type_synonym ('w, 'e, 'a) call = "'w \<Rightarrow> ('e + 'a) \<times> 'w"

named_theorems model_defs \<open>definitions unfolded when an operation is executed symbolically\<close>
named_theorems frame_simps \<open>what an operation leaves unchanged\<close>

text \<open>Truncation of a mathematical integer to a two's complement integer of \<open>w\<close> bits.\<close>

definition wrap_signed :: "nat \<Rightarrow> int \<Rightarrow> int" where
  "wrap_signed w x = (x + 2 ^ (w - 1)) mod 2 ^ w - 2 ^ (w - 1)"

lemma wrap_signed_id:
  assumes "0 < w" "- (2 ^ (w - 1)) \<le> x" "x < 2 ^ (w - 1)"
  shows "wrap_signed w x = x"
proof -
  have "(2::int) ^ w = 2 * 2 ^ (w - 1)"
    using assms(1) by (metis Suc_pred' power_Suc)
  with assms show ?thesis
    by (simp add: wrap_signed_def)
qed

lemma wrap_signed_range:
  assumes "0 < w"
  shows "- (2 ^ (w - 1)) \<le> wrap_signed w x \<and> wrap_signed w x < 2 ^ (w - 1)"
proof -
  have "(2::int) ^ w = 2 * 2 ^ (w - 1)"
    using assms by (metis Suc_pred' power_Suc)
  moreover have "0 \<le> (x + 2 ^ (w - 1)) mod 2 ^ w" "(x + 2 ^ (w - 1)) mod 2 ^ w < (2::int) ^ w"
    by simp_all
  ultimately show ?thesis
    by (simp add: wrap_signed_def)
qed

definition in_int64 :: "int \<Rightarrow> bool" where
  "in_int64 x \<longleftrightarrow> - (2 ^ 63) \<le> x \<and> x < 2 ^ 63"

subsection \<open>Lists\<close>

lemma takeWhile_append_stop:
  "\<forall>x \<in> set xs. P x \<Longrightarrow> \<not> P y \<Longrightarrow> takeWhile P (xs @ y # ys) = xs"
  by (induction xs) auto

lemma dropWhile_append_stop:
  "\<forall>x \<in> set xs. P x \<Longrightarrow> \<not> P y \<Longrightarrow> dropWhile P (xs @ y # ys) = y # ys"
  by (induction xs) auto

lemma dropWhile_id: "xs = [] \<or> \<not> P (hd xs) \<Longrightarrow> dropWhile P xs = xs"
  by (cases xs) auto

lemma map_if_other:
  "\<forall>x \<in> set xs. \<not> P x \<Longrightarrow> map (\<lambda>x. if P x then f x else x) xs = xs"
  by (induction xs) auto

text \<open>
  A table whose rows carry a key is a list of rows; the rows with one key are found by
  \<open>find\<close>. The lemmas below relate an update of the matching rows to the lookup.
\<close>

definition row_by :: "('r \<Rightarrow> 'k) \<Rightarrow> 'r list \<Rightarrow> 'k \<Rightarrow> 'r option" where
  "row_by key rs k = find (\<lambda>r. key r = k) rs"

lemma row_by_Nil [simp]: "row_by key [] k = None"
  by (simp add: row_by_def)

lemma row_by_Cons: "row_by key (r # rs) k = (if key r = k then Some r else row_by key rs k)"
  by (simp add: row_by_def)

lemma row_by_Some: "row_by key rs k = Some r \<Longrightarrow> r \<in> set rs \<and> key r = k"
  by (auto simp: row_by_def find_Some_iff)

lemma row_by_None: "row_by key rs k = None \<longleftrightarrow> k \<notin> key ` set rs"
  by (auto simp: row_by_def find_None_iff)

lemma row_by_distinct:
  "distinct (map key rs) \<Longrightarrow> r \<in> set rs \<Longrightarrow> row_by key rs (key r) = Some r"
  by (induction rs) (auto simp: row_by_Cons)

lemma row_by_append:
  "row_by key (rs @ ts) k = (case row_by key rs k of None \<Rightarrow> row_by key ts k | Some r \<Rightarrow> Some r)"
  by (induction rs) (auto simp: row_by_Cons)

lemma row_by_update:
  assumes "\<And>r. key (f r) = key r"
  shows "row_by key (map (\<lambda>r. if P r then f r else r) rs) k =
         map_option (\<lambda>r. if P r then f r else r) (row_by key rs k)"
  using assms by (induction rs) (auto simp: row_by_Cons)

lemma map_key_update:
  assumes "\<And>r. key (f r) = key r"
  shows "map key (map (\<lambda>r. if P r then f r else r) rs) = map key rs"
  using assms by (induction rs) auto

text \<open>An update that selects on the key touches at most one row of a keyed table.\<close>

lemma filter_row_by:
  assumes "distinct (map key rs)"
  shows "filter (\<lambda>r. key r = k \<and> P r) rs =
         (case row_by key rs k of None \<Rightarrow> [] | Some r \<Rightarrow> if P r then [r] else [])"
  using assms
proof (induction rs)
  case Nil
  then show ?case by simp
next
  case (Cons r rs)
  then have d: "distinct (map key rs)" and k: "key r \<notin> key ` set rs"
    by auto
  show ?case
  proof (cases "key r = k")
    case True
    with k have "row_by key rs k = None"
      by (auto simp: row_by_None)
    with True Cons.IH [OF d] show ?thesis
      by (simp add: row_by_Cons)
  next
    case False
    with Cons.IH [OF d] show ?thesis
      by (simp add: row_by_Cons)
  qed
qed

end
