(* ===== verification/Go_Strings.thy ===== *)
theory Go_Strings
  imports Api_Prelude
begin

text \<open>
  The functions of Go's \<open>strings\<close>, \<open>strconv\<close>, \<open>encoding/hex\<close>, \<open>path\<close> and
  \<open>path/filepath\<close> (on Unix) that the program calls, on byte strings, with the laws the
  component proofs use. They are the standard library's documented behaviour, not code of the
  repository, so they have no source lines of their own.

  \<open>strings.ToLower\<close> is exact on ASCII; a string with a byte above 127 goes through the Unicode
  case table, which is a parameter of the definitions that need it.
\<close>

subsection \<open>Package strings\<close>

definition slash :: char where "slash = CHR ''/''"
definition backslash :: char where "backslash = CHR 0x5C"

definition has_prefix :: "string \<Rightarrow> string \<Rightarrow> bool" where
  "has_prefix s p \<longleftrightarrow> take (length p) s = p"

fun contains :: "string \<Rightarrow> string \<Rightarrow> bool" where
  "contains [] p \<longleftrightarrow> p = []"
| "contains (c # s) p \<longleftrightarrow> has_prefix (c # s) p \<or> contains s p"

definition replace_byte :: "char \<Rightarrow> char \<Rightarrow> string \<Rightarrow> string" where
  \<comment> \<open>\<open>strings.ReplaceAll\<close> with one-byte arguments\<close>
  "replace_byte old new s = map (\<lambda>c. if c = old then new else c) s"

definition trim_left_byte :: "char \<Rightarrow> string \<Rightarrow> string" where
  "trim_left_byte b s = dropWhile (\<lambda>c. c = b) s"

definition trim_right_byte :: "char \<Rightarrow> string \<Rightarrow> string" where
  "trim_right_byte b s = rev (dropWhile (\<lambda>c. c = b) (rev s))"

definition trim_byte :: "char \<Rightarrow> string \<Rightarrow> string" where
  "trim_byte b s = trim_right_byte b (trim_left_byte b s)"

text \<open>The UTF-8 encodings of the runes for which \<open>unicode.IsSpace\<close> holds.\<close>

definition space_runes :: "string list" where
  "space_runes =
    [[CHR 0x09], [CHR 0x0A], [CHR 0x0B], [CHR 0x0C], [CHR 0x0D], [CHR 0x20],
     [CHR 0xC2, CHR 0x85], [CHR 0xC2, CHR 0xA0], [CHR 0xE1, CHR 0x9A, CHR 0x80],
     [CHR 0xE2, CHR 0x80, CHR 0x80], [CHR 0xE2, CHR 0x80, CHR 0x81],
     [CHR 0xE2, CHR 0x80, CHR 0x82], [CHR 0xE2, CHR 0x80, CHR 0x83],
     [CHR 0xE2, CHR 0x80, CHR 0x84], [CHR 0xE2, CHR 0x80, CHR 0x85],
     [CHR 0xE2, CHR 0x80, CHR 0x86], [CHR 0xE2, CHR 0x80, CHR 0x87],
     [CHR 0xE2, CHR 0x80, CHR 0x88], [CHR 0xE2, CHR 0x80, CHR 0x89],
     [CHR 0xE2, CHR 0x80, CHR 0x8A], [CHR 0xE2, CHR 0x80, CHR 0xA8],
     [CHR 0xE2, CHR 0x80, CHR 0xA9], [CHR 0xE2, CHR 0x80, CHR 0xAF],
     [CHR 0xE2, CHR 0x81, CHR 0x9F], [CHR 0xE3, CHR 0x80, CHR 0x80]]"

function trim_runes :: "string list \<Rightarrow> string \<Rightarrow> string" where
  "trim_runes ps s =
     (case find (\<lambda>p. p \<noteq> [] \<and> has_prefix s p) ps of
        None \<Rightarrow> s
      | Some p \<Rightarrow> trim_runes ps (drop (length p) s))"
  by pat_completeness auto
termination
proof (relation "measure (\<lambda>(ps, s). length s)")
  fix ps :: "string list" and s p
  assume "find (\<lambda>p. p \<noteq> [] \<and> has_prefix s p) ps = Some p"
  then have "p \<noteq> []" and "take (length p) s = p"
    by (auto simp: find_Some_iff has_prefix_def)
  then have "0 < length p" and "s \<noteq> []"
    by auto
  then show "((ps, drop (length p) s), (ps, s)) \<in> measure (\<lambda>(ps, s). length s)"
    by simp
qed simp

declare trim_runes.simps [simp del]

definition trim_space :: "string \<Rightarrow> string" where
  "trim_space s = rev (trim_runes (map rev space_runes) (rev (trim_runes space_runes s)))"

definition is_ascii :: "string \<Rightarrow> bool" where
  "is_ascii s \<longleftrightarrow> (\<forall>c \<in> set s. of_char c < (128::nat))"

definition ascii_lower :: "char \<Rightarrow> char" where
  "ascii_lower c =
     (let n = of_char c :: nat in if 65 \<le> n \<and> n \<le> 90 then char_of (n + 32) else c)"

definition to_lower :: "(string \<Rightarrow> string) \<Rightarrow> string \<Rightarrow> string" where
  "to_lower unicode_lower s = (if is_ascii s then map ascii_lower s else unicode_lower s)"

lemma trim_runes_id:
  "(\<And>p. p \<in> set ps \<Longrightarrow> p \<noteq> [] \<Longrightarrow> \<not> has_prefix s p) \<Longrightarrow> trim_runes ps s = s"
proof -
  assume "\<And>p. p \<in> set ps \<Longrightarrow> p \<noteq> [] \<Longrightarrow> \<not> has_prefix s p"
  then have "find (\<lambda>p. p \<noteq> [] \<and> has_prefix s p) ps = None"
    by (auto simp: find_None_iff)
  then show ?thesis
    by (subst trim_runes.simps) simp
qed

lemma trim_runes_Nil [simp]: "trim_runes ps [] = []"
  by (rule trim_runes_id) (auto simp: has_prefix_def)

lemma trim_runes_suffix: "\<exists>t. s = t @ trim_runes ps s"
proof (induction ps s rule: trim_runes.induct)
  case (1 ps s)
  show ?case
  proof (cases "find (\<lambda>p. p \<noteq> [] \<and> has_prefix s p) ps")
    case None
    then show ?thesis by (subst trim_runes.simps) simp
  next
    case (Some p)
    from "1.IH" [OF Some] obtain t where
      "drop (length p) s = t @ trim_runes ps (drop (length p) s)" by blast
    then have "s = (take (length p) s @ t) @ trim_runes ps (drop (length p) s)"
      by (metis append_assoc append_take_drop_id)
    moreover have "trim_runes ps s = trim_runes ps (drop (length p) s)"
      using Some by (subst trim_runes.simps) simp
    ultimately show ?thesis by metis
  qed
qed

lemma set_trim_runes: "set (trim_runes ps s) \<subseteq> set s"
  using trim_runes_suffix [of s ps] by (metis set_append Un_upper2)

lemma set_trim_space: "set (trim_space s) \<subseteq> set s"
  unfolding trim_space_def
  by (metis set_rev set_trim_runes subset_trans)

lemma set_trim_byte: "set (trim_byte b s) \<subseteq> set s"
  by (auto simp: trim_byte_def trim_left_byte_def trim_right_byte_def dest!: set_dropWhileD)

lemma trim_left_byte_id: "s = [] \<or> hd s \<noteq> b \<Longrightarrow> trim_left_byte b s = s"
  by (simp add: trim_left_byte_def dropWhile_id)

lemma trim_right_byte_id: "s = [] \<or> last s \<noteq> b \<Longrightarrow> trim_right_byte b s = s"
  by (simp add: trim_right_byte_def dropWhile_id hd_rev)

lemma trim_right_byte_last: "trim_right_byte b s \<noteq> [] \<Longrightarrow> last (trim_right_byte b s) \<noteq> b"
  unfolding trim_right_byte_def
  by (metis (mono_tags, lifting) hd_dropWhile last_rev rev.simps(1) rev_rev_ident)


subsection \<open>Packages strconv and encoding/hex\<close>

definition digit_char :: "nat \<Rightarrow> char" where
  "digit_char d = char_of (48 + d)"

definition is_digit :: "char \<Rightarrow> bool" where
  "is_digit c \<longleftrightarrow> 48 \<le> (of_char c :: nat) \<and> (of_char c :: nat) \<le> 57"

definition digit_val :: "char \<Rightarrow> nat" where
  "digit_val c = of_char c - 48"

fun format_nat :: "nat \<Rightarrow> string" where
  "format_nat n = (if n < 10 then [digit_char n] else format_nat (n div 10) @ [digit_char (n mod 10)])"

declare format_nat.simps [simp del]

definition format_int :: "int \<Rightarrow> string" where
  \<comment> \<open>\<open>strconv.FormatInt(x, 10)\<close> and the verb \<open>%d\<close>\<close>
  "format_int x = (if x < 0 then CHR ''-'' # format_nat (nat (- x)) else format_nat (nat x))"

datatype num_error = NumSyntax | NumRange

text \<open>\<open>strconv.ParseUint(s, 10, 64)\<close> after the empty-string test: one byte per iteration.\<close>

fun parse_uint_loop :: "int \<Rightarrow> string \<Rightarrow> num_error + int" where
  "parse_uint_loop n [] = Inr n"
| "parse_uint_loop n (c # cs) =
     (if \<not> is_digit c then Inl NumSyntax
      else if 2 ^ 64 \<le> 10 * n + int (digit_val c) then Inl NumRange
      else parse_uint_loop (10 * n + int (digit_val c)) cs)"

definition parse_uint :: "string \<Rightarrow> num_error + int" where
  "parse_uint s = (if s = [] then Inl NumSyntax else parse_uint_loop 0 s)"

definition parse_int :: "string \<Rightarrow> num_error + int" where
  \<comment> \<open>\<open>strconv.ParseInt(s, 10, 64)\<close>; \<open>strconv.Atoi\<close> is the same function on a 64-bit platform\<close>
  "parse_int s =
     (case s of
        [] \<Rightarrow> Inl NumSyntax
      | c # cs \<Rightarrow>
          let neg = (c = CHR ''-''); rest = (if c = CHR ''-'' \<or> c = CHR ''+'' then cs else s)
          in case parse_uint rest of
               Inl e \<Rightarrow> Inl e
             | Inr un \<Rightarrow>
                 if \<not> neg \<and> 2 ^ 63 \<le> un then Inl NumRange
                 else if neg \<and> 2 ^ 63 < un then Inl NumRange
                 else Inr (if neg then - un else un))"

definition hex_digit :: "nat \<Rightarrow> char" where
  "hex_digit d = (if d < 10 then char_of (48 + d) else char_of (87 + d))"

definition hex_encode :: "bytes \<Rightarrow> string" where
  "hex_encode bs =
     concat (map (\<lambda>b. [hex_digit ((of_char b :: nat) div 16), hex_digit ((of_char b :: nat) mod 16)]) bs)"

definition go_quote :: "string \<Rightarrow> string" where
  \<comment> \<open>\<open>strconv.Quote\<close> of text without control bytes\<close>
  "go_quote s = CHR 0x22 # concat (map (\<lambda>c. if c = CHR 0x22 \<or> c = backslash then [backslash, c] else [c]) s) @ [CHR 0x22]"

lemma of_char_digit: "d < 10 \<Longrightarrow> (of_char (digit_char d) :: nat) = 48 + d"
  by (simp add: digit_char_def)

lemma is_digit_digit_char [simp]: "d < 10 \<Longrightarrow> is_digit (digit_char d)"
  by (simp add: is_digit_def of_char_digit)

lemma digit_val_digit_char [simp]: "d < 10 \<Longrightarrow> digit_val (digit_char d) = d"
  by (simp add: digit_val_def of_char_digit)

lemma format_nat_not_Nil [simp]: "format_nat n \<noteq> []"
  by (subst format_nat.simps) simp

lemma format_int_not_Nil [simp]: "format_int n \<noteq> []"
  by (simp add: format_int_def)

lemma format_nat_digits: "c \<in> set (format_nat n) \<Longrightarrow> is_digit c"
proof (induction n rule: format_nat.induct)
  case (1 n)
  then show ?case
    by (cases "n < 10") (auto simp: format_nat.simps [of n])
qed

lemma format_int_chars: "c \<in> set (format_int x) \<Longrightarrow> is_digit c \<or> c = CHR ''-''"
  by (auto simp: format_int_def dest: format_nat_digits split: if_splits)

lemma parse_uint_loop_append:
  "parse_uint_loop n (s @ t) =
     (case parse_uint_loop n s of Inl e \<Rightarrow> Inl e | Inr m \<Rightarrow> parse_uint_loop m t)"
  by (induction n s rule: parse_uint_loop.induct) auto

lemma parse_uint_loop_format: "int n < 2 ^ 64 \<Longrightarrow> parse_uint_loop 0 (format_nat n) = Inr (int n)"
proof (induction n rule: format_nat.induct)
  case (1 n)
  show ?case
  proof (cases "n < 10")
    case True
    then show ?thesis by (simp add: format_nat.simps [of n])
  next
    case False
    have n: "10 * int (n div 10) + int (n mod 10) = int n" by (simp add: zdiv_int zmod_int)
    from "1.prems" have "int (n div 10) < 2 ^ 64" by linarith
    with "1.IH" [OF False] have "parse_uint_loop 0 (format_nat (n div 10)) = Inr (int (n div 10))"
      by blast
    with False "1.prems" n show ?thesis
      by (simp add: format_nat.simps [of n] parse_uint_loop_append)
  qed
qed

lemma parse_uint_format: "int n < 2 ^ 64 \<Longrightarrow> parse_uint (format_nat n) = Inr (int n)"
  by (simp add: parse_uint_def parse_uint_loop_format)

lemma format_nat_hd: "is_digit (hd (format_nat n))"
  by (rule format_nat_digits [of _ n]) simp

lemma is_digit_not_sign: "is_digit c \<Longrightarrow> c \<noteq> CHR ''-'' \<and> c \<noteq> CHR ''+''"
  by (auto simp: is_digit_def)

lemma parse_int_format:
  assumes "in_int64 x"
  shows "parse_int (format_int x) = Inr x"
proof (cases "x < 0")
  case True
  with assms have "int (nat (- x)) < 2 ^ 64" "int (nat (- x)) \<le> 2 ^ 63"
    by (simp_all add: in_int64_def)
  with True show ?thesis
    by (simp add: parse_int_def format_int_def parse_uint_format)
next
  case False
  with assms have b: "int (nat x) < 2 ^ 64" "int (nat x) < 2 ^ 63"
    by (simp_all add: in_int64_def)
  obtain c cs where f: "format_nat (nat x) = c # cs"
    by (metis format_nat_not_Nil list.exhaust)
  with format_nat_hd [of "nat x"] have "is_digit c" by simp
  then have "c \<noteq> CHR ''-''" "c \<noteq> CHR ''+''" by (simp_all add: is_digit_not_sign)
  with False b parse_uint_format [OF b(1)] f show ?thesis
    by (simp add: parse_int_def format_int_def)
qed

lemma parse_uint_loop_range: "parse_uint_loop n s = Inr m \<Longrightarrow> 0 \<le> n \<Longrightarrow> n < 2 ^ 64 \<Longrightarrow> 0 \<le> m \<and> m < 2 ^ 64"
  by (induction n s rule: parse_uint_loop.induct) (auto split: if_splits)

lemma parse_uint_range: "parse_uint s = Inr m \<Longrightarrow> 0 \<le> m \<and> m < 2 ^ 64"
  by (auto simp: parse_uint_def dest: parse_uint_loop_range split: if_splits)

lemma parse_int_range: "parse_int s = Inr x \<Longrightarrow> in_int64 x"
  by (auto simp: parse_int_def in_int64_def Let_def split: list.splits sum.splits if_splits
      dest!: parse_uint_range)

lemma length_hex_encode: "length (hex_encode bs) = 2 * length bs"
  by (induction bs) (auto simp: hex_encode_def)

definition is_hex :: "char \<Rightarrow> bool" where
  "is_hex c \<longleftrightarrow> is_digit c \<or> (97 \<le> (of_char c :: nat) \<and> (of_char c :: nat) \<le> 102)"

lemma hex_digit_is_hex: "d < 16 \<Longrightarrow> is_hex (hex_digit d)"
  by (auto simp: is_hex_def is_digit_def hex_digit_def)

lemma hex_encode_is_hex: "c \<in> set (hex_encode bs) \<Longrightarrow> is_hex c"
proof (induction bs)
  case Nil
  then show ?case by (simp add: hex_encode_def)
next
  case (Cons b bs)
  have "(of_char b :: nat) < 256" by simp
  then have "(of_char b :: nat) div 16 < 16" by linarith
  with Cons show ?case
    by (auto simp: hex_encode_def hex_digit_is_hex)
qed

end
