(* ===== verification/Go_Paths.thy ===== *)
theory Go_Paths
  imports Go_Strings
begin

text \<open>
  Go's \<open>path\<close> package and the Unix side of \<open>path/filepath\<close>: splitting at slashes, lexical
  cleaning, joining, base names. \<open>path.Clean\<close> is modelled by its documented result: the
  component list with empty and \<open>.\<close> components dropped and \<open>..\<close> cancelling the component
  before it. The main lemma, \<open>clean_relative_cases\<close>, says what a relative path that \<open>Clean\<close>
  leaves unchanged looks like; the storage adapters rest on it.
\<close>

subsection \<open>Splitting and joining\<close>

fun split_on :: "char \<Rightarrow> string \<Rightarrow> string list" where
  "split_on b [] = [[]]"
| "split_on b (c # cs) =
     (if c = b then [] # split_on b cs
      else (case split_on b cs of [] \<Rightarrow> [[c]] | x # xs \<Rightarrow> (c # x) # xs))"

fun join_with :: "char \<Rightarrow> string list \<Rightarrow> string" where
  "join_with b [] = []"
| "join_with b [x] = x"
| "join_with b (x # y # xs) = x @ b # join_with b (y # xs)"

lemma split_on_not_Nil [simp]: "split_on b s \<noteq> []"
  by (induction s) (auto split: list.splits)

lemma split_on_no_sep: "x \<in> set (split_on b s) \<Longrightarrow> b \<notin> set x"
  by (induction s arbitrary: x) (auto split: list.splits if_splits)

lemma split_on_free: "b \<notin> set x \<Longrightarrow> split_on b x = [x]"
  by (induction x) auto

lemma split_on_append: "b \<notin> set x \<Longrightarrow> split_on b (x @ b # s) = x # split_on b s"
  by (induction x) auto

lemma split_join:
  "xs \<noteq> [] \<Longrightarrow> \<forall>x \<in> set xs. b \<notin> set x \<Longrightarrow> split_on b (join_with b xs) = xs"
  by (induction b xs rule: join_with.induct) (auto simp: split_on_free split_on_append)

lemma join_split: "join_with b (split_on b s) = s"
proof (induction s)
  case Nil
  then show ?case by simp
next
  case (Cons c s)
  obtain x xs where "split_on b s = x # xs"
    by (meson list.exhaust split_on_not_Nil)
  with Cons show ?case
    by (cases xs) auto
qed

lemma set_join_with: "set (join_with b xs) \<subseteq> insert b (\<Union> (set ` set xs))"
  by (induction b xs rule: join_with.induct) auto

lemma join_with_append:
  "xs \<noteq> [] \<Longrightarrow> ys \<noteq> [] \<Longrightarrow> join_with b (xs @ ys) = join_with b xs @ b # join_with b ys"
  by (induction b xs rule: join_with.induct) (auto simp: neq_Nil_conv)

lemma join_with_eq_Nil: "join_with b xs = [] \<longleftrightarrow> xs = [] \<or> xs = [[]]"
  by (cases "(b, xs)" rule: join_with.cases) auto

subsection \<open>path.Clean\<close>

definition dot :: string where "dot = ''.''"
definition dotdot :: string where "dotdot = ''..''"

definition clean_step :: "bool \<Rightarrow> string \<Rightarrow> string list \<Rightarrow> string list" where
  "clean_step rooted c st =
     (if c = [] \<or> c = dot then st
      else if c = dotdot then
        (case st of
           [] \<Rightarrow> (if rooted then [] else [dotdot])
         | x # xs \<Rightarrow> if x = dotdot then dotdot # st else xs)
      else c # st)"

definition clean_comps :: "bool \<Rightarrow> string list \<Rightarrow> string list" where
  "clean_comps rooted cs = rev (fold (clean_step rooted) cs [])"

definition path_is_abs :: "string \<Rightarrow> bool" where
  "path_is_abs p \<longleftrightarrow> has_prefix p [slash]"

definition path_clean :: "string \<Rightarrow> string" where
  "path_clean p =
     (if p = [] then dot
      else let cs = clean_comps (path_is_abs p) (split_on slash p)
           in if path_is_abs p then slash # join_with slash cs
              else if cs = [] then dot else join_with slash cs)"

definition path_join :: "string list \<Rightarrow> string" where
  \<comment> \<open>\<open>path.Join\<close>, and \<open>filepath.Join\<close> on Unix\<close>
  "path_join ps =
     (let qs = filter (\<lambda>p. p \<noteq> []) ps in if qs = [] then [] else path_clean (join_with slash qs))"

definition filepath_base :: "string \<Rightarrow> string" where
  "filepath_base p =
     (if p = [] then dot
      else let r = rev (takeWhile (\<lambda>c. c \<noteq> slash) (rev (trim_right_byte slash p)))
           in if r = [] then [slash] else r)"

definition filepath_dir :: "string \<Rightarrow> string" where
  "filepath_dir p = path_clean (rev (dropWhile (\<lambda>c. c \<noteq> slash) (rev p)))"

text \<open>A normal component: what a cleaned path consists of, apart from leading \<open>..\<close>s.\<close>

definition normal_comp :: "string \<Rightarrow> bool" where
  "normal_comp c \<longleftrightarrow> c \<noteq> [] \<and> c \<noteq> dot \<and> c \<noteq> dotdot \<and> slash \<notin> set c"

lemma clean_step_normal: "normal_comp c \<Longrightarrow> clean_step rooted c st = c # st"
  by (simp add: clean_step_def normal_comp_def)

lemma fold_clean_normal:
  "\<forall>c \<in> set cs. normal_comp c \<Longrightarrow> fold (clean_step rooted) cs st = rev cs @ st"
  by (induction cs arbitrary: st) (auto simp: clean_step_normal)

lemma clean_comps_normal: "\<forall>c \<in> set cs. normal_comp c \<Longrightarrow> clean_comps rooted cs = cs"
  by (simp add: clean_comps_def fold_clean_normal)

lemma hd_join_with: "x \<noteq> [] \<Longrightarrow> hd (join_with b (x # xs)) = hd x"
  by (cases xs) auto

lemma normal_not_abs:
  assumes "cs \<noteq> []" "normal_comp (hd cs)"
  shows "\<not> path_is_abs (join_with slash cs)" "join_with slash cs \<noteq> []"
proof -
  obtain x xs where cs: "cs = x # xs" using assms(1) by (cases cs) auto
  with assms(2) have x: "x \<noteq> []" "slash \<notin> set x" by (auto simp: normal_comp_def)
  then obtain c x' where xc: "x = c # x'" "c \<noteq> slash" by (cases x) auto
  then obtain s where "join_with slash cs = c # s"
    using cs by (cases xs) auto
  with xc show "\<not> path_is_abs (join_with slash cs)" "join_with slash cs \<noteq> []"
    by (simp_all add: path_is_abs_def has_prefix_def)
qed

lemma no_slash_normal: "\<forall>c \<in> set cs. normal_comp c \<Longrightarrow> \<forall>c \<in> set cs. slash \<notin> set c"
  by (auto simp: normal_comp_def)

lemma clean_normal:
  assumes "cs \<noteq> []" "\<forall>c \<in> set cs. normal_comp c"
  shows "path_clean (join_with slash cs) = join_with slash cs"
proof -
  from assms have "normal_comp (hd cs)" by simp
  note n = normal_not_abs [OF assms(1) this]
  from split_join [OF assms(1) no_slash_normal [OF assms(2)]]
  have "split_on slash (join_with slash cs) = cs" .
  with n assms show ?thesis
    by (simp add: path_clean_def clean_comps_normal)
qed

text \<open>The shape of the stack while a relative path is cleaned.\<close>

definition clean_shape :: "string list \<Rightarrow> bool" where
  "clean_shape st \<longleftrightarrow> (\<exists>ns k. st = ns @ replicate k dotdot \<and> (\<forall>c \<in> set ns. normal_comp c))"

lemma clean_step_shape:
  assumes "clean_shape st" "slash \<notin> set c"
  shows "clean_shape (clean_step rooted c st)"
proof -
  obtain ns k where st: "st = ns @ replicate k dotdot" and ns: "\<forall>c \<in> set ns. normal_comp c"
    using assms(1) by (auto simp: clean_shape_def)
  consider "c = [] \<or> c = dot" | "c = dotdot" | "normal_comp c"
    using assms(2) by (auto simp: normal_comp_def)
  then show ?thesis
  proof cases
    case 1
    with assms(1) show ?thesis by (simp add: clean_step_def)
  next
    case 2
    then have c: "clean_step rooted c st =
        (case st of [] \<Rightarrow> (if rooted then [] else [dotdot])
                  | x # xs \<Rightarrow> if x = dotdot then dotdot # st else xs)"
      by (simp add: clean_step_def dot_def dotdot_def)
    show ?thesis
    proof (cases ns)
      case Nil
      have "clean_shape (replicate j dotdot)" for j
        by (auto simp: clean_shape_def intro!: exI [of _ "[]"])
      from this [of 0] this [of 1] this [of "Suc k"] Nil st c show ?thesis
        by (cases k) auto
    next
      case (Cons n ns')
      with ns have "n \<noteq> dotdot" by (auto simp: normal_comp_def)
      with Cons st c have "clean_step rooted c st = ns' @ replicate k dotdot" by simp
      with ns Cons show ?thesis by (auto simp: clean_shape_def)
    qed
  next
    case 3
    with st ns have "clean_step rooted c st = (c # ns) @ replicate k dotdot"
      by (simp add: clean_step_normal)
    moreover from 3 ns have "\<forall>d \<in> set (c # ns). normal_comp d" by simp
    ultimately show ?thesis unfolding clean_shape_def by blast
  qed
qed

lemma fold_clean_shape:
  "clean_shape st \<Longrightarrow> \<forall>c \<in> set cs. slash \<notin> set c \<Longrightarrow> clean_shape (fold (clean_step rooted) cs st)"
  by (induction cs arbitrary: st) (auto simp: clean_step_shape)

lemma clean_comps_shape:
  assumes "\<forall>c \<in> set cs. slash \<notin> set c"
  obtains k ns where "clean_comps rooted cs = replicate k dotdot @ ns" "\<forall>c \<in> set ns. normal_comp c"
proof -
  have "clean_shape []" by (auto simp: clean_shape_def)
  from fold_clean_shape [OF this assms, of rooted]
  obtain ns k where "fold (clean_step rooted) cs [] = ns @ replicate k dotdot" "\<forall>c \<in> set ns. normal_comp c"
    by (auto simp: clean_shape_def)
  then have "clean_comps rooted cs = replicate k dotdot @ rev ns" "\<forall>c \<in> set (rev ns). normal_comp c"
    by (simp_all add: clean_comps_def)
  then show ?thesis by (rule that)
qed

text \<open>
  A relative path that \<open>Clean\<close> leaves unchanged is \<open>.\<close>, or \<open>..\<close>, or starts with \<open>../\<close>, or
  consists of normal components only.
\<close>

lemma clean_relative_cases:
  assumes "path_clean p = p" "\<not> path_is_abs p" "p \<noteq> dot"
  obtains (up) "p = dotdot" | (escape) "has_prefix p ''../''"
    | (normal) cs where "p = join_with slash cs" "cs \<noteq> []" "\<forall>c \<in> set cs. normal_comp c"
proof -
  have "\<forall>c \<in> set (split_on slash p). slash \<notin> set c"
    by (auto dest: split_on_no_sep)
  from clean_comps_shape [OF this, of False] obtain k ns where
    cc: "clean_comps False (split_on slash p) = replicate k dotdot @ ns" "\<forall>c \<in> set ns. normal_comp c"
    by blast
  let ?cs = "replicate k dotdot @ ns"
  from assms cc(1) have p: "p = join_with slash ?cs" "?cs \<noteq> []"
    by (auto simp: path_clean_def Let_def split: if_splits)
  show ?thesis
  proof (cases k)
    case 0
    with p cc(2) show ?thesis using normal by simp
  next
    case (Suc j)
    show ?thesis
    proof (cases "replicate j dotdot @ ns")
      case Nil
      with p Suc show ?thesis using up by simp
    next
      case (Cons y ys)
      with p Suc have "p = dotdot @ slash # join_with slash (y # ys)" by simp
      then have "has_prefix p ''../''"
        by (simp add: has_prefix_def dotdot_def slash_def)
      then show ?thesis by (rule escape)
    qed
  qed
qed

subsection \<open>Base names\<close>

lemma filepath_base_not_Nil [simp]: "filepath_base p \<noteq> []"
  by (simp add: filepath_base_def Let_def dot_def)

lemma filepath_base_no_slash: "filepath_base p = [slash] \<or> slash \<notin> set (filepath_base p)"
  by (auto simp: filepath_base_def Let_def dot_def slash_def dest: set_takeWhileD)

lemma filepath_base_chars: "c \<in> set (filepath_base p) \<Longrightarrow> c \<in> set p \<or> c = CHR ''.'' \<or> c = slash"
  by (auto simp: filepath_base_def Let_def dot_def trim_right_byte_def
      dest!: set_takeWhileD set_dropWhileD split: if_splits)

end
