(* ===== verification/App_Errors.thy ===== *)
theory App_Errors
  imports Go_Strings
begin

text \<open>
  Package \<open>pkg/errors\<close>: the application error type, its sentinels with their registered
  codes, \<open>Wrap\<close>, \<open>WithMessage\<close> and \<open>As\<close>, together with the error values of the
  libraries the program calls, in one type \<open>go_error\<close>, and Go's \<open>errors.Is\<close> and
  \<open>errors.As\<close> over it.

  Constructors other than \<open>AppError\<close>: \<open>Sentinel\<close> is a package-level \<open>errors.New\<close>
  variable, compared by identity (its name); \<open>FmtError\<close> a \<open>fmt.Errorf\<close> without \<open>%w\<close>;
  \<open>FmtWrap\<close> one with a single \<open>%w\<close>, holding the whole formatted text; \<open>PgErr\<close> a
  \<open>*pgconn.PgError\<close> with its SQLSTATE; \<open>PathErr\<close> a \<open>*fs.PathError\<close> with its errno;
  \<open>ApiErr\<close> an AWS \<open>smithy.APIError\<close> with its code; \<open>JoinErr\<close> the result of \<open>errors.Join\<close> of two
  arguments, of which one or both are errors.
\<close>

datatype errno = ENOENT | ENOTDIR | EEXIST | EISDIR | ELOOP | ENOTEMPTY | EINVAL | EIO

datatype go_error =
    AppError (Code: string) (Message: string) (Status: int) (Retryable: bool) (cause: "go_error option")
  | Sentinel string string
  | FmtError string
  | FmtWrap string go_error
  | PgErr string string
  | PathErr string string errno
  | ApiErr string string
  | JoinErr go_error "go_error option"

definition errno_text :: "errno \<Rightarrow> string" where
  "errno_text e = (case e of
     ENOENT \<Rightarrow> ''no such file or directory'' | ENOTDIR \<Rightarrow> ''not a directory''
   | EEXIST \<Rightarrow> ''file exists'' | EISDIR \<Rightarrow> ''is a directory''
   | ELOOP \<Rightarrow> ''too many levels of symbolic links'' | ENOTEMPTY \<Rightarrow> ''directory not empty''
   | EINVAL \<Rightarrow> ''invalid argument'' | EIO \<Rightarrow> ''input/output error'')"

definition colon_sep :: string where "colon_sep = '': ''"

primrec error_text :: "go_error \<Rightarrow> string" where
  "error_text (AppError code msg status retryable c) =
     (case map_option error_text c of None \<Rightarrow> msg | Some t \<Rightarrow> msg @ colon_sep @ t)"
| "error_text (Sentinel name text) = text"
| "error_text (FmtError text) = text"
| "error_text (FmtWrap text e) = text"
| "error_text (PgErr code text) = text"
| "error_text (PathErr op path e) = op @ '' '' @ path @ colon_sep @ errno_text e"
| "error_text (ApiErr code text) = text"
| "error_text (JoinErr e f) =
     error_text e @ (case map_option error_text f of None \<Rightarrow> [] | Some t \<Rightarrow> CHR 0x0A # t)"

text \<open>Sentinels of the standard library and of pgx that the program compares with.\<close>

definition io_EOF :: go_error where "io_EOF = Sentinel ''io.EOF'' ''EOF''"
definition os_ErrNotExist :: go_error where "os_ErrNotExist = Sentinel ''os.ErrNotExist'' ''file does not exist''"
definition context_Canceled :: go_error where "context_Canceled = Sentinel ''context.Canceled'' ''context canceled''"
definition pgx_ErrNoRows :: go_error where "pgx_ErrNoRows = Sentinel ''pgx.ErrNoRows'' ''no rows in result set''"

definition errors_Join :: "go_error option \<Rightarrow> go_error option \<Rightarrow> go_error option" where
  \<comment> \<open>\<open>errors.Join\<close> of two arguments: nil only if both are\<close>
  "errors_Join a b = (case a of
     None \<Rightarrow> map_option (\<lambda>e. JoinErr e None) b
   | Some e \<Rightarrow> Some (JoinErr e b))"

definition unwrap :: "go_error \<Rightarrow> go_error option" where
  "unwrap e = (case e of AppError _ _ _ _ c \<Rightarrow> c | FmtWrap _ e' \<Rightarrow> Some e' | _ \<Rightarrow> None)"

definition app_error_is :: "go_error \<Rightarrow> go_error \<Rightarrow> bool" where
  \<comment> \<open>the method \<open>Is\<close>: equal codes\<close>
  "app_error_is e target = (case e of
     AppError code _ _ _ _ \<Rightarrow> (case target of AppError code' _ _ _ _ \<Rightarrow> code = code' | _ \<Rightarrow> False)
   | _ \<Rightarrow> False)"

definition error_matches :: "go_error \<Rightarrow> go_error \<Rightarrow> bool" where
  \<comment> \<open>one step of \<open>errors.Is\<close>: identity, or the error's own \<open>Is\<close> method\<close>
  "error_matches e target =
     (case e of
        AppError _ _ _ _ _ \<Rightarrow> app_error_is e target
      | Sentinel _ _ \<Rightarrow> e = target
      | PathErr _ _ no \<Rightarrow> no = ENOENT \<and> target = os_ErrNotExist
      | _ \<Rightarrow> False)"

primrec errors_is :: "go_error \<Rightarrow> go_error \<Rightarrow> bool" where
  "errors_is (AppError code msg status retryable c) target =
     (error_matches (AppError code msg status retryable c) target \<or>
      (case map_option (\<lambda>e. errors_is e target) c of None \<Rightarrow> False | Some b \<Rightarrow> b))"
| "errors_is (Sentinel name text) target = error_matches (Sentinel name text) target"
| "errors_is (FmtError text) target = False"
| "errors_is (FmtWrap text e) target = errors_is e target"
| "errors_is (PgErr code text) target = False"
| "errors_is (PathErr op path e) target = error_matches (PathErr op path e) target"
| "errors_is (ApiErr code text) target = False"
| "errors_is (JoinErr e f) target =
     (errors_is e target \<or> (case map_option (\<lambda>e. errors_is e target) f of None \<Rightarrow> False | Some b \<Rightarrow> b))"

primrec as_app_error :: "go_error \<Rightarrow> go_error option" where
  \<comment> \<open>\<open>errors.As\<close> with a \<open>*AppError\<close> target\<close>
  "as_app_error (AppError code msg status retryable c) = Some (AppError code msg status retryable c)"
| "as_app_error (Sentinel name text) = None"
| "as_app_error (FmtError text) = None"
| "as_app_error (FmtWrap text e) = as_app_error e"
| "as_app_error (PgErr code text) = None"
| "as_app_error (PathErr op path e) = None"
| "as_app_error (ApiErr code text) = None"
| "as_app_error (JoinErr e f) =
     (case as_app_error e of Some r \<Rightarrow> Some r
      | None \<Rightarrow> (case map_option as_app_error f of None \<Rightarrow> None | Some r \<Rightarrow> r))"

primrec pg_error_code :: "go_error \<Rightarrow> string option" where
  \<comment> \<open>the \<open>Code\<close> field after \<open>errors.As\<close> with a \<open>*pgconn.PgError\<close> target\<close>
  "pg_error_code (AppError code msg status retryable c) =
     (case map_option pg_error_code c of None \<Rightarrow> None | Some r \<Rightarrow> r)"
| "pg_error_code (Sentinel name text) = None"
| "pg_error_code (FmtError text) = None"
| "pg_error_code (FmtWrap text e) = pg_error_code e"
| "pg_error_code (PgErr code text) = Some code"
| "pg_error_code (PathErr op path e) = None"
| "pg_error_code (ApiErr code text) = None"
| "pg_error_code (JoinErr e f) =
     (case pg_error_code e of Some r \<Rightarrow> Some r
      | None \<Rightarrow> (case map_option pg_error_code f of None \<Rightarrow> None | Some r \<Rightarrow> r))"

primrec api_error_code :: "go_error \<Rightarrow> string option" where
  \<comment> \<open>\<open>ErrorCode()\<close> after \<open>errors.As\<close> with a \<open>smithy.APIError\<close> target\<close>
  "api_error_code (AppError code msg status retryable c) =
     (case map_option api_error_code c of None \<Rightarrow> None | Some r \<Rightarrow> r)"
| "api_error_code (Sentinel name text) = None"
| "api_error_code (FmtError text) = None"
| "api_error_code (FmtWrap text e) = api_error_code e"
| "api_error_code (PgErr code text) = None"
| "api_error_code (PathErr op path e) = None"
| "api_error_code (ApiErr code text) = Some code"
| "api_error_code (JoinErr e f) =
     (case api_error_code e of Some r \<Rightarrow> Some r
      | None \<Rightarrow> (case map_option api_error_code f of None \<Rightarrow> None | Some r \<Rightarrow> r))"

subsection \<open>The registered sentinels\<close>

definition ErrCommonInvalidRequest :: go_error where
  "ErrCommonInvalidRequest = AppError ''E00400001'' ''invalid request'' 400 False None"
definition ErrCommonInvalidBody :: go_error where
  "ErrCommonInvalidBody = AppError ''E00400002'' ''invalid request body'' 400 False None"
definition ErrCommonInternal :: go_error where
  "ErrCommonInternal = AppError ''E00500001'' ''internal server error'' 500 False None"

definition ErrAuthInvalidRequest :: go_error where
  "ErrAuthInvalidRequest = AppError ''E01400001'' ''invalid authentication request'' 400 False None"
definition ErrAuthInvalidBody :: go_error where
  "ErrAuthInvalidBody = AppError ''E01400002'' ''invalid authentication request body'' 400 False None"
definition ErrAuthUnauthorized :: go_error where
  "ErrAuthUnauthorized = AppError ''E01410001'' ''authentication required'' 401 False None"
definition ErrAuthInvalidCredentials :: go_error where
  "ErrAuthInvalidCredentials = AppError ''E01410002'' ''invalid email or password'' 401 False None"
definition ErrAuthInvalidRefresh :: go_error where
  "ErrAuthInvalidRefresh = AppError ''E01410003'' ''invalid refresh token'' 401 False None"
definition ErrAuthInvalidTokenFormat :: go_error where
  "ErrAuthInvalidTokenFormat = AppError ''E01410004'' ''invalid authorization header format'' 401 False None"
definition ErrAuthInvalidToken :: go_error where
  "ErrAuthInvalidToken = AppError ''E01410005'' ''invalid or expired token'' 401 False None"
definition ErrAuthUserNotFound :: go_error where
  "ErrAuthUserNotFound = AppError ''E01440001'' ''user not found'' 404 False None"
definition ErrAuthEmailConflict :: go_error where
  "ErrAuthEmailConflict = AppError ''E01090001'' ''email already registered'' 409 False None"
definition ErrAuthInternal :: go_error where
  "ErrAuthInternal = AppError ''E01500001'' ''authentication service error'' 500 False None"

definition ErrDocumentInvalidRequest :: go_error where
  "ErrDocumentInvalidRequest = AppError ''E02400001'' ''invalid document request'' 400 False None"
definition ErrDocumentUnauthorized :: go_error where
  "ErrDocumentUnauthorized = AppError ''E02410001'' ''authentication required'' 401 False None"
definition ErrDocumentForbidden :: go_error where
  "ErrDocumentForbidden = AppError ''E02420001'' ''document access forbidden'' 403 False None"
definition ErrDocumentNotFound :: go_error where
  "ErrDocumentNotFound = AppError ''E02440001'' ''document not found'' 404 False None"
definition ErrDocumentNotReady :: go_error where
  "ErrDocumentNotReady = AppError ''E02090001'' ''document is not ready'' 409 False None"
definition ErrDocumentConflict :: go_error where
  "ErrDocumentConflict = AppError ''E02090002'' ''document conflict'' 409 False None"
definition ErrDocumentInternal :: go_error where
  "ErrDocumentInternal = AppError ''E02500001'' ''document service error'' 500 False None"

definition ErrStorageInvalidKey :: go_error where
  "ErrStorageInvalidKey = AppError ''E03400001'' ''invalid storage key'' 400 False None"
definition ErrStorageObjectNotFound :: go_error where
  "ErrStorageObjectNotFound = AppError ''E03440001'' ''stored object not found'' 404 False None"
definition ErrStorageUnavailable :: go_error where
  "ErrStorageUnavailable = AppError ''E03530001'' ''object storage is unavailable'' 503 True None"
definition ErrStorageInternal :: go_error where
  "ErrStorageInternal = AppError ''E03500001'' ''object storage error'' 500 False None"

definition ErrQueueInvalidJob :: go_error where
  "ErrQueueInvalidJob = AppError ''E04400001'' ''invalid queue job'' 400 False None"
definition ErrQueueUnavailable :: go_error where
  "ErrQueueUnavailable = AppError ''E04530001'' ''processing queue is unavailable'' 503 True None"
definition ErrQueueInternal :: go_error where
  "ErrQueueInternal = AppError ''E04500001'' ''processing queue error'' 500 False None"

lemmas sentinel_defs =
  ErrCommonInvalidRequest_def ErrCommonInvalidBody_def ErrCommonInternal_def
  ErrAuthInvalidRequest_def ErrAuthInvalidBody_def ErrAuthUnauthorized_def
  ErrAuthInvalidCredentials_def ErrAuthInvalidRefresh_def ErrAuthInvalidTokenFormat_def
  ErrAuthInvalidToken_def ErrAuthUserNotFound_def ErrAuthEmailConflict_def ErrAuthInternal_def
  ErrDocumentInvalidRequest_def ErrDocumentUnauthorized_def ErrDocumentForbidden_def
  ErrDocumentNotFound_def ErrDocumentNotReady_def ErrDocumentConflict_def ErrDocumentInternal_def
  ErrStorageInvalidKey_def ErrStorageObjectNotFound_def ErrStorageUnavailable_def ErrStorageInternal_def
  ErrQueueInvalidJob_def ErrQueueUnavailable_def ErrQueueInternal_def

lemmas library_sentinel_defs = io_EOF_def os_ErrNotExist_def context_Canceled_def pgx_ErrNoRows_def

text \<open>All sentinels of \<open>errors.go\<close>, in the order of the file.\<close>

definition registry :: "go_error list" where
  "registry =
    [ErrCommonInvalidRequest, ErrCommonInvalidBody, ErrCommonInternal,
     ErrAuthInvalidRequest, ErrAuthInvalidBody, ErrAuthUnauthorized, ErrAuthInvalidCredentials,
     ErrAuthInvalidRefresh, ErrAuthInvalidTokenFormat, ErrAuthInvalidToken, ErrAuthUserNotFound,
     ErrAuthEmailConflict, ErrAuthInternal,
     ErrDocumentInvalidRequest, ErrDocumentUnauthorized, ErrDocumentForbidden, ErrDocumentNotFound,
     ErrDocumentNotReady, ErrDocumentConflict, ErrDocumentInternal,
     ErrStorageInvalidKey, ErrStorageObjectNotFound, ErrStorageUnavailable, ErrStorageInternal,
     ErrQueueInvalidJob, ErrQueueUnavailable, ErrQueueInternal]"

subsection \<open>Wrap, WithMessage, As\<close>

definition Wrap :: "go_error \<Rightarrow> go_error option \<Rightarrow> go_error" where
  "Wrap base c = (case c of None \<Rightarrow> base
     | Some e \<Rightarrow> (case base of AppError code msg status retryable _ \<Rightarrow>
         AppError code msg status retryable (Some e) | _ \<Rightarrow> base))"

definition WithMessage :: "go_error \<Rightarrow> string \<Rightarrow> go_error" where
  "WithMessage base message = (case base of AppError code _ status retryable c \<Rightarrow>
     AppError code message status retryable c | _ \<Rightarrow> base)"

definition As :: "go_error \<Rightarrow> go_error" where
  "As err = (case as_app_error err of Some e \<Rightarrow> e | None \<Rightarrow> ErrCommonInternal)"

definition error_code :: "go_error \<Rightarrow> string" where
  \<comment> \<open>the code a client sees for an error: \<open>As(err).Code\<close>\<close>
  "error_code err = Code (As err)"

lemma app_error_is_AppError [simp]:
  "app_error_is (AppError c m s r k) (AppError c' m' s' r' k') \<longleftrightarrow> c = c'"
  by (simp add: app_error_is_def)

lemma errors_is_app_cause:
  assumes "\<And>c m s r k. target \<noteq> AppError c m s r k"
  shows "errors_is (AppError code msg status retryable (Some e)) target = errors_is e target"
proof -
  have "\<not> app_error_is (AppError code msg status retryable (Some e)) target"
    using assms by (auto simp: app_error_is_def split: go_error.splits)
  then show ?thesis by (simp add: error_matches_def)
qed

lemma error_code_AppError [simp]: "error_code (AppError c m s r k) = c"
  by (simp add: error_code_def As_def)

lemma error_code_FmtWrap [simp]: "error_code (FmtWrap t e) = error_code e"
  by (simp add: error_code_def As_def)

end
