(* ===== verification/Storage_Keys.thy ===== *)
theory Storage_Keys
  imports Go_Paths App_Errors
begin

text \<open>
  Object keys: the check every storage adapter runs first (\<open>validateKey\<close> in
  \<open>internal/storage/local.go\<close>, used by \<open>s3.go\<close> too), the start-up check of the key prefix
  (\<open>validS3Prefix\<close> in \<open>internal/config/config.go\<close>) and the key the document service builds
  (\<open>document_service.go\<close>). The lemmas say what a validated key looks like and that generated
  keys are validated.
\<close>

definition validateKey :: "string \<Rightarrow> go_error option" where
  "validateKey key =
     (if key = [] \<or> contains key [backslash] \<or> contains key ''//'' \<or> path_is_abs key \<or>
         path_clean key \<noteq> key \<or> key = dot \<or> has_prefix key ''../''
      then Some ErrStorageInvalidKey else None)"

definition validS3Prefix :: "string \<Rightarrow> bool" where
  "validS3Prefix prefix \<longleftrightarrow> prefix = [] \<or>
     (\<not> contains prefix [backslash] \<and> \<not> contains prefix ''//'' \<and> path_clean prefix = prefix \<and>
      prefix \<noteq> dot \<and> \<not> has_prefix prefix ''../'')"

definition object_key :: "string \<Rightarrow> int \<Rightarrow> string \<Rightarrow> string" where
  \<comment> \<open>the key under which an upload of a user is stored, from the service's prefix and a random id\<close>
  "object_key storageKeyPrefix userID oid =
     (let key = ''documents/'' @ format_int userID @ ''/'' @ oid
      in if storageKeyPrefix \<noteq> [] then path_join [storageKeyPrefix, key] else key)"

subsection \<open>Substrings\<close>

lemma has_prefix_iff: "has_prefix s p \<longleftrightarrow> (\<exists>v. s = p @ v)"
  by (metis append_take_drop_id append_eq_conv_conj has_prefix_def)

lemma contains_iff: "contains s p \<longleftrightarrow> (\<exists>u v. s = u @ p @ v)"
proof (induction s)
  case Nil
  then show ?case by simp
next
  case (Cons c s)
  show ?case
  proof
    assume "contains (c # s) p"
    with Cons show "\<exists>u v. c # s = u @ p @ v"
      by (metis append_Cons append_Nil contains.simps(2) has_prefix_iff)
  next
    assume "\<exists>u v. c # s = u @ p @ v"
    then obtain u v where "c # s = u @ p @ v" by blast
    then have "has_prefix (c # s) p \<or> (\<exists>u v. s = u @ p @ v)"
      by (cases u) (auto simp: has_prefix_iff)
    with Cons show "contains (c # s) p" by simp
  qed
qed

lemma contains_single: "contains s [c] \<longleftrightarrow> c \<in> set s"
  by (auto simp: contains_iff in_set_conv_decomp)

lemma split_on_append_sep: "split_on b (u @ b # v) = split_on b u @ split_on b v"
proof (induction u)
  case Nil
  then show ?case by simp
next
  case (Cons c u)
  obtain x xs where "split_on b u = x # xs"
    by (meson list.exhaust split_on_not_Nil)
  with Cons show ?case by auto
qed

lemma normal_no_double_slash:
  assumes "cs \<noteq> []" "\<forall>c \<in> set cs. normal_comp c"
  shows "\<not> contains (join_with slash cs) ''//''"
proof
  assume "contains (join_with slash cs) ''//''"
  then obtain u v where uv: "join_with slash cs = u @ slash # slash # v"
    by (auto simp: contains_iff slash_def)
  from split_join [OF assms(1) no_slash_normal [OF assms(2)]] have "cs = split_on slash u @ [] # split_on slash v"
    by (simp add: uv split_on_append_sep)
  with assms(2) show False by (auto simp: normal_comp_def)
qed

subsection \<open>Validated keys\<close>

definition key_comps :: "string \<Rightarrow> string list" where
  "key_comps key = split_on slash key"

lemma key_comps_join: "cs \<noteq> [] \<Longrightarrow> \<forall>c \<in> set cs. normal_comp c \<Longrightarrow> key_comps (join_with slash cs) = cs"
  by (simp add: key_comps_def split_join no_slash_normal)

text \<open>A validated key is \<open>..\<close> or consists of normal components.\<close>

lemma validateKey_cases:
  assumes "validateKey key = None"
  shows "key = dotdot \<or> (key_comps key \<noteq> [] \<and> (\<forall>c \<in> set (key_comps key). normal_comp c))"
proof -
  from assms have *: "path_clean key = key" "\<not> path_is_abs key" "key \<noteq> dot" "\<not> has_prefix key ''../''"
    by (auto simp: validateKey_def split: if_splits)
  from *(1-3) show ?thesis
  proof (cases rule: clean_relative_cases)
    case (normal cs)
    then show ?thesis by (simp add: key_comps_join)
  qed (use *(4) in auto)
qed

lemma validateKey_normal:
  assumes "cs \<noteq> []" "\<forall>c \<in> set cs. normal_comp c \<and> backslash \<notin> set c"
  shows "validateKey (join_with slash cs) = None"
proof -
  from assms have n: "\<forall>c \<in> set cs. normal_comp c" "normal_comp (hd cs)" by auto
  note na = normal_not_abs [OF assms(1) n(2)]
  have bs: "backslash \<notin> set (join_with slash cs)"
    using set_join_with [of slash cs] assms(2) by (auto simp: backslash_def slash_def)
  have "join_with slash cs \<noteq> dot"
    using split_join [OF assms(1) no_slash_normal [OF n(1)]] n(1)
    by (auto simp: dot_def slash_def normal_comp_def)
  moreover have "\<not> has_prefix (join_with slash cs) ''../''"
  proof
    assume "has_prefix (join_with slash cs) ''../''"
    then obtain v where "join_with slash cs = dotdot @ slash # v"
      by (auto simp: has_prefix_iff dotdot_def slash_def)
    with split_join [OF assms(1) no_slash_normal [OF n(1)]] have "cs = dotdot # split_on slash v"
      by (simp add: split_on_append dotdot_def slash_def)
    with n(1) show False by (simp add: normal_comp_def)
  qed
  ultimately show ?thesis
    using na bs clean_normal [OF assms(1) n(1)] normal_no_double_slash [OF assms(1) n(1)]
    by (simp add: validateKey_def contains_single)
qed

subsection \<open>Generated keys\<close>

lemma format_int_normal: "normal_comp (format_int x)" "backslash \<notin> set (format_int x)"
proof -
  have *: "c \<in> set (format_int x) \<Longrightarrow> c \<noteq> CHR ''.'' \<and> c \<noteq> slash \<and> c \<noteq> backslash" for c
    using format_int_chars [of c x] by (auto simp: is_digit_def slash_def backslash_def)
  have "format_int x \<noteq> []" by (simp add: format_int_def)
  with * show "normal_comp (format_int x)" "backslash \<notin> set (format_int x)"
    by (force simp: normal_comp_def dot_def dotdot_def)+
qed

lemma documents_normal: "normal_comp ''documents'' \<and> backslash \<notin> set ''documents''"
  by (simp add: normal_comp_def dot_def dotdot_def slash_def backslash_def)

definition key_id :: "string \<Rightarrow> bool" where
  \<comment> \<open>what the key generator returns: a nonempty string of hexadecimal digits\<close>
  "key_id oid \<longleftrightarrow> oid \<noteq> [] \<and> list_all is_hex oid"

lemma key_id_normal: "key_id oid \<Longrightarrow> normal_comp oid \<and> backslash \<notin> set oid"
proof -
  assume k: "key_id oid"
  then have *: "c \<in> set oid \<Longrightarrow> c \<noteq> CHR ''.'' \<and> c \<noteq> slash \<and> c \<noteq> backslash" for c
    by (auto simp: key_id_def list_all_iff is_hex_def is_digit_def slash_def backslash_def)
  from k have "oid \<noteq> []" by (simp add: key_id_def)
  with * show ?thesis by (force simp: normal_comp_def dot_def dotdot_def)
qed

lemma base_key_join:
  "''documents/'' @ format_int userID @ ''/'' @ oid = join_with slash [''documents'', format_int userID, oid]"
  by (simp add: slash_def)

lemma prefix_comps:
  assumes "validS3Prefix prefix" "prefix \<noteq> []" "prefix \<noteq> dotdot" "\<not> path_is_abs prefix"
  obtains ps where "prefix = join_with slash ps" "ps \<noteq> []" "\<forall>c \<in> set ps. normal_comp c \<and> backslash \<notin> set c"
proof -
  from assms(1,2) have v: "path_clean prefix = prefix" "prefix \<noteq> dot" "\<not> has_prefix prefix ''../''"
    "backslash \<notin> set prefix"
    by (auto simp: validS3Prefix_def contains_single)
  from v(1) assms(4) v(2) show ?thesis
  proof (cases rule: clean_relative_cases)
    case (normal cs)
    have "\<forall>c \<in> set cs. set c \<subseteq> set (join_with slash cs)"
      by (induction slash cs rule: join_with.induct) auto
    with normal v(4) show ?thesis using that by blast
  qed (use v assms(3) in auto)
qed

lemma object_key_join:
  assumes "validS3Prefix prefix" "prefix \<noteq> dotdot" "\<not> path_is_abs prefix" "key_id oid"
  obtains ps where "object_key prefix userID oid =
      join_with slash (ps @ [''documents'', format_int userID, oid])"
    "\<forall>c \<in> set (ps @ [''documents'', format_int userID, oid]). normal_comp c \<and> backslash \<notin> set c"
proof (cases "prefix = []")
  case True
  let ?ks = "[''documents'', format_int userID, oid]"
  have "\<forall>c \<in> set ([] @ ?ks). normal_comp c \<and> backslash \<notin> set c"
    using documents_normal format_int_normal key_id_normal [OF assms(4)] by auto
  moreover from True have "object_key prefix userID oid = join_with slash ([] @ ?ks)"
    by (simp add: object_key_def base_key_join slash_def)
  ultimately show ?thesis by (rule that [rotated])
next
  case False
  let ?ks = "[''documents'', format_int userID, oid]"
  obtain ps where ps: "prefix = join_with slash ps" "ps \<noteq> []" "\<forall>c \<in> set ps. normal_comp c \<and> backslash \<notin> set c"
    using prefix_comps [OF assms(1) False assms(2,3)] .
  have n: "\<forall>c \<in> set (ps @ ?ks). normal_comp c \<and> backslash \<notin> set c"
    using ps(3) documents_normal format_int_normal key_id_normal [OF assms(4)] by auto
  have k: "join_with slash ?ks \<noteq> []" by simp
  have "path_join [prefix, join_with slash ?ks] = path_clean (join_with slash (ps @ ?ks))"
    using False k join_with_append [OF ps(2), of ?ks] by (simp add: path_join_def ps(1))
  also have "\<dots> = join_with slash (ps @ ?ks)"
    using n by (intro clean_normal) auto
  finally have "object_key prefix userID oid = join_with slash (ps @ ?ks)"
    using False unfolding object_key_def base_key_join by simp
  then show ?thesis using n by (rule that)
qed

lemma object_key_valid:
  assumes "validS3Prefix prefix" "prefix \<noteq> dotdot" "\<not> path_is_abs prefix" "key_id oid"
  shows "validateKey (object_key prefix userID oid) = None"
  using object_key_join [OF assms, of userID] validateKey_normal by (metis append_is_Nil_conv list.distinct(1))

end
