(* ===== verification/Api_Domain.thy ===== *)
theory Api_Domain
  imports App_Errors
begin

text \<open>
  Package \<open>internal/domain\<close>: entities, actors, pagination, jobs and the interfaces
  (\<open>ports.go\<close>) through which the services reach the repositories, the object storage and the
  queue. A Go interface value is a record of its methods; each method is a \<open>call\<close> over the
  state \<open>'w\<close> of the process's surroundings. A pointer field that may be nil is an option.
  \<open>DocumentStatus\<close> and \<open>Role\<close> are string types in the source and here.
\<close>

subsection \<open>document.go\<close>

definition DocumentPending :: string where "DocumentPending = ''pending''"
definition DocumentProcessing :: string where "DocumentProcessing = ''processing''"
definition DocumentReady :: string where "DocumentReady = ''ready''"
definition DocumentFailed :: string where "DocumentFailed = ''failed''"

lemmas status_defs = DocumentPending_def DocumentProcessing_def DocumentReady_def DocumentFailed_def

definition status_valid :: "string \<Rightarrow> bool" where
  "status_valid s \<longleftrightarrow>
     s = DocumentPending \<or> s = DocumentProcessing \<or> s = DocumentReady \<or> s = DocumentFailed"

record document =
  doc_ID :: int
  doc_OwnerID :: int
  doc_OriginalName :: string
  doc_MediaType :: string
  doc_SizeBytes :: int
  doc_StorageKey :: string
  doc_URL :: string
  doc_ChecksumSHA256 :: "string option"
  doc_Status :: string
  doc_ProcessingError :: "string option"
  doc_CreatedAt :: instant
  doc_UpdatedAt :: instant
  doc_DeletedAt :: "instant option"

record new_document =
  nd_OwnerID :: int
  nd_OriginalName :: string
  nd_MediaType :: string
  nd_SizeBytes :: int
  nd_StorageKey :: string

subsection \<open>user.go\<close>

definition RoleAdmin :: string where "RoleAdmin = ''admin''"
definition RoleUser :: string where "RoleUser = ''user''"

record user =
  usr_ID :: int
  usr_Email :: string
  usr_PasswordHash :: string
  usr_Role :: string
  usr_IsActive :: bool
  usr_CreatedAt :: instant
  usr_UpdatedAt :: instant
  usr_DeletedAt :: "instant option"

record actor =
  act_UserID :: int
  act_Role :: string

definition is_admin :: "actor \<Rightarrow> bool" where
  "is_admin a \<longleftrightarrow> act_Role a = RoleAdmin"

record refresh_session =
  ses_ID :: int
  ses_UserID :: int
  ses_TokenID :: string
  ses_TokenHash :: string
  ses_ExpiresAt :: instant
  ses_RevokedAt :: "instant option"
  ses_ReplacedByTokenID :: "string option"
  ses_CreatedAt :: instant

subsection \<open>pagination.go\<close>

record pagination =
  pgn_Page :: int
  pgn_PageSize :: int

definition normalize_pagination :: "int \<Rightarrow> int \<Rightarrow> pagination" where
  "normalize_pagination page pageSize =
     (let page = (if page < 1 then 1 else page);
          pageSize = (if pageSize < 1 then 20 else pageSize);
          pageSize = (if pageSize > 100 then 100 else pageSize)
      in \<lparr>pgn_Page = page, pgn_PageSize = pageSize\<rparr>)"

definition page_limit :: "pagination \<Rightarrow> int" where
  "page_limit p = wrap_signed 32 (pgn_PageSize p)"

definition page_offset :: "pagination \<Rightarrow> int" where
  \<comment> \<open>\<open>int\<close> arithmetic wraps at 64 bits, the conversion truncates to 32\<close>
  "page_offset p =
     wrap_signed 32 (wrap_signed 64 (wrap_signed 64 (pgn_Page p - 1) * pgn_PageSize p))"

record 'a page =
  page_Items :: "'a list"
  page_Page :: int
  page_PageSize :: int
  page_TotalItems :: int

lemma normalize_pagination_range:
  "1 \<le> pgn_Page (normalize_pagination page pageSize) \<and>
   1 \<le> pgn_PageSize (normalize_pagination page pageSize) \<and>
   pgn_PageSize (normalize_pagination page pageSize) \<le> 100"
  by (simp add: normalize_pagination_def Let_def)

lemma page_limit_normalized:
  "page_limit (normalize_pagination page pageSize) = pgn_PageSize (normalize_pagination page pageSize)"
  unfolding page_limit_def
  using normalize_pagination_range [of page pageSize] by (intro wrap_signed_id) auto

lemma page_offset_exact:
  assumes "1 \<le> pgn_Page p" "1 \<le> pgn_PageSize p" "(pgn_Page p - 1) * pgn_PageSize p < 2 ^ 31"
  shows "page_offset p = (pgn_Page p - 1) * pgn_PageSize p"
proof -
  have "pgn_Page p - 1 \<le> (pgn_Page p - 1) * pgn_PageSize p"
    using assms(1,2) by (simp add: mult_le_cancel_left1)
  with assms have "wrap_signed 64 (pgn_Page p - 1) = pgn_Page p - 1"
    by (intro wrap_signed_id) auto
  moreover from assms have "0 \<le> (pgn_Page p - 1) * pgn_PageSize p" by simp
  ultimately show ?thesis
    using assms(3) by (simp add: page_offset_def wrap_signed_id)
qed

subsection \<open>ports.go\<close>

record document_job =
  job_DocumentID :: int
  job_Attempt :: int

record ('w) document_repository =
  repo_Create :: "new_document \<Rightarrow> ('w, go_error, document) call"
  repo_GetByID :: "int \<Rightarrow> ('w, go_error, document) call"
  repo_List :: "int option \<Rightarrow> pagination \<Rightarrow> ('w, go_error, document list \<times> int) call"
  repo_SoftDelete :: "int \<Rightarrow> ('w, go_error, unit) call"
  repo_ClaimProcessing :: "int \<Rightarrow> ('w, go_error, bool) call"
  repo_MarkReady :: "int \<Rightarrow> string \<Rightarrow> int \<Rightarrow> ('w, go_error, unit) call"
  repo_MarkFailed :: "int \<Rightarrow> string \<Rightarrow> ('w, go_error, unit) call"

text \<open>
  An object body is the stream of results its \<open>Read\<close> calls return (see \<open>Io_Readers\<close>); a
  storage \<open>Put\<close> consumes a reader of some type \<open>'r\<close> and returns it in its final state,
  since the caller keeps a pointer to it.
\<close>

type_synonym source = "(bytes \<times> go_error option) list"

record stored_object =
  obj_Body :: source
  obj_SizeBytes :: int
  obj_MediaType :: string

record ('w, 'r) object_storage =
  st_Put :: "string \<Rightarrow> 'r \<Rightarrow> string \<Rightarrow> 'w \<Rightarrow> (go_error + unit) \<times> 'r \<times> 'w"
  st_Open :: "string \<Rightarrow> ('w, go_error, stored_object) call"
  st_Delete :: "string \<Rightarrow> ('w, go_error, unit) call"

record ('w, 'c) document_queue =
  dq_Enqueue :: "document_job \<Rightarrow> ('w, go_error, unit) call"
  dq_Consume :: "('w, go_error, 'c) call"

record ('w, 'c) claimed_document_job =
  cj_Job :: "'c \<Rightarrow> document_job"
  cj_Ack :: "'c \<Rightarrow> ('w, go_error, unit) call"
  cj_Retry :: "'c \<Rightarrow> go_error \<Rightarrow> ('w, go_error, unit) call"

record ('w) auth_repository =
  ar_CreateUser :: "string \<Rightarrow> string \<Rightarrow> string \<Rightarrow> ('w, go_error, user) call"
  ar_GetUserByEmail :: "string \<Rightarrow> ('w, go_error, user) call"
  ar_GetUserByID :: "int \<Rightarrow> ('w, go_error, user) call"
  ar_CreateRefreshSession :: "refresh_session \<Rightarrow> ('w, go_error, unit) call"
  ar_GetRefreshSessionByTokenID :: "string \<Rightarrow> ('w, go_error, refresh_session) call"
  ar_RotateRefreshSession :: "string \<Rightarrow> refresh_session \<Rightarrow> ('w, go_error, unit) call"
  ar_RevokeRefreshSession :: "string \<Rightarrow> ('w, go_error, unit) call"

end
