(* ===== verification/Io_Readers.thy ===== *)
theory Io_Readers
  imports Api_Domain
begin

text \<open>
  Streams: the readers of \<open>internal/service/document_service.go\<close> (\<open>maxBytesReader\<close>,
  \<open>countingReader\<close>) and \<open>internal/storage/local.go\<close> (\<open>contextReader\<close>), the standard
  \<open>io.Copy\<close> loop they run under, and the contract of \<open>io.Reader\<close> as a locale.

  A reader is a state \<open>'r\<close> and its \<open>Read\<close> method: from the length of the buffer and the
  state, the bytes placed in the buffer, the error, and the next state. A request body is a
  script of \<open>Read\<close> results (\<open>source\<close>): every behaviour an \<open>io.Reader\<close> may show,
  including reads that return no bytes and no error, is some script; a result longer than the
  buffer is delivered in pieces.
\<close>

type_synonym 'r read_fn = "nat \<Rightarrow> 'r \<Rightarrow> bytes \<times> go_error option \<times> 'r"

fun source_read :: "source read_fn" where
  "source_read n [] = ([], Some io_EOF, [])"
| "source_read n ((bs, e) # rest) =
     (if length bs \<le> n then (bs, e, rest)
      else (take n bs, None, (drop n bs, e) # rest))"

subsection \<open>The readers of the service\<close>

definition errUploadTooLarge :: go_error where
  "errUploadTooLarge = Sentinel ''errUploadTooLarge'' ''upload exceeds maximum size''"

record 'r max_bytes_reader =
  mb_reader :: 'r
  mb_remaining :: int
  mb_checkedOverflow :: bool

definition max_bytes_read :: "'r read_fn \<Rightarrow> 'r max_bytes_reader read_fn" where
  "max_bytes_read rd n r =
     (if mb_remaining r = 0 then
        if mb_checkedOverflow r then ([], Some io_EOF, r)
        else case rd 1 (mb_reader r) of
          (bs, e, u) \<Rightarrow>
            let r' = r\<lparr>mb_reader := u, mb_checkedOverflow := True\<rparr>
            in if bs \<noteq> [] then ([], Some errUploadTooLarge, r') else ([], e, r')
      else
        let n' = (if int n > mb_remaining r then nat (mb_remaining r) else n)
        in case rd n' (mb_reader r) of
          (bs, e, u) \<Rightarrow> (bs, e, r\<lparr>mb_reader := u, mb_remaining := mb_remaining r - int (length bs)\<rparr>))"

record 'r counting_reader =
  cr_reader :: 'r
  cr_count :: int

definition counting_read :: "'r read_fn \<Rightarrow> 'r counting_reader read_fn" where
  "counting_read rd n r =
     (case rd n (cr_reader r) of
        (bs, e, u) \<Rightarrow>
          (bs, e, r\<lparr>cr_reader := u, cr_count := wrap_signed 64 (cr_count r + int (length bs))\<rparr>))"

text \<open>
  A context is the sequence of results its \<open>Err\<close> method will return; an exhausted sequence
  means a context that is never cancelled.
\<close>

type_synonym ctx = "go_error option list"

definition ctx_err :: "ctx \<Rightarrow> go_error option \<times> ctx" where
  "ctx_err c = (case c of [] \<Rightarrow> (None, []) | e # c' \<Rightarrow> (e, c'))"

record 'r context_reader =
  cx_ctx :: ctx
  cx_reader :: 'r

definition context_read :: "'r read_fn \<Rightarrow> 'r context_reader read_fn" where
  "context_read rd n r =
     (case ctx_err (cx_ctx r) of
        (Some e, c) \<Rightarrow> ([], Some e, r\<lparr>cx_ctx := c\<rparr>)
      | (None, c) \<Rightarrow>
          (case rd n (cx_reader r) of (bs, e, u) \<Rightarrow> (bs, e, r\<lparr>cx_ctx := c, cx_reader := u\<rparr>)))"

text \<open>
  The readers of an upload: \<open>&countingReader{reader: &maxBytesReader{reader: body,
  remaining: maxUploadBytes}}\<close>.
\<close>

type_synonym upload_reader = "source max_bytes_reader counting_reader"

definition upload_reader :: "source \<Rightarrow> int \<Rightarrow> upload_reader" where
  "upload_reader body maxUploadBytes =
     \<lparr>cr_reader = \<lparr>mb_reader = body, mb_remaining = maxUploadBytes, mb_checkedOverflow = False\<rparr>,
      cr_count = 0\<rparr>"

definition upload_read :: "upload_reader read_fn" where
  "upload_read = counting_read (max_bytes_read source_read)"

subsection \<open>io.Copy\<close>

text \<open>
  The loop of \<open>io.Copy\<close> with a destination state \<open>'d\<close> and its \<open>Write\<close>. It returns the
  error that ended it (none at the end of the input), the reader and the destination. A reader
  that never ends makes it not return, which is the value \<open>None\<close>.
\<close>

definition copy_buffer :: nat where "copy_buffer = 32768"

partial_function (option) io_copy ::
    "(bytes \<Rightarrow> 'd \<Rightarrow> go_error option \<times> 'd) \<Rightarrow> 'r read_fn \<Rightarrow> 'r \<Rightarrow> 'd
       \<Rightarrow> (go_error option \<times> 'r \<times> 'd) option" where
  "io_copy wr rd r d =
     (let (bs, er, r') = rd copy_buffer r;
          (ew, d') = (if bs = [] then (None, d) else wr bs d)
      in if ew \<noteq> None then Some (ew, r', d')
         else if er = None then io_copy wr rd r' d'
         else Some (if er = Some io_EOF then None else er, r', d'))"

declare io_copy.simps [code]

text \<open>What every write keeps, the whole copy keeps.\<close>

lemma io_copy_invariant:
  assumes "io_copy wr rd r d = Some (e, r', d')" "I d" "\<And>bs d. I d \<Longrightarrow> I (snd (wr bs d))"
    "J r" "\<And>r. J r \<Longrightarrow> J (snd (snd (rd copy_buffer r)))"
  shows "I d' \<and> J r'"
proof -
  let ?Q = "\<lambda>r d x. I d \<longrightarrow> J r \<longrightarrow> I (snd (snd x)) \<and> J (fst (snd x))"
  have "wr = wr \<longrightarrow> rd = rd \<longrightarrow> ?Q r d x" if "io_copy wr rd r d = Some x" for x
  proof (rule io_copy.raw_induct [where P = "\<lambda>wr' rd' r d x. wr' = wr \<longrightarrow> rd' = rd \<longrightarrow> ?Q r d x",
        OF _ that], intro impI)
    fix f wr' rd' r d x
    assume IH: "\<And>wr' rd' r d x. f wr' rd' r d = Some x \<Longrightarrow> wr' = wr \<longrightarrow> rd' = rd \<longrightarrow> ?Q r d x"
      and eq: "(let (bs, er, r') = rd' copy_buffer r;
                 (ew, d') = if bs = [] then (None, d) else wr' bs d
             in if ew \<noteq> None then Some (ew, r', d')
                else if er = None then f wr' rd' r' d'
                else Some (if er = Some io_EOF then None else er, r', d')) = Some x"
      and w: "wr' = wr" "rd' = rd" and d: "I d" "J r"
    obtain bs er r1 where r1: "rd copy_buffer r = (bs, er, r1)" by (metis prod_cases3)
    obtain ew d1 where d1: "(if bs = [] then (None, d) else wr bs d) = (ew, d1)" by fastforce
    have i: "I d1" "J r1"
      using d assms(3) [OF d(1), of bs] d1 assms(5) [OF d(2)] r1 by (auto split: if_splits)
    from eq have eq': "(if ew \<noteq> None then Some (ew, r1, d1)
          else if er = None then f wr rd r1 d1
          else Some (if er = Some io_EOF then None else er, r1, d1)) = Some x"
      by (simp only: Let_def r1 w d1 prod.case)
    show "I (snd (snd x)) \<and> J (fst (snd x))"
    proof (cases "ew = None \<and> er = None")
      case True
      with eq' have "f wr rd r1 d1 = Some x" by simp
      with IH i show ?thesis by blast
    next
      case False
      with eq' i show ?thesis by (auto split: if_splits)
    qed
  qed
  from this [OF assms(1)] assms(2,4) show ?thesis by simp
qed

text \<open>Writing to a buffer or a hash appends and never fails.\<close>

definition append_write :: "bytes \<Rightarrow> bytes \<Rightarrow> go_error option \<times> bytes" where
  "append_write bs d = (None, d @ bs)"

subsection \<open>The contract of a reader\<close>

text \<open>
  \<open>content\<close> is what a reader in this state will deliver before its first error and \<open>fin\<close> is
  that error (\<open>io.EOF\<close> at a proper end). \<open>inv\<close> holds while the reader is live, \<open>fini\<close> once
  it has returned its error, and \<open>size\<close> bounds the number of reads that are left.
\<close>

locale reader =
  fixes rd :: "'r read_fn"
    and inv :: "'r \<Rightarrow> bool"
    and fini :: "'r \<Rightarrow> bool"
    and size :: "'r \<Rightarrow> nat"
    and content :: "'r \<Rightarrow> bytes"
    and fin :: "'r \<Rightarrow> go_error"
  assumes read_bound: "inv r \<Longrightarrow> 0 < n \<Longrightarrow> rd n r = (bs, e, r') \<Longrightarrow> length bs \<le> n"
    and read_more: "inv r \<Longrightarrow> 0 < n \<Longrightarrow> rd n r = (bs, None, r') \<Longrightarrow>
          inv r' \<and> size r' < size r \<and> content r = bs @ content r' \<and> fin r' = fin r"
    and read_end: "inv r \<Longrightarrow> 0 < n \<Longrightarrow> rd n r = (bs, Some err, r') \<Longrightarrow>
          content r = bs \<and> fin r = err \<and> fini r'"
begin

text \<open>Copying to a destination that never fails delivers exactly the content.\<close>

lemma copy_append:
  "inv r \<Longrightarrow> \<exists>r'. fini r' \<and>
     io_copy append_write rd r d =
       Some (if fin r = io_EOF then None else Some (fin r), r', d @ content r)"
proof (induction "size r" arbitrary: r d rule: less_induct)
  case less
  have n: "0 < copy_buffer" by (simp add: copy_buffer_def)
  obtain bs e r' where rd: "rd copy_buffer r = (bs, e, r')"
    by (metis prod_cases3)
  show ?case
  proof (cases e)
    case None
    with rd read_more [OF less.prems n, of bs r'] have
      m: "inv r'" "size r' < size r" "content r = bs @ content r'" "fin r' = fin r" by auto
    from less.hyps [OF m(2,1), of "d @ bs"] obtain q where
      "fini q" "io_copy append_write rd r' (d @ bs) =
        Some (if fin r' = io_EOF then None else Some (fin r'), q, (d @ bs) @ content r')" by blast
    with m rd None show ?thesis
      by (cases "bs = []") (simp_all add: io_copy.simps [of append_write rd r] append_write_def)
  next
    case (Some err)
    with rd read_end [OF less.prems n, of bs err r'] show ?thesis
      by (auto simp: io_copy.simps [of append_write rd r] append_write_def)
  qed
qed

text \<open>
  Copying to a destination that may fail, under a context that may be cancelled, always
  returns; when it returns without an error, the whole content has been read, the input ended
  properly and the reader is finished.
\<close>

definition good_write :: "('d \<Rightarrow> bytes) \<Rightarrow> (bytes \<Rightarrow> 'd \<Rightarrow> go_error option \<times> 'd) \<Rightarrow> bool" where
  "good_write data wr \<longleftrightarrow> (\<forall>bs d d'. wr bs d = (None, d') \<longrightarrow> data d' = data d @ bs)"

lemma copy_context:
  assumes "good_write data wr" "\<forall>e. Some e \<in> set c \<longrightarrow> e \<noteq> io_EOF" "inv r"
  shows "\<exists>eo r' d'. io_copy wr (context_read rd) \<lparr>cx_ctx = c, cx_reader = r\<rparr> d = Some (eo, r', d') \<and>
           (eo = None \<longrightarrow> fin r = io_EOF \<and> data d' = data d @ content r \<and> fini (cx_reader r'))"
  using assms(2,3)
proof (induction "size r" arbitrary: r d c rule: less_induct)
  case less
  let ?R = "\<lparr>cx_ctx = c, cx_reader = r\<rparr>"
  note unfold = io_copy.simps [of wr "context_read rd" ?R d]
  have n: "0 < copy_buffer" by (simp add: copy_buffer_def)
  obtain ce c' where c: "ctx_err c = (ce, c')" by fastforce
  with less.prems(1) have c': "\<forall>e. Some e \<in> set c' \<longrightarrow> e \<noteq> io_EOF" and ce: "ce \<noteq> Some io_EOF"
    by (auto simp: ctx_err_def split: list.splits)
  show ?case
  proof (cases ce)
    case (Some e)
    with c ce show ?thesis by (simp add: unfold context_read_def)
  next
    case None
    obtain bs e r' where rd: "rd copy_buffer r = (bs, e, r')"
      by (metis prod_cases3)
    with None c have cr: "context_read rd copy_buffer ?R = (bs, e, \<lparr>cx_ctx = c', cx_reader = r'\<rparr>)"
      by (simp add: context_read_def)
    obtain ew d' where w: "(if bs = [] then (None, d) else wr bs d) = (ew, d')" by fastforce
    with assms(1) have wd: "ew = None \<Longrightarrow> data d' = data d @ bs"
      by (auto simp: good_write_def split: if_splits)
    show ?thesis
    proof (cases ew)
      case (Some x)
      with cr w show ?thesis by (simp add: unfold)
    next
      case ew: None
      show ?thesis
      proof (cases e)
        case None
        with rd read_more [OF less.prems(2) n, of bs r'] have
          m: "inv r'" "size r' < size r" "content r = bs @ content r'" "fin r' = fin r" by auto
        from None ew cr w have "io_copy wr (context_read rd) ?R d =
            io_copy wr (context_read rd) \<lparr>cx_ctx = c', cx_reader = r'\<rparr> d'"
          by (simp add: unfold)
        with less.hyps [OF m(2) c' m(1), of d'] m wd [OF ew] show ?thesis by simp
      next
        case (Some err)
        with rd read_end [OF less.prems(2) n, of bs err r'] ew cr w wd show ?thesis
          by (simp add: unfold)
      qed
    qed
  qed
qed

end

text \<open>
  Counting keeps the contract; its invariant ties the count to what is still to come, so a
  finished counting reader has counted the whole content.
\<close>

context reader
begin

definition cnt_inv :: "int \<Rightarrow> 'r counting_reader \<Rightarrow> bool" where
  "cnt_inv tot r \<longleftrightarrow> inv (cr_reader r) \<and> 0 \<le> cr_count r \<and> tot < 2 ^ 63 \<and>
     cr_count r + int (length (content (cr_reader r))) = tot"

definition cnt_fini :: "int \<Rightarrow> 'r counting_reader \<Rightarrow> bool" where
  "cnt_fini tot r \<longleftrightarrow> cr_count r = tot"

lemma counting_step:
  assumes "counting_read rd n r = (bs, e, r')"
  obtains u where "rd n (cr_reader r) = (bs, e, u)"
    "r' = r\<lparr>cr_reader := u, cr_count := wrap_signed 64 (cr_count r + int (length bs))\<rparr>"
  using assms by (auto simp: counting_read_def split: prod.splits)

lemma counting_count:
  assumes "cnt_inv tot r" "content (cr_reader r) = bs @ rest"
  shows "wrap_signed 64 (cr_count r + int (length bs)) = cr_count r + int (length bs)"
  using assms by (intro wrap_signed_id) (auto simp: cnt_inv_def)

lemma counting_reader:
  "reader (counting_read rd) (cnt_inv tot) (cnt_fini tot) (\<lambda>r. size (cr_reader r))
     (\<lambda>r. content (cr_reader r)) (\<lambda>r. fin (cr_reader r))"
proof (unfold_locales, goal_cases)
  case (1 r n bs e r')
  then show ?case
    by (elim counting_step) (auto simp: cnt_inv_def intro: read_bound)
next
  case (2 r n bs r')
  from 2(3) obtain u where u: "rd n (cr_reader r) = (bs, None, u)"
    "r' = r\<lparr>cr_reader := u, cr_count := wrap_signed 64 (cr_count r + int (length bs))\<rparr>"
    by (rule counting_step)
  from 2(1) have "inv (cr_reader r)" by (simp add: cnt_inv_def)
  from read_more [OF this 2(2) u(1)] counting_count [OF 2(1), of bs "content u"] u(2) 2(1)
  show ?case by (auto simp: cnt_inv_def)
next
  case (3 r n bs err r')
  from 3(3) obtain u where u: "rd n (cr_reader r) = (bs, Some err, u)"
    "r' = r\<lparr>cr_reader := u, cr_count := wrap_signed 64 (cr_count r + int (length bs))\<rparr>"
    by (rule counting_step)
  from 3(1) have "inv (cr_reader r)" by (simp add: cnt_inv_def)
  from read_end [OF this 3(2) u(1)] counting_count [OF 3(1), of bs "[]"] u(2) 3(1)
  show ?case by (auto simp: cnt_inv_def cnt_fini_def)
qed

end

text \<open>
  A reader that never returns an empty read without an error. Only for these does the limit
  of \<open>maxBytesReader\<close> work (see the property on its overflow probe).
\<close>

locale proper_reader = reader +
  assumes read_nonempty: "inv r \<Longrightarrow> 0 < n \<Longrightarrow> rd n r = (bs, None, r') \<Longrightarrow> bs \<noteq> []"
begin

lemma first_read_empty:
  assumes "inv r" "0 < n" "rd n r = (bs, e, r')"
  shows "bs = [] \<longleftrightarrow> content r = []"
proof (cases e)
  case None
  with assms(3) read_more [OF assms(1,2), of bs r'] read_nonempty [OF assms(1,2), of bs r']
  show ?thesis by simp
next
  case (Some err)
  with assms(3) read_end [OF assms(1,2), of bs err r'] show ?thesis by simp
qed

definition mb_inv :: "'a max_bytes_reader \<Rightarrow> bool" where
  "mb_inv r \<longleftrightarrow> 0 \<le> mb_remaining r \<and> (mb_remaining r = 0 \<and> mb_checkedOverflow r \<or>
     \<not> mb_checkedOverflow r \<and> inv (mb_reader r))"

definition mb_content :: "'a max_bytes_reader \<Rightarrow> bytes" where
  "mb_content r = (if mb_checkedOverflow r then [] else take (nat (mb_remaining r)) (content (mb_reader r)))"

definition mb_fin :: "'a max_bytes_reader \<Rightarrow> go_error" where
  "mb_fin r = (if mb_checkedOverflow r then io_EOF
     else if int (length (content (mb_reader r))) > mb_remaining r then errUploadTooLarge
     else fin (mb_reader r))"

lemma max_bytes_bound:
  assumes "mb_inv r" "0 < n" "max_bytes_read rd n r = (bs, e, r')"
  shows "length bs \<le> n"
proof (cases "mb_remaining r = 0")
  case True
  with assms(3) show ?thesis
    by (auto simp: max_bytes_read_def Let_def split: if_splits prod.splits)
next
  case False
  let ?n = "if int n > mb_remaining r then nat (mb_remaining r) else n"
  obtain u where p: "rd ?n (mb_reader r) = (bs, e, u)"
    using False assms(3) by (auto simp: max_bytes_read_def Let_def split: prod.splits)
  from False assms(1,2) have i: "inv (mb_reader r)" and n: "0 < ?n" and le: "?n \<le> n"
    by (auto simp: mb_inv_def)
  from read_bound [OF i n p] le show ?thesis by (rule le_trans)
qed

lemma max_bytes_step:
  assumes "mb_inv r" "0 < n" "max_bytes_read rd n r = (bs, e, r')"
  shows "case e of
      None \<Rightarrow> mb_inv r' \<and> size (mb_reader r') < size (mb_reader r) \<and>
              mb_content r = bs @ mb_content r' \<and> mb_fin r' = mb_fin r
    | Some err \<Rightarrow> mb_content r = bs \<and> mb_fin r = err"
proof (cases "mb_remaining r = 0")
  case True
  show ?thesis
  proof (cases "mb_checkedOverflow r")
    case True
    with \<open>mb_remaining r = 0\<close> assms(3) show ?thesis
      by (auto simp: max_bytes_read_def mb_content_def mb_fin_def)
  next
    case False
    with assms(1) have i: "inv (mb_reader r)" by (simp add: mb_inv_def)
    obtain b1 e1 u where p: "rd 1 (mb_reader r) = (b1, e1, u)" by (metis prod_cases3)
    have "e1 = None \<Longrightarrow> b1 \<noteq> []" using read_nonempty [OF i, of 1 b1 u] p by simp
    moreover have "b1 = [] \<Longrightarrow> e1 = Some (fin (mb_reader r)) \<and> content (mb_reader r) = []"
      using read_end [OF i, of 1 b1 _ u] p calculation by (cases e1) auto
    ultimately show ?thesis
      using p False \<open>mb_remaining r = 0\<close> assms(3) first_read_empty [OF i _ p]
      by (cases "b1 = []") (auto simp: max_bytes_read_def Let_def mb_content_def mb_fin_def)
  qed
next
  case False
  with assms(1) have i: "inv (mb_reader r)" "\<not> mb_checkedOverflow r" "0 < mb_remaining r"
    by (auto simp: mb_inv_def)
  let ?n = "if int n > mb_remaining r then nat (mb_remaining r) else n"
  from i assms(2) have n: "0 < ?n" by auto
  obtain u where p: "rd ?n (mb_reader r) = (bs, e, u)"
    and r': "r' = r\<lparr>mb_reader := u, mb_remaining := mb_remaining r - int (length bs)\<rparr>"
    using False assms(3) by (auto simp: max_bytes_read_def Let_def split: prod.splits)
  from read_bound [OF i(1) n p] have le: "int (length bs) \<le> mb_remaining r" 
    using i(3) by (auto split: if_splits)
  show ?thesis
  proof (cases e)
    case None
    with read_more [OF i(1) n, of bs u] p le r' i show ?thesis
      by (auto simp: mb_inv_def mb_content_def mb_fin_def take_append nat_diff_distrib)
  next
    case (Some err)
    with read_end [OF i(1) n, of bs err u] p le r' i show ?thesis
      by (auto simp: mb_content_def mb_fin_def)
  qed
qed

sublocale mb: reader "max_bytes_read rd" mb_inv "\<lambda>_. True" "\<lambda>r. size (mb_reader r)" mb_content mb_fin
proof unfold_locales
  fix r n bs e r'
  assume *: "mb_inv r" "0 < n" "max_bytes_read rd n r = (bs, e, r')"
  show "length bs \<le> n" by (rule max_bytes_bound [OF *])
next
  fix r n bs r'
  assume "mb_inv r" "0 < n" "max_bytes_read rd n r = (bs, None, r')"
  from max_bytes_step [OF this]
  show "mb_inv r' \<and> size (mb_reader r') < size (mb_reader r) \<and>
      mb_content r = bs @ mb_content r' \<and> mb_fin r' = mb_fin r" by simp
next
  fix r n bs err r'
  assume "mb_inv r" "0 < n" "max_bytes_read rd n r = (bs, Some err, r')"
  from max_bytes_step [OF this] show "mb_content r = bs \<and> mb_fin r = err \<and> True" by simp
qed

end


subsection \<open>Request bodies satisfy the contract\<close>

fun source_bytes :: "source \<Rightarrow> bytes" where
  "source_bytes [] = []"
| "source_bytes ((bs, None) # rest) = bs @ source_bytes rest"
| "source_bytes ((bs, Some e) # rest) = bs"

fun source_fin :: "source \<Rightarrow> go_error" where
  "source_fin [] = io_EOF"
| "source_fin ((bs, None) # rest) = source_fin rest"
| "source_fin ((bs, Some e) # rest) = e"

definition proper_source :: "source \<Rightarrow> bool" where
  "proper_source s \<longleftrightarrow> list_all (\<lambda>(bs, e). bs \<noteq> [] \<or> e \<noteq> None) s"

definition source_size :: "source \<Rightarrow> nat" where
  "source_size s = sum_list (map (\<lambda>(bs, e). Suc (length bs)) s)"

lemma source_read_bound: "source_read n s = (bs, e, s') \<Longrightarrow> length bs \<le> n"
  by (cases "(n, s)" rule: source_read.cases) (auto split: if_splits)

lemma source_read_more:
  assumes "0 < n" "source_read n s = (bs, None, s')"
  shows "source_size s' < source_size s \<and> source_bytes s = bs @ source_bytes s' \<and> source_fin s' = source_fin s"
proof (cases s)
  case Nil
  with assms show ?thesis by simp
next
  case (Cons x rest)
  obtain b e where x: "x = (b, e)" by fastforce
  with Cons assms show ?thesis
    by (cases "length b \<le> n"; cases e) (auto simp: source_size_def simp flip: append_assoc)
qed

lemma source_read_end: "source_read n s = (bs, Some e, s') \<Longrightarrow> source_bytes s = bs \<and> source_fin s = e"
  by (cases "(n, s)" rule: source_read.cases) (auto split: if_splits)

lemma source_read_proper:
  "proper_source s \<Longrightarrow> 0 < n \<Longrightarrow> source_read n s = (bs, None, s') \<Longrightarrow> proper_source s' \<and> bs \<noteq> []"
  by (cases "(n, s)" rule: source_read.cases) (auto simp: proper_source_def split: if_splits)

interpretation plain: reader source_read "\<lambda>_. True" "\<lambda>_. True" source_size source_bytes source_fin
  by unfold_locales (auto dest: source_read_bound source_read_more source_read_end)

interpretation body: proper_reader source_read proper_source "\<lambda>_. True" source_size source_bytes source_fin
  by unfold_locales (auto dest: source_read_bound source_read_more source_read_end source_read_proper)

text \<open>What a whole upload reader delivers.\<close>

definition upload_content :: "upload_reader \<Rightarrow> bytes" where
  "upload_content r = body.mb_content (cr_reader r)"

definition upload_fin :: "upload_reader \<Rightarrow> go_error" where
  "upload_fin r = body.mb_fin (cr_reader r)"

definition upload_inv :: "int \<Rightarrow> upload_reader \<Rightarrow> bool" where
  "upload_inv = body.mb.cnt_inv"

definition upload_fini :: "int \<Rightarrow> upload_reader \<Rightarrow> bool" where
  "upload_fini tot r \<longleftrightarrow> cr_count r = tot"

interpretation upload: reader upload_read "upload_inv tot" "upload_fini tot"
    "\<lambda>r. source_size (mb_reader (cr_reader r))" upload_content upload_fin
  for tot
proof -
  have "upload_fini tot = body.mb.cnt_fini tot"
    by (rule ext) (simp add: upload_fini_def body.mb.cnt_fini_def)
  with body.mb.counting_reader [of tot]
  show "reader upload_read (upload_inv tot) (upload_fini tot)
      (\<lambda>r. source_size (mb_reader (cr_reader r))) upload_content upload_fin"
    by (simp add: upload_read_def upload_inv_def upload_content_def [abs_def] upload_fin_def [abs_def])
qed

lemma upload_content_start:
  "upload_content (upload_reader body m) = take (nat m) (source_bytes body)"
  by (simp add: upload_content_def upload_reader_def body.mb_content_def)

lemma upload_fin_start:
  "upload_fin (upload_reader body m) =
     (if int (length (source_bytes body)) > m then errUploadTooLarge else source_fin body)"
  by (simp add: upload_fin_def upload_reader_def body.mb_fin_def)

lemma upload_inv_start:
  assumes "proper_source body" "0 \<le> m" "m < 2 ^ 63"
  shows "upload_inv (int (length (take (nat m) (source_bytes body)))) (upload_reader body m)"
  using assms
  by (auto simp: upload_inv_def body.mb.cnt_inv_def body.mb_inv_def upload_reader_def body.mb_content_def)

end
