(* ===== verification/Storage_Contract.thy ===== *)
theory Storage_Contract
  imports Storage_Keys Io_Readers
begin

text \<open>
  What the services rely on when they hold a \<open>domain.ObjectStorage\<close> (\<open>ports.go\<close>): the stored
  objects as a map from keys to bytes, \<open>Put\<close> inserting the whole content of its reader,
  \<open>Delete\<close> removing, \<open>Open\<close> reading. A failed \<open>Put\<close> or \<open>Delete\<close> may have changed the
  object it was called for, never another one: the S3 client can lose a reply.
\<close>

definition storable :: "string \<Rightarrow> bool" where
  \<comment> \<open>keys the adapters accept and do not use for their own files\<close>
  "storable k \<longleftrightarrow> validateKey k = None \<and> k \<noteq> dotdot \<and> \<not> has_prefix (last (split_on slash k)) ''.upload-''"

definition same_except :: "'k \<Rightarrow> ('k \<Rightarrow> 'v option) \<Rightarrow> ('k \<Rightarrow> 'v option) \<Rightarrow> bool" where
  "same_except k f g \<longleftrightarrow> (\<forall>j. j \<noteq> k \<longrightarrow> g j = f j)"

lemma same_except_refl [simp]: "same_except k f f"
  by (simp add: same_except_def)

lemma same_except_upd [simp]: "same_except k f (f(k := v))"
  by (simp add: same_except_def)

lemma same_except_trans: "same_except k f g \<Longrightarrow> same_except k g h \<Longrightarrow> same_except k f h"
  by (simp add: same_except_def)

locale object_store =
  fixes put :: "string \<Rightarrow> upload_reader \<Rightarrow> string \<Rightarrow> 'w \<Rightarrow> (go_error + unit) \<times> upload_reader \<times> 'w"
    and opn :: "string \<Rightarrow> ('w, go_error, stored_object) call"
    and del :: "string \<Rightarrow> ('w, go_error, unit) call"
    and objs :: "'w \<Rightarrow> string \<Rightarrow> bytes option"
    and inv :: "'w \<Rightarrow> bool"
  assumes put_ok: "inv w \<Longrightarrow> storable k \<Longrightarrow> upload_inv tot r \<Longrightarrow> put k r mt w = (Inr (), r', w') \<Longrightarrow>
        inv w' \<and> objs w' = (objs w)(k \<mapsto> upload_content r) \<and> upload_fin r = io_EOF \<and> upload_fini tot r'"
    and put_err: "inv w \<Longrightarrow> storable k \<Longrightarrow> upload_inv tot r \<Longrightarrow> put k r mt w = (Inl e, r', w') \<Longrightarrow>
        inv w' \<and> same_except k (objs w) (objs w')"
    and open_ok: "inv w \<Longrightarrow> storable k \<Longrightarrow> opn k w = (Inr ob, w') \<Longrightarrow>
        inv w' \<and> objs w' = objs w \<and>
        (source_fin (obj_Body ob) = io_EOF \<longrightarrow> objs w k = Some (source_bytes (obj_Body ob)))"
    and open_err: "inv w \<Longrightarrow> storable k \<Longrightarrow> opn k w = (Inl e, w') \<Longrightarrow>
        inv w' \<and> objs w' = objs w \<and> (errors_is e ErrStorageObjectNotFound \<longrightarrow> objs w k = None)"
    and del_ok: "inv w \<Longrightarrow> storable k \<Longrightarrow> del k w = (Inr (), w') \<Longrightarrow>
        inv w' \<and> objs w' = (objs w)(k := None)"
    and del_err: "inv w \<Longrightarrow> storable k \<Longrightarrow> del k w = (Inl e, w') \<Longrightarrow>
        inv w' \<and> same_except k (objs w) (objs w')"
begin

text \<open>Whatever the outcome, a call touches at most the object it names.\<close>

lemma put_frame:
  assumes "inv w" "storable k" "upload_inv tot r" "put k r mt w = (res, r', w')"
  shows "inv w' \<and> same_except k (objs w) (objs w')"
  using assms put_ok [OF assms(1-3), of mt r' w'] put_err [OF assms(1-3), of mt _ r' w']
  by (cases res) auto

lemma open_frame:
  assumes "inv w" "storable k" "opn k w = (res, w')"
  shows "inv w' \<and> objs w' = objs w"
  using assms open_ok [OF assms(1,2), of _ w'] open_err [OF assms(1,2), of _ w'] by (cases res) auto

lemma del_frame:
  assumes "inv w" "storable k" "del k w = (res, w')"
  shows "inv w' \<and> same_except k (objs w) (objs w')"
  using assms del_ok [OF assms(1,2), of w'] del_err [OF assms(1,2), of _ w'] by (cases res) auto

text \<open>What was put is what is read back, as long as nothing was put or deleted under its key.\<close>

lemma put_open:
  assumes "inv w" "storable k" "upload_inv tot r" "put k r mt w = (Inr (), r', w1)"
    and "opn k w1 = (Inr ob, w2)" "source_fin (obj_Body ob) = io_EOF"
  shows "source_bytes (obj_Body ob) = upload_content r"
  using put_ok [OF assms(1-4)] open_ok [OF _ assms(2,5)] assms(6) by simp

lemma put_other:
  assumes "inv w" "storable k" "storable j" "j \<noteq> k" "upload_inv tot r" "put k r mt w = (res, r', w1)"
    and "opn j w1 = (Inr ob, w2)" "source_fin (obj_Body ob) = io_EOF"
  shows "objs w j = Some (source_bytes (obj_Body ob))"
  using put_frame [OF assms(1,2,5,6)] open_ok [OF _ assms(3,7)] assms(4,8) by (simp add: same_except_def)

end

end
