(* ===== verification/External_Calls.thy ===== *)
theory External_Calls
  imports Api_Domain
begin

text \<open>
  How a command sent to an external server (PostgreSQL, Redis) may turn out. What a connection
  does is decided by a fault script, one entry per command: the command runs and is answered
  (\<open>Proceed\<close>, also when the script is exhausted), it fails without having run
  (\<open>FailBefore\<close>), or it runs and only its reply is lost (\<open>FailAfter\<close>). A property proved
  for all scripts holds under arbitrary connection failures.
\<close>

datatype fault = Proceed | FailBefore go_error | FailAfter go_error

definition faulty :: "fault list \<Rightarrow> ('s \<Rightarrow> (go_error + 'a) \<times> 's) \<Rightarrow> 's \<Rightarrow> (go_error + 'a) \<times> 's \<times> fault list" where
  "faulty fs f s =
     (let (r, s') = f s
      in case fs of
           [] \<Rightarrow> (r, s', [])
         | Proceed # fs' \<Rightarrow> (r, s', fs')
         | FailBefore e # fs' \<Rightarrow> (Inl e, s, fs')
         | FailAfter e # fs' \<Rightarrow> (Inl e, s', fs'))"

text \<open>
  The three things a command can do: answer and take effect, fail without effect, or fail
  although it took effect.
\<close>

lemma faulty_cases:
  assumes "faulty fs f s = (r, s', fs')"
  obtains (run) "f s = (r, s')"
    | (lost) e where "r = Inl e" "s' = s"
    | (applied) e r' where "r = Inl e" "f s = (r', s')"
  using assms
  by (cases "f s") (auto simp: faulty_def Let_def split: list.splits fault.splits)

lemma faulty_no_fault: "faulty [] f s = (fst (f s), snd (f s), [])"
  by (simp add: faulty_def split: prod.splits)

subsection \<open>Entropy and the clock\<close>

text \<open>
  The entropy source and the clock of the process are scripts as well: the results of the
  coming reads. \<open>time.Now\<close> repeats the last instant of its script.
\<close>

type_synonym entropy = "(go_error + (nat \<Rightarrow> char)) list"

text \<open>\<open>rand.Read\<close> fills a buffer of \<open>n\<close> bytes, or fails as the entropy source says.\<close>

definition rand_read :: "nat \<Rightarrow> entropy \<Rightarrow> (go_error + bytes) \<times> entropy" where
  "rand_read n es = (case es of
     [] \<Rightarrow> (Inl (FmtError ''entropy source is unavailable''), [])
   | Inl e # es' \<Rightarrow> (Inl e, es')
   | Inr f # es' \<Rightarrow> (Inr (map f [0..<n]), es'))"

definition time_now :: "instant list \<Rightarrow> instant \<times> instant list" where
  "time_now ts = (case ts of [] \<Rightarrow> (0, []) | t # ts' \<Rightarrow> (t, if ts' = [] then ts else ts'))"

end
