(* ===== verification/Postgres.thy ===== *)
theory Postgres
  imports External_Calls
begin

text \<open>
  The database of the service: the tables that \<open>migrations/list\<close> creates, with the row types
  of \<open>internal/repository/db/models.go\<close>, and the way a statement sent to PostgreSQL runs.

  A statement is a function on the tables, run under the connection's fault script.
\<close>

subsection \<open>Rows\<close>

record timestamptz =
  ts_Time :: instant
  ts_Valid :: bool

definition ts_null :: timestamptz where "ts_null = \<lparr>ts_Time = 0, ts_Valid = False\<rparr>"
definition ts_at :: "instant \<Rightarrow> timestamptz" where "ts_at t = \<lparr>ts_Time = t, ts_Valid = True\<rparr>"

record db_document =
  dbd_ID :: int
  dbd_OwnerID :: int
  dbd_OriginalName :: string
  dbd_MediaType :: string
  dbd_SizeBytes :: int
  dbd_StorageKey :: string
  dbd_ChecksumSha256 :: "string option"
  dbd_Status :: string
  dbd_ProcessingError :: "string option"
  dbd_CreatedAt :: timestamptz
  dbd_UpdatedAt :: timestamptz
  dbd_DeletedAt :: timestamptz

record db_refresh_session =
  dbs_ID :: int
  dbs_UserID :: int
  dbs_TokenID :: string
  dbs_TokenHash :: string
  dbs_ExpiresAt :: timestamptz
  dbs_RevokedAt :: timestamptz
  dbs_ReplacedByTokenID :: "string option"
  dbs_CreatedAt :: timestamptz

record db_role =
  dbr_ID :: int
  dbr_Name :: string
  dbr_CreatedAt :: timestamptz

record db_user =
  dbu_ID :: int
  dbu_RoleID :: int
  dbu_Email :: string
  dbu_PasswordHash :: string
  dbu_IsActive :: bool
  dbu_CreatedAt :: timestamptz
  dbu_UpdatedAt :: timestamptz
  dbu_DeletedAt :: timestamptz

text \<open>The tables, each with the next value of its \<open>BIGSERIAL\<close> sequence.\<close>

record tables =
  t_roles :: "db_role list"
  t_roles_seq :: int
  t_users :: "db_user list"
  t_users_seq :: int
  t_refresh_sessions :: "db_refresh_session list"
  t_refresh_sessions_seq :: int
  t_documents :: "db_document list"
  t_documents_seq :: int

subsection \<open>Column types\<close>

definition is_continuation :: "char \<Rightarrow> bool" where
  "is_continuation c \<longleftrightarrow> 128 \<le> (of_char c :: nat) \<and> (of_char c :: nat) < 192"

definition char_count :: "string \<Rightarrow> nat" where
  \<comment> \<open>the number of characters of a valid UTF-8 string\<close>
  "char_count s = length (filter (\<lambda>c. \<not> is_continuation c) s)"

fun take_chars :: "nat \<Rightarrow> string \<Rightarrow> string" where
  "take_chars n [] = []"
| "take_chars n (c # cs) =
     (if is_continuation c then c # take_chars n cs
      else (case n of 0 \<Rightarrow> [] | Suc m \<Rightarrow> c # take_chars m cs))"

fun utf8_valid :: "string \<Rightarrow> bool" where
  \<comment> \<open>well-formed UTF-8 (shortest forms, no surrogates) without a NUL byte\<close>
  "utf8_valid [] \<longleftrightarrow> True"
| "utf8_valid (c # s) \<longleftrightarrow>
     (let n = (of_char c :: nat);
          k = (\<lambda>i. if i < length s then (of_char (s ! i) :: nat) else 0);
          cont = (\<lambda>i. 128 \<le> k i \<and> k i < 192)
      in if n = 0 then False
         else if n < 128 then utf8_valid s
         else if 194 \<le> n \<and> n \<le> 223 then cont 0 \<and> utf8_valid (drop 1 s)
         else if 224 \<le> n \<and> n \<le> 239 then
           cont 0 \<and> cont 1 \<and> (n = 224 \<longrightarrow> 160 \<le> k 0) \<and> (n = 237 \<longrightarrow> k 0 < 160) \<and> utf8_valid (drop 2 s)
         else if 240 \<le> n \<and> n \<le> 244 then
           cont 0 \<and> cont 1 \<and> cont 2 \<and> (n = 240 \<longrightarrow> 144 \<le> k 0) \<and> (n = 244 \<longrightarrow> k 0 < 144) \<and> utf8_valid (drop 3 s)
         else False)"

definition pg_bad_text :: go_error where
  "pg_bad_text = PgErr ''22021'' ''invalid byte sequence for encoding''"
definition pg_too_long :: go_error where
  "pg_too_long = PgErr ''22001'' ''value too long for type''"
definition pg_check_violation :: go_error where
  "pg_check_violation = PgErr ''23514'' ''new row violates check constraint''"
definition pg_unique_violation :: go_error where
  "pg_unique_violation = PgErr ''23505'' ''duplicate key value violates unique constraint''"
definition pg_foreign_key_violation :: go_error where
  "pg_foreign_key_violation = PgErr ''23503'' ''violates foreign key constraint''"
definition pg_sequence_exhausted :: go_error where
  "pg_sequence_exhausted = PgErr ''2200H'' ''reached maximum value of sequence''"
definition pg_negative_limit :: go_error where
  "pg_negative_limit = PgErr ''2201W'' ''LIMIT must not be negative''"
definition pg_negative_offset :: go_error where
  "pg_negative_offset = PgErr ''2201X'' ''OFFSET must not be negative''"

lemmas pg_error_defs = pg_bad_text_def pg_too_long_def pg_check_violation_def
  pg_unique_violation_def pg_foreign_key_violation_def pg_sequence_exhausted_def
  pg_negative_limit_def pg_negative_offset_def

text \<open>Storing a text in a \<open>VARCHAR(n)\<close> column: excess blanks are cut, anything else is an error.\<close>

definition varchar :: "nat \<Rightarrow> string \<Rightarrow> go_error + string" where
  "varchar n s =
     (if char_count s \<le> n then Inr s
      else if list_all (\<lambda>c. c = CHR '' '') (drop (length (take_chars n s)) s) then Inr (take_chars n s)
      else Inl pg_too_long)"

lemma varchar_short [simp]: "length s \<le> n \<Longrightarrow> varchar n s = Inr s"
proof -
  assume "length s \<le> n"
  moreover have "char_count s \<le> length s" by (simp add: char_count_def)
  ultimately show ?thesis by (simp add: varchar_def)
qed

text \<open>ASCII text without a NUL byte is valid.\<close>

lemma utf8_valid_ascii:
  "\<forall>c \<in> set s. 0 < (of_char c :: nat) \<and> (of_char c :: nat) < 128 \<Longrightarrow> utf8_valid s"
  by (induction s) (auto simp: Let_def)

subsection \<open>Calls\<close>

record pg =
  pg_tables :: tables
  pg_faults :: "fault list"
  pg_now :: instant

type_synonym 'a statement = "instant \<Rightarrow> tables \<Rightarrow> (go_error + 'a) \<times> tables"

definition pg_call :: "'a statement \<Rightarrow> (pg, go_error, 'a) call" where
  "pg_call stmt db =
     (case faulty (pg_faults db) (stmt (pg_now db)) (pg_tables db) of
        (r, t, fs) \<Rightarrow> (r, db\<lparr>pg_tables := t, pg_faults := fs\<rparr>))"

lemma pg_call_cases:
  assumes "pg_call stmt db = (r, db')"
  obtains (run) "stmt (pg_now db) (pg_tables db) = (r, pg_tables db')"
    | (lost) e where "r = Inl e" "pg_tables db' = pg_tables db"
    | (applied) e r' where "r = Inl e" "stmt (pg_now db) (pg_tables db) = (r', pg_tables db')"
proof -
  obtain t fs where f: "faulty (pg_faults db) (stmt (pg_now db)) (pg_tables db) = (r, t, fs)"
    and t: "pg_tables db' = t"
    using assms by (auto simp: pg_call_def split: prod.splits)
  from f show ?thesis
    by (cases rule: faulty_cases) (auto simp: t intro: that)
qed

lemma pg_call_Inr:
  "pg_call stmt db = (Inr x, db') \<Longrightarrow> stmt (pg_now db) (pg_tables db) = (Inr x, pg_tables db')"
  by (erule pg_call_cases) auto

lemma pg_call_now [frame_simps]: "pg_call stmt db = (r, db') \<Longrightarrow> pg_now db' = pg_now db"
  by (auto simp: pg_call_def split: prod.splits)

lemma pg_call_tables:
  assumes "pg_call stmt db = (r, db')"
  shows "pg_tables db' = pg_tables db \<or> pg_tables db' = snd (stmt (pg_now db) (pg_tables db))"
  using assms by (rule pg_call_cases) auto

lemma pg_call_no_fault: "pg_faults db = [] \<Longrightarrow>
    pg_call stmt db = (case stmt (pg_now db) (pg_tables db) of (r, t) \<Rightarrow> (r, db\<lparr>pg_tables := t\<rparr>))"
  by (simp add: pg_call_def faulty_no_fault split: prod.splits)

text \<open>A statement that only reads.\<close>

definition read_only :: "'a statement \<Rightarrow> bool" where
  "read_only stmt \<longleftrightarrow> (\<forall>now t. snd (stmt now t) = t)"

lemma pg_call_read_only: "read_only stmt \<Longrightarrow> pg_call stmt db = (r, db') \<Longrightarrow> pg_tables db' = pg_tables db"
  by (erule pg_call_cases) (auto simp: read_only_def dest: arg_cong [where f = snd])

lemma read_onlyI: "(\<And>now t. snd (stmt now t) = t) \<Longrightarrow> read_only stmt"
  by (simp add: read_only_def)

text \<open>A statement that keeps an invariant, and the same for the call that runs it.\<close>

definition preserves :: "(tables \<Rightarrow> bool) \<Rightarrow> 'a statement \<Rightarrow> bool" where
  "preserves I stmt \<longleftrightarrow> (\<forall>now t. I t \<longrightarrow> I (snd (stmt now t)))"

lemma pg_call_preserves:
  "preserves I stmt \<Longrightarrow> pg_call stmt db = (r, db') \<Longrightarrow> I (pg_tables db) \<Longrightarrow> I (pg_tables db')"
  by (drule pg_call_tables) (auto simp: preserves_def)

subsection \<open>UPDATE, as a change of the matching rows\<close>

definition update_where :: "('r \<Rightarrow> bool) \<Rightarrow> ('r \<Rightarrow> 'r) \<Rightarrow> 'r list \<Rightarrow> 'r list" where
  "update_where P f rs = map (\<lambda>r. if P r then f r else r) rs"

definition count_where :: "('r \<Rightarrow> bool) \<Rightarrow> 'r list \<Rightarrow> int" where
  "count_where P rs = int (length (filter P rs))"

lemma row_by_update_where:
  "(\<And>r. key (f r) = key r) \<Longrightarrow>
   row_by key (update_where P f rs) k = map_option (\<lambda>r. if P r then f r else r) (row_by key rs k)"
  unfolding update_where_def by (rule row_by_update)

lemma map_key_update_where:
  "(\<And>r. key (f r) = key r) \<Longrightarrow> map key (update_where P f rs) = map key rs"
  unfolding update_where_def by (rule map_key_update)

lemma set_update_where:
  "set (update_where P f rs) = f ` {r \<in> set rs. P r} \<union> {r \<in> set rs. \<not> P r}"
  by (auto simp: update_where_def)

lemma update_where_none: "count_where P rs = 0 \<Longrightarrow> update_where P f rs = rs"
proof -
  assume "count_where P rs = 0"
  then have "\<forall>r \<in> set rs. \<not> P r"
    by (simp add: count_where_def filter_empty_conv)
  then show ?thesis
    unfolding update_where_def by (rule map_if_other)
qed

text \<open>A condition on the primary key and more matches at most one row.\<close>

lemma count_where_key:
  "distinct (map key rs) \<Longrightarrow>
   count_where (\<lambda>r. key r = k \<and> P r) rs =
     (case row_by key rs k of None \<Rightarrow> 0 | Some r \<Rightarrow> if P r then 1 else 0)"
  by (simp add: count_where_def filter_row_by split: option.splits)

end
