(* ===== verification/Document_Repository.thy ===== *)
theory Document_Repository
  imports Postgres
begin

text \<open>
  The document table: the statements of \<open>internal/repository/db/documents.sql.go\<close>, translated
  from their SQL text, and the adapter \<open>internal/repository/document_repository.go\<close> over them.
  The abstract specification is the life cycle of one row (\<open>row_step\<close>); every statement moves
  every row by a life-cycle step or leaves it alone, whatever connections fail.
\<close>

subsection \<open>Statements\<close>

definition live :: "db_document \<Rightarrow> bool" where
  \<comment> \<open>\<open>deleted_at IS NULL\<close>\<close>
  "live r \<longleftrightarrow> \<not> ts_Valid (dbd_DeletedAt r)"

definition sql_ClaimDocumentProcessing :: "int \<Rightarrow> int statement" where
  "sql_ClaimDocumentProcessing did now t =
     (let P = (\<lambda>r. dbd_ID r = did \<and> (dbd_Status r = ''pending'' \<or> dbd_Status r = ''failed'') \<and> live r);
          f = (\<lambda>r. r\<lparr>dbd_Status := ''processing'', dbd_ProcessingError := None, dbd_UpdatedAt := ts_at now\<rparr>)
      in (Inr (count_where P (t_documents t)), t\<lparr>t_documents := update_where P f (t_documents t)\<rparr>))"

definition sql_CountAllDocuments :: "int statement" where
  "sql_CountAllDocuments now t = (Inr (count_where live (t_documents t)), t)"

definition sql_CountDocumentsByOwner :: "int \<Rightarrow> int statement" where
  "sql_CountDocumentsByOwner owner now t =
     (Inr (count_where (\<lambda>r. dbd_OwnerID r = owner \<and> live r) (t_documents t)), t)"

text \<open>
  An insert draws an id from the sequence, then checks the column types, the \<open>CHECK\<close>
  constraint, the unique storage key and the reference to the owner, in that order.
\<close>

definition sql_CreateDocument :: "new_document \<Rightarrow> db_document statement" where
  "sql_CreateDocument p now t =
     (if \<not> utf8_valid (nd_OriginalName p) \<or> \<not> utf8_valid (nd_MediaType p) \<or> \<not> utf8_valid (nd_StorageKey p)
      then (Inl pg_bad_text, t)
      else if t_documents_seq t \<ge> 2 ^ 63 then (Inl pg_sequence_exhausted, t)
      else
        let did = t_documents_seq t; t' = t\<lparr>t_documents_seq := did + 1\<rparr>
        in case varchar 255 (nd_OriginalName p) of
             Inl e \<Rightarrow> (Inl e, t')
           | Inr name \<Rightarrow>
               (case varchar 255 (nd_MediaType p) of
                  Inl e \<Rightarrow> (Inl e, t')
                | Inr media \<Rightarrow>
                    if nd_SizeBytes p < 0 then (Inl pg_check_violation, t')
                    else if nd_StorageKey p \<in> dbd_StorageKey ` set (t_documents t) then (Inl pg_unique_violation, t')
                    else if nd_OwnerID p \<notin> dbu_ID ` set (t_users t) then (Inl pg_foreign_key_violation, t')
                    else
                      let row = \<lparr>dbd_ID = did, dbd_OwnerID = nd_OwnerID p, dbd_OriginalName = name,
                            dbd_MediaType = media, dbd_SizeBytes = nd_SizeBytes p,
                            dbd_StorageKey = nd_StorageKey p, dbd_ChecksumSha256 = None,
                            dbd_Status = ''pending'', dbd_ProcessingError = None,
                            dbd_CreatedAt = ts_at now, dbd_UpdatedAt = ts_at now, dbd_DeletedAt = ts_null\<rparr>
                      in (Inr row, t'\<lparr>t_documents := t_documents t @ [row]\<rparr>)))"

text \<open>A \<open>:one\<close> query without a matching row makes \<open>Scan\<close> return \<open>pgx.ErrNoRows\<close>.\<close>

definition sql_GetDocumentByID :: "int \<Rightarrow> db_document statement" where
  "sql_GetDocumentByID did now t =
     (case find (\<lambda>r. dbd_ID r = did \<and> live r) (t_documents t) of
        None \<Rightarrow> (Inl pgx_ErrNoRows, t)
      | Some r \<Rightarrow> (Inr r, t))"

definition limit_offset :: "int \<Rightarrow> int \<Rightarrow> 'r list \<Rightarrow> go_error + 'r list" where
  "limit_offset lim off rs =
     (if lim < 0 then Inl pg_negative_limit
      else if off < 0 then Inl pg_negative_offset
      else Inr (take (nat lim) (drop (nat off) rs)))"

definition select_desc :: "(db_document \<Rightarrow> bool) \<Rightarrow> tables \<Rightarrow> db_document list" where
  \<comment> \<open>\<open>SELECT ... WHERE P ORDER BY id DESC\<close>\<close>
  "select_desc P t = rev (sort_key dbd_ID (filter P (t_documents t)))"

definition sql_ListAllDocuments :: "int \<Rightarrow> int \<Rightarrow> db_document list statement" where
  "sql_ListAllDocuments pageOffset pageLimit now t =
     (limit_offset pageLimit pageOffset (select_desc live t), t)"

definition sql_ListDocumentsByOwner :: "int \<Rightarrow> int \<Rightarrow> int \<Rightarrow> db_document list statement" where
  "sql_ListDocumentsByOwner owner pageOffset pageLimit now t =
     (limit_offset pageLimit pageOffset (select_desc (\<lambda>r. dbd_OwnerID r = owner \<and> live r) t), t)"

definition sql_MarkDocumentFailed :: "string \<Rightarrow> int \<Rightarrow> int statement" where
  "sql_MarkDocumentFailed msg did now t =
     (if \<not> utf8_valid msg then (Inl pg_bad_text, t)
      else case varchar 512 msg of
        Inl e \<Rightarrow> (Inl e, t)
      | Inr text \<Rightarrow>
          let P = (\<lambda>r. dbd_ID r = did \<and> dbd_Status r = ''processing'' \<and> live r);
              f = (\<lambda>r. r\<lparr>dbd_Status := ''failed'', dbd_ProcessingError := Some text, dbd_UpdatedAt := ts_at now\<rparr>)
          in (Inr (count_where P (t_documents t)), t\<lparr>t_documents := update_where P f (t_documents t)\<rparr>))"

text \<open>\<open>CHAR(64)\<close> pads a shorter value with blanks.\<close>

definition char_column :: "nat \<Rightarrow> string \<Rightarrow> go_error + string" where
  "char_column n s = (case varchar n s of
     Inl e \<Rightarrow> Inl e | Inr x \<Rightarrow> Inr (x @ replicate (n - char_count x) CHR '' ''))"

definition sql_MarkDocumentReady :: "string \<Rightarrow> int \<Rightarrow> int \<Rightarrow> int statement" where
  "sql_MarkDocumentReady checksum nbytes did now t =
     (if \<not> utf8_valid checksum then (Inl pg_bad_text, t)
      else case char_column 64 checksum of
        Inl e \<Rightarrow> (Inl e, t)
      | Inr chk \<Rightarrow>
          let P = (\<lambda>r. dbd_ID r = did \<and> dbd_Status r = ''processing'' \<and> live r);
              f = (\<lambda>r. r\<lparr>dbd_Status := ''ready'', dbd_ChecksumSha256 := Some chk, dbd_SizeBytes := nbytes,
                         dbd_ProcessingError := None, dbd_UpdatedAt := ts_at now\<rparr>);
              n = count_where P (t_documents t)
          in if n \<noteq> 0 \<and> nbytes < 0 then (Inl pg_check_violation, t)
             else (Inr n, t\<lparr>t_documents := update_where P f (t_documents t)\<rparr>))"

definition sql_SoftDeleteDocument :: "int \<Rightarrow> int statement" where
  "sql_SoftDeleteDocument did now t =
     (let P = (\<lambda>r. dbd_ID r = did);
          f = (\<lambda>r. r\<lparr>dbd_DeletedAt := (if ts_Valid (dbd_DeletedAt r) then dbd_DeletedAt r else ts_at now),
                     dbd_UpdatedAt := ts_at now\<rparr>)
      in (Inr (count_where P (t_documents t)), t\<lparr>t_documents := update_where P f (t_documents t)\<rparr>))"

subsection \<open>The adapter\<close>

definition mapRepositoryError :: "go_error \<Rightarrow> go_error \<Rightarrow> go_error" where
  "mapRepositoryError err notFound =
     (if errors_is err pgx_ErrNoRows then Wrap notFound (Some err)
      else if pg_error_code err = Some ''23505'' then Wrap ErrAuthEmailConflict (Some err)
      else err)"

definition timestamp :: "timestamptz \<Rightarrow> instant" where
  "timestamp value = ts_Time value"

definition timestampPtr :: "timestamptz \<Rightarrow> instant option" where
  "timestampPtr value = (if \<not> ts_Valid value then None else Some (ts_Time value))"

definition documentFromDB :: "db_document \<Rightarrow> document" where
  "documentFromDB row =
     \<lparr>doc_ID = dbd_ID row, doc_OwnerID = dbd_OwnerID row, doc_OriginalName = dbd_OriginalName row,
      doc_MediaType = dbd_MediaType row, doc_SizeBytes = dbd_SizeBytes row,
      doc_StorageKey = dbd_StorageKey row, doc_URL = '''', doc_ChecksumSHA256 = dbd_ChecksumSha256 row,
      doc_Status = dbd_Status row, doc_ProcessingError = dbd_ProcessingError row,
      doc_CreatedAt = timestamp (dbd_CreatedAt row), doc_UpdatedAt = timestamp (dbd_UpdatedAt row),
      doc_DeletedAt = timestampPtr (dbd_DeletedAt row)\<rparr>"

definition dr_Create :: "new_document \<Rightarrow> (pg, go_error, document) call" where
  "dr_Create input db =
     (case pg_call (sql_CreateDocument input) db of
        (Inl err, db') \<Rightarrow> (Inl (mapRepositoryError err ErrDocumentConflict), db')
      | (Inr row, db') \<Rightarrow> (Inr (documentFromDB row), db'))"

definition dr_GetByID :: "int \<Rightarrow> (pg, go_error, document) call" where
  "dr_GetByID did db =
     (case pg_call (sql_GetDocumentByID did) db of
        (Inl err, db') \<Rightarrow> (Inl (mapRepositoryError err ErrDocumentNotFound), db')
      | (Inr row, db') \<Rightarrow> (Inr (documentFromDB row), db'))"

definition dr_List :: "int option \<Rightarrow> pagination \<Rightarrow> (pg, go_error, document list \<times> int) call" where
  "dr_List ownerID page db =
     (let rowsq = (case ownerID of
            None \<Rightarrow> sql_ListAllDocuments (page_offset page) (page_limit page)
          | Some owner \<Rightarrow> sql_ListDocumentsByOwner owner (page_offset page) (page_limit page));
          countq = (case ownerID of
            None \<Rightarrow> sql_CountAllDocuments
          | Some owner \<Rightarrow> sql_CountDocumentsByOwner owner)
      in case pg_call rowsq db of
           (Inl err, db1) \<Rightarrow> (Inl err, db1)
         | (Inr rows, db1) \<Rightarrow>
             (case pg_call countq db1 of
                (Inl err, db2) \<Rightarrow> (Inl err, db2)
              | (Inr n, db2) \<Rightarrow> (Inr (map documentFromDB rows, n), db2)))"

definition dr_SoftDelete :: "int \<Rightarrow> (pg, go_error, unit) call" where
  "dr_SoftDelete did db =
     (case pg_call (sql_SoftDeleteDocument did) db of
        (Inl err, db') \<Rightarrow> (Inl err, db')
      | (Inr rows, db') \<Rightarrow> (if rows = 0 then Inl ErrDocumentNotFound else Inr (), db'))"

definition dr_ClaimProcessing :: "int \<Rightarrow> (pg, go_error, bool) call" where
  "dr_ClaimProcessing did db =
     (case pg_call (sql_ClaimDocumentProcessing did) db of
        (Inl err, db') \<Rightarrow> (Inl err, db')
      | (Inr rows, db') \<Rightarrow> (Inr (rows = 1), db'))"

definition not_processing :: "int \<Rightarrow> go_error" where
  "not_processing did = FmtError (''document '' @ format_int did @ '' is not processing'')"

definition dr_MarkReady :: "int \<Rightarrow> string \<Rightarrow> int \<Rightarrow> (pg, go_error, unit) call" where
  "dr_MarkReady did checksum nbytes db =
     (case pg_call (sql_MarkDocumentReady checksum nbytes did) db of
        (Inl err, db') \<Rightarrow> (Inl err, db')
      | (Inr rows, db') \<Rightarrow> (if rows \<noteq> 1 then Inl (not_processing did) else Inr (), db'))"

definition dr_MarkFailed :: "int \<Rightarrow> string \<Rightarrow> (pg, go_error, unit) call" where
  "dr_MarkFailed did message db =
     (case pg_call (sql_MarkDocumentFailed message did) db of
        (Inl err, db') \<Rightarrow> (Inl err, db')
      | (Inr rows, db') \<Rightarrow> (if rows \<noteq> 1 then Inl (not_processing did) else Inr (), db'))"

subsection \<open>The table invariant\<close>

definition doc_row_ok :: "db_document \<Rightarrow> bool" where
  "doc_row_ok r \<longleftrightarrow> status_valid (dbd_Status r) \<and> 0 \<le> dbd_SizeBytes r \<and>
     (dbd_ChecksumSha256 r \<noteq> None \<longleftrightarrow> dbd_Status r = ''ready'') \<and>
     (dbd_ProcessingError r \<noteq> None \<longleftrightarrow> dbd_Status r = ''failed'')"

definition docs_inv :: "tables \<Rightarrow> bool" where
  "docs_inv t \<longleftrightarrow> distinct (map dbd_ID (t_documents t)) \<and> distinct (map dbd_StorageKey (t_documents t)) \<and>
     1 \<le> t_documents_seq t \<and> t_documents_seq t \<le> 2 ^ 63 \<and>
     (\<forall>r \<in> set (t_documents t). doc_row_ok r \<and> 1 \<le> dbd_ID r \<and> dbd_ID r < t_documents_seq t \<and>
        dbd_OwnerID r \<in> dbu_ID ` set (t_users t))"

lemma docs_invD:
  assumes "docs_inv t"
  shows "distinct (map dbd_ID (t_documents t))"
    and "distinct (map dbd_StorageKey (t_documents t))"
    and "r \<in> set (t_documents t) \<Longrightarrow> doc_row_ok r"
    and "r \<in> set (t_documents t) \<Longrightarrow> 1 \<le> dbd_ID r \<and> dbd_ID r < t_documents_seq t"
    and "t_documents_seq t \<le> 2 ^ 63"
  using assms by (auto simp: docs_inv_def)

lemma docs_inv_update:
  assumes inv: "docs_inv t"
    and f: "\<And>r. dbd_ID (f r) = dbd_ID r" "\<And>r. dbd_StorageKey (f r) = dbd_StorageKey r"
      "\<And>r. dbd_OwnerID (f r) = dbd_OwnerID r"
    and ok: "\<And>r. r \<in> set (t_documents t) \<Longrightarrow> P r \<Longrightarrow> doc_row_ok r \<Longrightarrow> doc_row_ok (f r)"
  shows "docs_inv (t\<lparr>t_documents := update_where P f (t_documents t)\<rparr>)"
  using inv ok
  by (auto simp: docs_inv_def map_key_update_where f set_update_where)

lemma preserves_Claim: "preserves docs_inv (sql_ClaimDocumentProcessing did)"
  unfolding preserves_def sql_ClaimDocumentProcessing_def Let_def
  by (auto intro!: docs_inv_update simp: doc_row_ok_def status_valid_def status_defs)

lemma preserves_MarkFailed: "preserves docs_inv (sql_MarkDocumentFailed msg did)"
  unfolding preserves_def sql_MarkDocumentFailed_def Let_def
  by (auto intro!: docs_inv_update simp: doc_row_ok_def status_valid_def status_defs split: sum.splits)

lemma count_where_pos: "r \<in> set rs \<Longrightarrow> P r \<Longrightarrow> count_where P rs \<noteq> 0"
  by (auto simp: count_where_def filter_empty_conv)

lemma preserves_MarkReady: "preserves docs_inv (sql_MarkDocumentReady checksum nbytes did)"
  unfolding preserves_def sql_MarkDocumentReady_def Let_def
  by (auto intro!: docs_inv_update simp: doc_row_ok_def status_valid_def status_defs count_where_pos
      split: sum.splits)

lemma preserves_SoftDelete: "preserves docs_inv (sql_SoftDeleteDocument did)"
  unfolding preserves_def sql_SoftDeleteDocument_def Let_def
  by (auto intro!: docs_inv_update simp: doc_row_ok_def)

lemma docs_inv_seq: "docs_inv t \<Longrightarrow> t_documents_seq t < 2 ^ 63 \<Longrightarrow>
    docs_inv (t\<lparr>t_documents_seq := t_documents_seq t + 1\<rparr>)"
  by (auto simp: docs_inv_def)

lemma docs_inv_insert:
  assumes "docs_inv t" "t_documents_seq t < 2 ^ 63" "doc_row_ok row" "dbd_ID row = t_documents_seq t"
    "dbd_StorageKey row \<notin> dbd_StorageKey ` set (t_documents t)" "dbd_OwnerID row \<in> dbu_ID ` set (t_users t)"
  shows "docs_inv (t\<lparr>t_documents_seq := t_documents_seq t + 1, t_documents := t_documents t @ [row]\<rparr>)"
  using assms by (fastforce simp: docs_inv_def)

lemma preserves_Create: "preserves docs_inv (sql_CreateDocument p)"
  unfolding preserves_def sql_CreateDocument_def Let_def
  by (auto intro!: docs_inv_insert simp: docs_inv_seq doc_row_ok_def status_valid_def status_defs
      split: sum.splits)

lemma read_only_Get: "read_only (sql_GetDocumentByID did)"
  by (rule read_onlyI) (simp add: sql_GetDocumentByID_def split: option.splits)

lemma read_only_List:
  "read_only sql_CountAllDocuments" "read_only (sql_CountDocumentsByOwner owner)"
  "read_only (sql_ListAllDocuments off lim)" "read_only (sql_ListDocumentsByOwner owner off lim)"
  by (rule read_onlyI, simp add: sql_CountAllDocuments_def sql_CountDocumentsByOwner_def
      sql_ListAllDocuments_def sql_ListDocumentsByOwner_def)+

lemma dr_List_tables: "dr_List ownerID page db = (r, db') \<Longrightarrow> pg_tables db' = pg_tables db"
  by (auto simp: dr_List_def read_only_List split: prod.splits sum.splits option.splits
      dest!: pg_call_read_only [rotated])

lemma dr_GetByID_tables: "dr_GetByID did db = (r, db') \<Longrightarrow> pg_tables db' = pg_tables db"
  by (auto simp: dr_GetByID_def read_only_Get split: prod.splits sum.splits
      dest!: pg_call_read_only [rotated])

subsection \<open>The life cycle of a row\<close>

text \<open>The abstract specification: what may happen to one document.\<close>

inductive row_step :: "db_document \<Rightarrow> db_document \<Rightarrow> bool" where
  claim: "dbd_Status r = ''pending'' \<or> dbd_Status r = ''failed'' \<Longrightarrow> live r \<Longrightarrow>
    row_step r (r\<lparr>dbd_Status := ''processing'', dbd_ProcessingError := None, dbd_UpdatedAt := u\<rparr>)"
| ready: "dbd_Status r = ''processing'' \<Longrightarrow> live r \<Longrightarrow>
    row_step r (r\<lparr>dbd_Status := ''ready'', dbd_ChecksumSha256 := Some c, dbd_SizeBytes := n,
                  dbd_ProcessingError := None, dbd_UpdatedAt := u\<rparr>)"
| failed: "dbd_Status r = ''processing'' \<Longrightarrow> live r \<Longrightarrow>
    row_step r (r\<lparr>dbd_Status := ''failed'', dbd_ProcessingError := Some m, dbd_UpdatedAt := u\<rparr>)"
| delete: "d = (if ts_Valid (dbd_DeletedAt r) then dbd_DeletedAt r else ts_at now) \<Longrightarrow>
    row_step r (r\<lparr>dbd_DeletedAt := d, dbd_UpdatedAt := u\<rparr>)"

inductive_cases row_stepE: "row_step r r'"

text \<open>A statement refines the life cycle when it never loses a row and only steps rows.\<close>

definition evolves :: "tables \<Rightarrow> tables \<Rightarrow> bool" where
  "evolves t t' \<longleftrightarrow> (\<forall>did r. row_by dbd_ID (t_documents t) did = Some r \<longrightarrow>
     (\<exists>r'. row_by dbd_ID (t_documents t') did = Some r' \<and> row_step\<^sup>=\<^sup>= r r'))"

lemma evolves_same: "t_documents t' = t_documents t \<Longrightarrow> evolves t t'"
  by (auto simp: evolves_def)

lemma evolves_update:
  assumes "\<And>r. dbd_ID (f r) = dbd_ID r" "\<And>r. P r \<Longrightarrow> row_step r (f r)"
  shows "evolves t (t\<lparr>t_documents := update_where P f (t_documents t)\<rparr>)"
  using assms by (auto simp: evolves_def row_by_update_where)

definition refines_lifecycle :: "'a statement \<Rightarrow> bool" where
  "refines_lifecycle stmt \<longleftrightarrow> (\<forall>now t. evolves t (snd (stmt now t)))"

lemma lifecycle_Claim: "refines_lifecycle (sql_ClaimDocumentProcessing did)"
  by (auto simp: refines_lifecycle_def sql_ClaimDocumentProcessing_def Let_def
      intro!: evolves_update row_step.claim)

lemma lifecycle_MarkFailed: "refines_lifecycle (sql_MarkDocumentFailed msg did)"
  by (auto simp: refines_lifecycle_def sql_MarkDocumentFailed_def Let_def evolves_same
      intro!: evolves_update row_step.failed split: sum.splits)

lemma lifecycle_MarkReady: "refines_lifecycle (sql_MarkDocumentReady checksum nbytes did)"
  by (auto simp: refines_lifecycle_def sql_MarkDocumentReady_def Let_def evolves_same
      intro!: evolves_update row_step.ready split: sum.splits)

lemma lifecycle_SoftDelete: "refines_lifecycle (sql_SoftDeleteDocument did)"
  by (auto simp: refines_lifecycle_def sql_SoftDeleteDocument_def Let_def
      intro!: evolves_update intro: row_step.delete)

lemma evolves_append: "t_documents t' = t_documents t @ rs \<Longrightarrow> evolves t t'"
  by (auto simp: evolves_def row_by_append)

lemma lifecycle_Create: "refines_lifecycle (sql_CreateDocument p)"
  by (auto simp: refines_lifecycle_def sql_CreateDocument_def Let_def evolves_same
      intro: evolves_append split: sum.splits)

lemma lifecycle_call:
  "refines_lifecycle stmt \<Longrightarrow> pg_call stmt db = (r, db') \<Longrightarrow> evolves (pg_tables db) (pg_tables db')"
  by (drule pg_call_tables) (auto simp: refines_lifecycle_def evolves_same)

end
