(* ===== verification/Repository_Contract.thy ===== *)
theory Repository_Contract
  imports Document_Repository
begin

text \<open>
  What the services rely on when they hold a \<open>domain.DocumentRepository\<close> (\<open>ports.go\<close>): the live
  documents as a map from ids, and every operation as one change of that map. A call that fails
  has changed nothing, or has been applied without being acknowledged. The PostgreSQL adapter
  is the instance.
\<close>

subsection \<open>Changes of one document\<close>

definition doc_claimable :: "document \<Rightarrow> bool" where
  "doc_claimable d \<longleftrightarrow> doc_Status d = DocumentPending \<or> doc_Status d = DocumentFailed"

definition doc_claim :: "instant \<Rightarrow> document \<Rightarrow> document" where
  "doc_claim u d = d\<lparr>doc_Status := DocumentProcessing, doc_ProcessingError := None, doc_UpdatedAt := u\<rparr>"

definition doc_ready :: "string \<Rightarrow> int \<Rightarrow> instant \<Rightarrow> document \<Rightarrow> document" where
  "doc_ready checksum n u d =
     d\<lparr>doc_Status := DocumentReady, doc_ChecksumSHA256 := Some checksum, doc_SizeBytes := n,
       doc_ProcessingError := None, doc_UpdatedAt := u\<rparr>"

definition doc_fail :: "string \<Rightarrow> instant \<Rightarrow> document \<Rightarrow> document" where
  "doc_fail msg u d =
     d\<lparr>doc_Status := DocumentFailed, doc_ProcessingError := Some msg, doc_UpdatedAt := u\<rparr>"

text \<open>A document as \<open>Create\<close> makes it; a name that fits its column is kept as it is.\<close>

definition fresh_document :: "new_document \<Rightarrow> document \<Rightarrow> bool" where
  "fresh_document p d \<longleftrightarrow> 1 \<le> doc_ID d \<and> doc_ID d < 2 ^ 63 \<and> doc_OwnerID d = nd_OwnerID p \<and>
     (length (nd_OriginalName p) \<le> 255 \<longrightarrow> doc_OriginalName d = nd_OriginalName p) \<and>
     (length (nd_MediaType p) \<le> 255 \<longrightarrow> doc_MediaType d = nd_MediaType p) \<and>
     doc_SizeBytes d = nd_SizeBytes p \<and> doc_StorageKey d = nd_StorageKey p \<and> doc_URL d = [] \<and>
     doc_ChecksumSHA256 d = None \<and> doc_Status d = DocumentPending \<and> doc_ProcessingError d = None \<and>
     doc_DeletedAt d = None"

definition valid_checksum :: "string \<Rightarrow> bool" where
  "valid_checksum s \<longleftrightarrow> length s = 64 \<and> list_all is_hex s"

type_synonym doc_map = "int \<Rightarrow> document option"

text \<open>\<open>did\<close> is in \<open>m\<close> with \<open>P\<close>, and \<open>m'\<close> has it changed by \<open>f\<close> at some time.\<close>

definition doc_changed :: "(document \<Rightarrow> bool) \<Rightarrow> (instant \<Rightarrow> document \<Rightarrow> document) \<Rightarrow> int \<Rightarrow> doc_map \<Rightarrow> doc_map \<Rightarrow> bool" where
  "doc_changed P f did m m' \<longleftrightarrow> (\<exists>d u. m did = Some d \<and> P d \<and> m' = m(did \<mapsto> f u d))"

definition doc_created :: "new_document \<Rightarrow> document \<Rightarrow> doc_map \<Rightarrow> doc_map \<Rightarrow> bool" where
  "doc_created p d m m' \<longleftrightarrow> m (doc_ID d) = None \<and> fresh_document p d \<and> m' = m(doc_ID d \<mapsto> d)"

definition is_processing :: "document \<Rightarrow> bool" where
  "is_processing d \<longleftrightarrow> doc_Status d = DocumentProcessing"

lemma doc_changed_claim_status:
  "doc_changed P doc_claim did m m' \<Longrightarrow> \<exists>d. m' did = Some d \<and> is_processing d"
  by (auto simp: doc_changed_def doc_claim_def is_processing_def)

locale doc_repository =
  fixes repo :: "'p document_repository"
    and docs :: "'p \<Rightarrow> doc_map"
    and inv :: "'p \<Rightarrow> bool"
  assumes create_ok: "inv w \<Longrightarrow> repo_Create repo p w = (Inr d, w') \<Longrightarrow> inv w' \<and> doc_created p d (docs w) (docs w')"
    and create_err: "inv w \<Longrightarrow> repo_Create repo p w = (Inl e, w') \<Longrightarrow>
          inv w' \<and> (docs w' = docs w \<or> (\<exists>d. doc_created p d (docs w) (docs w')))"
    and get_ok: "inv w \<Longrightarrow> repo_GetByID repo did w = (Inr d, w') \<Longrightarrow> inv w' \<and> docs w' = docs w \<and> docs w did = Some d \<and> doc_ID d = did"
    and get_err: "inv w \<Longrightarrow> repo_GetByID repo did w = (Inl e, w') \<Longrightarrow> inv w' \<and> docs w' = docs w"
    and list_ok: "inv w \<Longrightarrow> repo_List repo owner page w = (Inr (items, cnt), w') \<Longrightarrow>
          inv w' \<and> docs w' = docs w \<and> int (length items) \<le> page_limit page \<and>
          sorted_wrt (\<lambda>a b. doc_ID b < doc_ID a) items \<and>
          (\<forall>d \<in> set items. docs w (doc_ID d) = Some d \<and> (\<forall>u. owner = Some u \<longrightarrow> doc_OwnerID d = u))"
    and list_err: "inv w \<Longrightarrow> repo_List repo owner page w = (Inl e, w') \<Longrightarrow> inv w' \<and> docs w' = docs w"
    and delete_ok: "inv w \<Longrightarrow> repo_SoftDelete repo did w = (Inr (), w') \<Longrightarrow> inv w' \<and> docs w' = (docs w)(did := None)"
    and delete_err: "inv w \<Longrightarrow> repo_SoftDelete repo did w = (Inl e, w') \<Longrightarrow>
          inv w' \<and> (docs w' = docs w \<or> docs w' = (docs w)(did := None))"
    and claim_ok: "inv w \<Longrightarrow> repo_ClaimProcessing repo did w = (Inr b, w') \<Longrightarrow>
          inv w' \<and> (if b then doc_changed doc_claimable doc_claim did (docs w) (docs w')
                    else docs w' = docs w \<and> (\<forall>d. docs w did = Some d \<longrightarrow> \<not> doc_claimable d))"
    and claim_err: "inv w \<Longrightarrow> repo_ClaimProcessing repo did w = (Inl e, w') \<Longrightarrow>
          inv w' \<and> (docs w' = docs w \<or> doc_changed doc_claimable doc_claim did (docs w) (docs w'))"
    and ready_ok: "inv w \<Longrightarrow> valid_checksum c \<Longrightarrow> repo_MarkReady repo did c n w = (Inr (), w') \<Longrightarrow>
          inv w' \<and> doc_changed is_processing (doc_ready c n) did (docs w) (docs w')"
    and ready_err: "inv w \<Longrightarrow> valid_checksum c \<Longrightarrow> repo_MarkReady repo did c n w = (Inl e, w') \<Longrightarrow>
          inv w' \<and> (docs w' = docs w \<or> doc_changed is_processing (doc_ready c n) did (docs w) (docs w'))"
    and failed_ok: "inv w \<Longrightarrow> length msg \<le> 512 \<Longrightarrow> repo_MarkFailed repo did msg w = (Inr (), w') \<Longrightarrow>
          inv w' \<and> doc_changed is_processing (doc_fail msg) did (docs w) (docs w')"
    and failed_err: "inv w \<Longrightarrow> length msg \<le> 512 \<Longrightarrow> repo_MarkFailed repo did msg w = (Inl e, w') \<Longrightarrow>
          inv w' \<and> (docs w' = docs w \<or> doc_changed is_processing (doc_fail msg) did (docs w) (docs w'))"
begin

text \<open>A claim excludes every later one until the document leaves \<open>processing\<close>.\<close>

lemma claim_exclusive:
  assumes "inv w" "repo_ClaimProcessing repo did w = (Inr True, w1)" "repo_ClaimProcessing repo did w1 = (Inr b, w2)"
  shows "\<not> b \<and> docs w2 = docs w1"
proof -
  from claim_ok [OF assms(1,2)] have i: "inv w1" and c: "doc_changed doc_claimable doc_claim did (docs w) (docs w1)" by auto
  from doc_changed_claim_status [OF c] obtain d where "docs w1 did = Some d" "is_processing d" by blast
  with claim_ok [OF i assms(3)] show ?thesis
    by (auto simp: doc_changed_def doc_claimable_def is_processing_def status_defs split: if_splits)
qed

end

subsection \<open>The PostgreSQL adapter\<close>

definition docs_of :: "tables \<Rightarrow> doc_map" where
  "docs_of t did =
     (case row_by dbd_ID (t_documents t) did of
        None \<Rightarrow> None | Some r \<Rightarrow> (if live r then Some (documentFromDB r) else None))"

definition pg_documents :: "pg \<Rightarrow> doc_map" where
  "pg_documents db = docs_of (pg_tables db)"

definition pg_inv :: "pg \<Rightarrow> bool" where
  "pg_inv db \<longleftrightarrow> docs_inv (pg_tables db)"

definition pg_repository :: "pg document_repository" where
  \<comment> \<open>\<open>NewDocumentRepository\<close>\<close>
  "pg_repository =
     \<lparr>repo_Create = dr_Create, repo_GetByID = dr_GetByID, repo_List = dr_List,
      repo_SoftDelete = dr_SoftDelete, repo_ClaimProcessing = dr_ClaimProcessing,
      repo_MarkReady = dr_MarkReady, repo_MarkFailed = dr_MarkFailed\<rparr>"

text \<open>An update that selects one live row by its id.\<close>

lemma docs_of_update:
  assumes "\<And>r. dbd_ID (f r) = dbd_ID r" "\<And>r. live (f r) = live r"
  shows "docs_of (t\<lparr>t_documents := update_where (\<lambda>r. dbd_ID r = did \<and> Q r \<and> live r) f (t_documents t)\<rparr>) =
    (case row_by dbd_ID (t_documents t) did of
       None \<Rightarrow> docs_of t
     | Some r \<Rightarrow> if Q r \<and> live r then (docs_of t)(did \<mapsto> documentFromDB (f r)) else docs_of t)"
proof (rule ext)
  fix k
  let ?rs = "t_documents t" and ?P = "\<lambda>r. dbd_ID r = did \<and> Q r \<and> live r"
  have u: "row_by dbd_ID (update_where ?P f ?rs) k = map_option (\<lambda>r. if ?P r then f r else r) (row_by dbd_ID ?rs k)"
    by (rule row_by_update_where) (rule assms(1))
  show "docs_of (t\<lparr>t_documents := update_where ?P f ?rs\<rparr>) k =
    (case row_by dbd_ID ?rs did of
       None \<Rightarrow> docs_of t
     | Some r \<Rightarrow> if Q r \<and> live r then (docs_of t)(did \<mapsto> documentFromDB (f r)) else docs_of t) k"
  proof (cases "row_by dbd_ID ?rs k")
    case None
    then have "docs_of t k = None" "k = did \<Longrightarrow> row_by dbd_ID ?rs did = None" by (simp_all add: docs_of_def)
    moreover have "row_by dbd_ID (update_where ?P f ?rs) k = None" using u None by simp
    then have "docs_of (t\<lparr>t_documents := update_where ?P f ?rs\<rparr>) k = None" by (simp add: docs_of_def)
    ultimately show ?thesis by (simp split: option.split)
  next
    case (Some r)
    then have r: "dbd_ID r = k" using row_by_Some by fastforce
    show ?thesis
    proof (cases "k = did")
      case True
      with Some r assms(2) u show ?thesis by (auto simp: docs_of_def)
    next
      case False
      then have "\<not> ?P r" using r by simp
      with u Some have "row_by dbd_ID (update_where ?P f ?rs) k = Some r" by simp
      with Some False show ?thesis by (auto simp: docs_of_def split: option.split)
    qed
  qed
qed

definition keyed_update :: "int \<Rightarrow> (document \<Rightarrow> bool) \<Rightarrow> (instant \<Rightarrow> document \<Rightarrow> document) \<Rightarrow> int statement \<Rightarrow> bool" where
  \<comment> \<open>what the guarded updates do to the documents: one changes and the count is 1, or none and it is 0\<close>
  "keyed_update did P f stmt \<longleftrightarrow> (\<forall>now t n t'. docs_inv t \<longrightarrow> stmt now t = (n, t') \<longrightarrow>
     (case n of
        Inl e \<Rightarrow> t' = t
      | Inr n \<Rightarrow> n = 1 \<and> doc_changed P f did (docs_of t) (docs_of t') \<or>
                 n = 0 \<and> docs_of t' = docs_of t \<and> (\<forall>d. docs_of t did = Some d \<longrightarrow> \<not> P d)))"

lemma keyed_updateI:
  assumes "\<And>r. dbd_ID (g r) = dbd_ID r" "\<And>r. live (g r) = live r"
    and "\<And>r. Q r \<longleftrightarrow> P (documentFromDB r)" "\<And>r. documentFromDB (g r) = f u (documentFromDB r)"
    and "docs_inv t" "t' = t\<lparr>t_documents := update_where (\<lambda>r. dbd_ID r = did \<and> Q r \<and> live r) g (t_documents t)\<rparr>"
    and "n = count_where (\<lambda>r. dbd_ID r = did \<and> Q r \<and> live r) (t_documents t)"
  shows "n = 1 \<and> doc_changed P f did (docs_of t) (docs_of t') \<or>
     n = 0 \<and> docs_of t' = docs_of t \<and> (\<forall>d. docs_of t did = Some d \<longrightarrow> \<not> P d)"
proof -
  have t': "docs_of t' = (case row_by dbd_ID (t_documents t) did of
       None \<Rightarrow> docs_of t
     | Some r \<Rightarrow> if Q r \<and> live r then (docs_of t)(did \<mapsto> documentFromDB (g r)) else docs_of t)"
    unfolding assms(6) by (rule docs_of_update [OF assms(1,2)])
  have n: "n = (case row_by dbd_ID (t_documents t) did of None \<Rightarrow> 0 | Some r \<Rightarrow> if Q r \<and> live r then 1 else 0)"
    unfolding assms(7) by (rule count_where_key [OF docs_invD(1) [OF assms(5)]])
  show ?thesis
  proof (cases "row_by dbd_ID (t_documents t) did")
    case None
    with t' n show ?thesis by (simp add: docs_of_def)
  next
    case (Some r)
    show ?thesis
    proof (cases "Q r \<and> live r")
      case True
      with Some t' n assms(3,4) show ?thesis by (auto simp: doc_changed_def docs_of_def)
    next
      case False
      with Some t' n assms(3) show ?thesis by (auto simp: docs_of_def)
    qed
  qed
qed

lemma keyed_Claim: "keyed_update did doc_claimable doc_claim (sql_ClaimDocumentProcessing did)"
  unfolding keyed_update_def
proof (intro allI impI)
  fix now t n t'
  assume inv: "docs_inv t" and s: "sql_ClaimDocumentProcessing did now t = (n, t')"
  show "case n of Inl e \<Rightarrow> t' = t | Inr n \<Rightarrow> n = 1 \<and> doc_changed doc_claimable doc_claim did (docs_of t) (docs_of t') \<or>
       n = 0 \<and> docs_of t' = docs_of t \<and> (\<forall>d. docs_of t did = Some d \<longrightarrow> \<not> doc_claimable d)"
    using s keyed_updateI [of "\<lambda>r. r\<lparr>dbd_Status := ''processing'', dbd_ProcessingError := None, dbd_UpdatedAt := ts_at now\<rparr>"
        "\<lambda>r. dbd_Status r = ''pending'' \<or> dbd_Status r = ''failed''" doc_claimable doc_claim now, OF _ _ _ _ inv refl refl, of did]
    by (auto simp: sql_ClaimDocumentProcessing_def Let_def live_def doc_claimable_def documentFromDB_def
        doc_claim_def status_defs timestamp_def ts_at_def)
qed

lemma checksum_column:
  assumes "valid_checksum c"
  shows "utf8_valid c" "char_column 64 c = Inr c"
proof -
  have ascii: "\<forall>x \<in> set c. 0 < (of_char x :: nat) \<and> (of_char x :: nat) < 128"
    using assms by (auto simp: valid_checksum_def list_all_iff is_hex_def is_digit_def)
  then show "utf8_valid c" by (rule utf8_valid_ascii)
  have "filter (\<lambda>x. \<not> is_continuation x) c = c"
    using ascii by (intro filter_True) (auto simp: is_continuation_def)
  with assms show "char_column 64 c = Inr c"
    by (simp add: char_column_def valid_checksum_def char_count_def)
qed

lemma keyed_MarkReady:
  assumes "valid_checksum c"
  shows "keyed_update did is_processing (doc_ready c n) (sql_MarkDocumentReady c n did)"
  unfolding keyed_update_def
proof (intro allI impI)
  fix now t m t'
  assume inv: "docs_inv t" and s: "sql_MarkDocumentReady c n did now t = (m, t')"
  show "case m of Inl e \<Rightarrow> t' = t | Inr m \<Rightarrow> m = 1 \<and> doc_changed is_processing (doc_ready c n) did (docs_of t) (docs_of t') \<or>
       m = 0 \<and> docs_of t' = docs_of t \<and> (\<forall>d. docs_of t did = Some d \<longrightarrow> \<not> is_processing d)"
    using s keyed_updateI [of "\<lambda>r. r\<lparr>dbd_Status := ''ready'', dbd_ChecksumSha256 := Some c, dbd_SizeBytes := n,
                         dbd_ProcessingError := None, dbd_UpdatedAt := ts_at now\<rparr>"
        "\<lambda>r. dbd_Status r = ''processing''" is_processing "doc_ready c n" now, OF _ _ _ _ inv refl refl, of did]
      checksum_column [OF assms]
    by (auto simp: sql_MarkDocumentReady_def Let_def live_def is_processing_def documentFromDB_def
        doc_ready_def status_defs timestamp_def ts_at_def split: if_splits)
qed

lemma keyed_MarkFailed:
  assumes "length msg \<le> 512"
  shows "keyed_update did is_processing (doc_fail msg) (sql_MarkDocumentFailed msg did)"
  unfolding keyed_update_def
proof (intro allI impI)
  fix now t m t'
  assume inv: "docs_inv t" and s: "sql_MarkDocumentFailed msg did now t = (m, t')"
  show "case m of Inl e \<Rightarrow> t' = t | Inr m \<Rightarrow> m = 1 \<and> doc_changed is_processing (doc_fail msg) did (docs_of t) (docs_of t') \<or>
       m = 0 \<and> docs_of t' = docs_of t \<and> (\<forall>d. docs_of t did = Some d \<longrightarrow> \<not> is_processing d)"
    using s assms keyed_updateI [of "\<lambda>r. r\<lparr>dbd_Status := ''failed'', dbd_ProcessingError := Some msg, dbd_UpdatedAt := ts_at now\<rparr>"
        "\<lambda>r. dbd_Status r = ''processing''" is_processing "doc_fail msg" now, OF _ _ _ _ inv refl refl, of did]
    by (auto simp: sql_MarkDocumentFailed_def Let_def live_def is_processing_def documentFromDB_def
        doc_fail_def status_defs timestamp_def ts_at_def split: if_splits)
qed

lemma keyed_call:
  assumes "keyed_update did P f stmt" "preserves docs_inv stmt" "pg_inv db" "pg_call stmt db = (r, db')"
  shows "pg_inv db' \<and> (case r of
      Inl e \<Rightarrow> pg_documents db' = pg_documents db \<or> doc_changed P f did (pg_documents db) (pg_documents db')
    | Inr n \<Rightarrow> n = 1 \<and> doc_changed P f did (pg_documents db) (pg_documents db') \<or>
               n = 0 \<and> pg_documents db' = pg_documents db \<and> (\<forall>d. pg_documents db did = Some d \<longrightarrow> \<not> P d))"
proof -
  have inv: "docs_inv (pg_tables db)" using assms(3) by (simp add: pg_inv_def)
  have ku: "stmt now (pg_tables db) = (x, t') \<Longrightarrow> case x of Inl e \<Rightarrow> t' = pg_tables db
      | Inr n \<Rightarrow> n = 1 \<and> doc_changed P f did (docs_of (pg_tables db)) (docs_of t') \<or>
                 n = 0 \<and> docs_of t' = docs_of (pg_tables db) \<and> (\<forall>d. docs_of (pg_tables db) did = Some d \<longrightarrow> \<not> P d)" for now x t'
    using assms(1) inv unfolding keyed_update_def by blast
  have "pg_inv db'" using pg_call_preserves [OF assms(2,4) inv] by (simp add: pg_inv_def)
  moreover from assms(4) have "case r of
      Inl e \<Rightarrow> pg_documents db' = pg_documents db \<or> doc_changed P f did (pg_documents db) (pg_documents db')
    | Inr n \<Rightarrow> n = 1 \<and> doc_changed P f did (pg_documents db) (pg_documents db') \<or>
               n = 0 \<and> pg_documents db' = pg_documents db \<and> (\<forall>d. pg_documents db did = Some d \<longrightarrow> \<not> P d)"
  proof (cases rule: pg_call_cases)
    case run
    from ku [OF this] show ?thesis by (cases r) (auto simp: pg_documents_def)
  next
    case (lost e)
    then show ?thesis by (simp add: pg_documents_def)
  next
    case (applied e r')
    from ku [OF applied(2)] applied(1) show ?thesis by (cases r') (auto simp: pg_documents_def)
  qed
  ultimately show ?thesis ..
qed

text \<open>Deleting removes a live document from the map, whatever its state.\<close>

lemma docs_of_SoftDelete:
  assumes "docs_inv t" "sql_SoftDeleteDocument did now t = (x, t')"
  shows "docs_of t' = (docs_of t)(did := None)"
proof (rule ext)
  fix k
  let ?f = "\<lambda>r. r\<lparr>dbd_DeletedAt := (if ts_Valid (dbd_DeletedAt r) then dbd_DeletedAt r else ts_at now),
                     dbd_UpdatedAt := ts_at now\<rparr>"
  have t': "t_documents t' = update_where (\<lambda>r. dbd_ID r = did) ?f (t_documents t)"
    using assms(2) by (auto simp: sql_SoftDeleteDocument_def Let_def)
  have "row_by dbd_ID (t_documents t') k = map_option (\<lambda>r. if dbd_ID r = did then ?f r else r) (row_by dbd_ID (t_documents t) k)"
    unfolding t' by (rule row_by_update_where) simp
  moreover have "row_by dbd_ID (t_documents t) k = Some r \<Longrightarrow> dbd_ID r = k" for r
    using row_by_Some by fastforce
  ultimately show "docs_of t' k = ((docs_of t)(did := None)) k"
    by (auto simp: docs_of_def live_def ts_at_def split: option.split)
qed

lemma docs_of_Create:
  assumes "docs_inv t" "sql_CreateDocument p now t = (x, t')"
  shows "case x of Inl e \<Rightarrow> docs_of t' = docs_of t | Inr row \<Rightarrow> doc_created p (documentFromDB row) (docs_of t) (docs_of t')"
proof (cases x)
  case (Inl e)
  with assms(2) have "t_documents t' = t_documents t"
    by (auto simp: sql_CreateDocument_def Let_def split: if_splits sum.splits)
  with Inl show ?thesis by (simp add: docs_of_def fun_eq_iff)
next
  case (Inr row)
  have new: "row_by dbd_ID (t_documents t) (t_documents_seq t) = None"
    using assms(1) by (auto simp: row_by_None docs_inv_def)
  have t': "t_documents t' = t_documents t @ [row]" "dbd_ID row = t_documents_seq t" "live row"
    and p: "fresh_document p (documentFromDB row)"
    using assms Inr
    by (auto simp: sql_CreateDocument_def Let_def live_def ts_null_def fresh_document_def documentFromDB_def
        timestampPtr_def status_defs docs_inv_def split: if_splits sum.splits)
  have "docs_of t' k = ((docs_of t)(dbd_ID row \<mapsto> documentFromDB row)) k" for k
    using new t' by (auto simp: docs_of_def row_by_append row_by_Cons split: option.splits)
  with Inr p new t'(2) show ?thesis
    by (auto simp: doc_created_def docs_of_def documentFromDB_def fun_eq_iff)
qed

text \<open>A list query returns live documents of its owner, at most a page of them, newest first.\<close>

lemma select_desc_sorted:
  assumes "distinct (map dbd_ID (t_documents t))"
  shows "sorted_wrt (\<lambda>a b. dbd_ID b < dbd_ID a) (select_desc P t)"
proof -
  let ?xs = "sort_key dbd_ID (filter P (t_documents t))"
  have "distinct (map dbd_ID ?xs)" using assms by (auto simp: distinct_map intro: inj_on_subset)
  moreover have "sorted (map dbd_ID ?xs)" by simp
  ultimately have "sorted_wrt (<) (map dbd_ID ?xs)" by (simp only: strict_sorted_iff)
  then show ?thesis by (simp add: select_desc_def sorted_wrt_map sorted_wrt_rev)
qed

lemma limit_offset_ok:
  assumes "limit_offset lim off rs = Inr xs"
  shows "xs = take (nat lim) (drop (nat off) rs)" "int (length xs) \<le> lim"
  using assms by (auto simp: limit_offset_def split: if_splits)

lemma docs_of_live:
  assumes "docs_inv t" "r \<in> set (t_documents t)" "live r"
  shows "docs_of t (dbd_ID r) = Some (documentFromDB r)"
  using row_by_distinct [OF docs_invD(1) [OF assms(1)] assms(2)] assms(3) by (simp add: docs_of_def)

lemma list_page:
  assumes "docs_inv t" "limit_offset lim off (select_desc P t) = Inr rows" "\<And>r. P r \<Longrightarrow> live r"
  shows "int (length rows) \<le> lim" "sorted_wrt (\<lambda>a b. doc_ID b < doc_ID a) (map documentFromDB rows)"
    "\<forall>r \<in> set rows. P r \<and> docs_of t (dbd_ID r) = Some (documentFromDB r)"
proof -
  note lo = limit_offset_ok [OF assms(2)]
  show "int (length rows) \<le> lim" by (rule lo(2))
  have "sorted_wrt (\<lambda>a b. dbd_ID b < dbd_ID a) rows"
    unfolding lo(1) by (intro sorted_wrt_take sorted_wrt_drop select_desc_sorted docs_invD(1) assms(1))
  then show "sorted_wrt (\<lambda>a b. doc_ID b < doc_ID a) (map documentFromDB rows)"
    by (simp add: sorted_wrt_map documentFromDB_def)
  have "set rows \<subseteq> {r \<in> set (t_documents t). P r}"
    unfolding lo(1) select_desc_def by (auto dest!: in_set_takeD in_set_dropD)
  with docs_of_live [OF assms(1)] assms(3) show "\<forall>r \<in> set rows. P r \<and> docs_of t (dbd_ID r) = Some (documentFromDB r)"
    by blast
qed

lemma dr_List_page:
  assumes inv: "docs_inv (pg_tables db)" and l: "dr_List owner page db = (Inr (items, cnt), db')"
  shows "int (length items) \<le> page_limit page \<and> sorted_wrt (\<lambda>a b. doc_ID b < doc_ID a) items \<and>
    (\<forall>d \<in> set items. pg_documents db (doc_ID d) = Some d \<and> (\<forall>u. owner = Some u \<longrightarrow> doc_OwnerID d = u))"
proof (cases owner)
  case None
  with l obtain rows where items: "items = map documentFromDB rows"
    and r: "limit_offset (page_limit page) (page_offset page) (select_desc live (pg_tables db)) = Inr rows"
    by (auto simp: dr_List_def sql_ListAllDocuments_def split: prod.splits sum.splits dest!: pg_call_Inr)
  from list_page [OF inv r] None show ?thesis by (simp add: items pg_documents_def documentFromDB_def)
next
  case (Some u)
  with l obtain rows where items: "items = map documentFromDB rows"
    and r: "limit_offset (page_limit page) (page_offset page)
              (select_desc (\<lambda>r. dbd_OwnerID r = u \<and> live r) (pg_tables db)) = Inr rows"
    by (auto simp: dr_List_def sql_ListDocumentsByOwner_def split: prod.splits sum.splits dest!: pg_call_Inr)
  from list_page [OF inv r] Some show ?thesis by (simp add: items pg_documents_def documentFromDB_def)
qed

lemma pg_inv_same: "pg_tables db' = pg_tables db \<Longrightarrow> pg_inv db \<Longrightarrow> pg_inv db' \<and> pg_documents db' = pg_documents db"
  by (simp add: pg_inv_def pg_documents_def)

lemma dr_Create_documents:
  assumes "pg_inv db" "dr_Create p db = (r, db')"
  shows "pg_inv db' \<and> (case r of
      Inr d \<Rightarrow> doc_created p d (pg_documents db) (pg_documents db')
    | Inl e \<Rightarrow> pg_documents db' = pg_documents db \<or> (\<exists>d. doc_created p d (pg_documents db) (pg_documents db')))"
proof -
  obtain x where x: "pg_call (sql_CreateDocument p) db = (x, db')"
    and r: "r = (case x of Inl err \<Rightarrow> Inl (mapRepositoryError err ErrDocumentConflict) | Inr row \<Rightarrow> Inr (documentFromDB row))"
    using assms(2) by (auto simp: dr_Create_def split: prod.splits sum.splits)
  have inv: "docs_inv (pg_tables db)" using assms(1) by (simp add: pg_inv_def)
  have "pg_inv db'" using pg_call_preserves [OF preserves_Create x inv] by (simp add: pg_inv_def)
  moreover from x have "case r of
      Inr d \<Rightarrow> doc_created p d (pg_documents db) (pg_documents db')
    | Inl e \<Rightarrow> pg_documents db' = pg_documents db \<or> (\<exists>d. doc_created p d (pg_documents db) (pg_documents db'))"
  proof (cases rule: pg_call_cases)
    case run
    from docs_of_Create [OF inv this] r show ?thesis by (cases x) (auto simp: pg_documents_def)
  next
    case (lost e)
    with r show ?thesis by (simp add: pg_documents_def)
  next
    case (applied e r')
    from docs_of_Create [OF inv applied(2)] applied(1) r show ?thesis by (cases r') (auto simp: pg_documents_def)
  qed
  ultimately show ?thesis ..
qed

lemma dr_GetByID_documents:
  assumes "pg_inv db" "dr_GetByID did db = (Inr d, db')"
  shows "pg_documents db did = Some d \<and> doc_ID d = did"
proof -
  from assms(2) obtain row where "d = documentFromDB row"
    and f: "find (\<lambda>r. dbd_ID r = did \<and> live r) (t_documents (pg_tables db)) = Some row"
    by (auto simp: dr_GetByID_def sql_GetDocumentByID_def split: prod.splits sum.splits option.splits dest!: pg_call_Inr)
  moreover from f have "row \<in> set (t_documents (pg_tables db))" "dbd_ID row = did" "live row"
    by (auto simp: find_Some_iff)
  ultimately show ?thesis
    using docs_of_live [of "pg_tables db" row] assms(1)
    by (auto simp: pg_documents_def pg_inv_def documentFromDB_def)
qed

lemma dr_SoftDelete_documents:
  assumes "pg_inv db" "dr_SoftDelete did db = (r, db')"
  shows "pg_inv db' \<and> (pg_documents db' = (pg_documents db)(did := None) \<or>
     (\<exists>e. r = Inl e) \<and> pg_documents db' = pg_documents db)"
proof -
  obtain x where x: "pg_call (sql_SoftDeleteDocument did) db = (x, db')" and r: "\<exists>e. x = Inl e \<Longrightarrow> \<exists>e. r = Inl e"
    using assms(2) by (auto simp: dr_SoftDelete_def split: prod.splits sum.splits)
  have inv: "docs_inv (pg_tables db)" using assms(1) by (simp add: pg_inv_def)
  have "pg_inv db'" using pg_call_preserves [OF preserves_SoftDelete x inv] by (simp add: pg_inv_def)
  moreover from x have "pg_documents db' = (pg_documents db)(did := None) \<or> (\<exists>e. r = Inl e) \<and> pg_documents db' = pg_documents db"
    by (cases rule: pg_call_cases) (use r docs_of_SoftDelete [OF inv] in \<open>auto simp: pg_documents_def\<close>)
  ultimately show ?thesis ..
qed

interpretation pg_docs: doc_repository pg_repository pg_documents pg_inv
proof (unfold_locales, goal_cases)
  case (1 w p d w')
  then show ?case using dr_Create_documents [of w p "Inr d" w'] by (simp add: pg_repository_def)
next
  case (2 w p e w')
  then show ?case using dr_Create_documents [of w p "Inl e" w'] by (simp add: pg_repository_def)
next
  case (3 w did d w')
  then show ?case using dr_GetByID_documents [of w did d w'] pg_inv_same [OF dr_GetByID_tables, of did w "Inr d" w']
    by (simp add: pg_repository_def)
next
  case (4 w did e w')
  then show ?case using pg_inv_same [OF dr_GetByID_tables, of did w "Inl e" w'] by (simp add: pg_repository_def)
next
  case (5 w owner page items cnt w')
  then show ?case
    using pg_inv_same [OF dr_List_tables, of owner page w "Inr (items, cnt)" w'] dr_List_page [of w owner page items cnt w']
    by (simp add: pg_repository_def pg_inv_def)
next
  case (6 w owner page e w')
  then show ?case using pg_inv_same [OF dr_List_tables, of owner page w "Inl e" w'] by (simp add: pg_repository_def)
next
  case (7 w did w')
  then show ?case using dr_SoftDelete_documents [of w did "Inr ()" w'] by (simp add: pg_repository_def)
next
  case (8 w did e w')
  then show ?case using dr_SoftDelete_documents [of w did "Inl e" w'] by (auto simp: pg_repository_def)
next
  case (9 w did b w')
  then obtain n where "pg_call (sql_ClaimDocumentProcessing did) w = (Inr n, w')" "b = (n = 1)"
    by (auto simp: pg_repository_def dr_ClaimProcessing_def split: prod.splits sum.splits)
  with keyed_call [OF keyed_Claim preserves_Claim 9(1)] show ?case by fastforce
next
  case (10 w did e w')
  then have "pg_call (sql_ClaimDocumentProcessing did) w = (Inl e, w')"
    by (auto simp: pg_repository_def dr_ClaimProcessing_def split: prod.splits sum.splits)
  with keyed_call [OF keyed_Claim preserves_Claim 10(1)] show ?case by fastforce
next
  case (11 w c did n w')
  then have "pg_call (sql_MarkDocumentReady c n did) w = (Inr 1, w')"
    by (auto simp: pg_repository_def dr_MarkReady_def split: prod.splits sum.splits if_splits)
  with keyed_call [OF keyed_MarkReady [OF 11(2)] preserves_MarkReady 11(1)] show ?case by fastforce
next
  case (12 w c did n e w')
  then obtain x where "pg_call (sql_MarkDocumentReady c n did) w = (x, w')" "\<forall>m. x = Inr m \<longrightarrow> m \<noteq> 1"
    by (auto simp: pg_repository_def dr_MarkReady_def split: prod.splits sum.splits if_splits)
  with keyed_call [OF keyed_MarkReady [OF 12(2)] preserves_MarkReady 12(1)] show ?case by (cases x) fastforce+
next
  case (13 w msg did w')
  then have "pg_call (sql_MarkDocumentFailed msg did) w = (Inr 1, w')"
    by (auto simp: pg_repository_def dr_MarkFailed_def split: prod.splits sum.splits if_splits)
  with keyed_call [OF keyed_MarkFailed [OF 13(2)] preserves_MarkFailed 13(1)] show ?case by fastforce
next
  case (14 w msg did e w')
  then obtain x where "pg_call (sql_MarkDocumentFailed msg did) w = (x, w')" "\<forall>m. x = Inr m \<longrightarrow> m \<noteq> 1"
    by (auto simp: pg_repository_def dr_MarkFailed_def split: prod.splits sum.splits if_splits)
  with keyed_call [OF keyed_MarkFailed [OF 14(2)] preserves_MarkFailed 14(1)] show ?case by (cases x) fastforce+
qed

end
