(* ===== verification/Json_Job.thy ===== *)
theory Json_Job
  imports Api_Domain
begin

text \<open>
  The wire form of a queue job: \<open>encoding/json\<close> on \<open>domain.DocumentJob\<close>. \<open>Marshal\<close> writes
  the two fields in order; \<open>Unmarshal\<close> checks the syntax of the whole payload (grammar of RFC
  8259, nesting up to 10000), then stores the members whose keys match a field name up to ASCII
  case, in order, ignoring the others; a \<open>null\<close> leaves a field alone and any other value that
  is not an integer in range is an error. The parser runs on fuel; \<open>jvalue_fuel\<close> shows that the
  length of the input is enough, so that \<open>None\<close> always means a syntax error.
\<close>

subsection \<open>JSON values and their parser\<close>

text \<open>A key is its list of code points; a byte above 127 stands for itself.\<close>

datatype json = JNull | JBool bool | JNum string | JStr "nat list" | JArr "json list"
  | JObj "(nat list \<times> json) list"

definition quote :: char where "quote = CHR 0x22"

definition is_json_ws :: "char \<Rightarrow> bool" where
  "is_json_ws c \<longleftrightarrow> c = CHR 0x20 \<or> c = CHR 0x09 \<or> c = CHR 0x0A \<or> c = CHR 0x0D"

definition skip_ws :: "string \<Rightarrow> string" where
  "skip_ws s = dropWhile is_json_ws s"

definition hex_val :: "char \<Rightarrow> nat option" where
  "hex_val c =
     (let n = (of_char c :: nat)
      in if 48 \<le> n \<and> n \<le> 57 then Some (n - 48)
         else if 97 \<le> n \<and> n \<le> 102 then Some (n - 87)
         else if 65 \<le> n \<and> n \<le> 70 then Some (n - 55)
         else None)"

definition simple_escape :: "char \<Rightarrow> nat option" where
  "simple_escape c =
     (if c = quote \<or> c = backslash \<or> c = slash then Some (of_char c)
      else if c = CHR ''b'' then Some 8 else if c = CHR ''f'' then Some 12
      else if c = CHR ''n'' then Some 10 else if c = CHR ''r'' then Some 13
      else if c = CHR ''t'' then Some 9 else None)"

fun jstring :: "string \<Rightarrow> (nat list \<times> string) option" where
  \<comment> \<open>after the opening quote\<close>
  "jstring [] = None"
| "jstring (c # cs) =
     (if c = quote then Some ([], cs)
      else if c = backslash then
        (case cs of
           [] \<Rightarrow> None
         | e # r \<Rightarrow>
             if e = CHR ''u'' then
               (case r of
                  h1 # h2 # h3 # h4 # r' \<Rightarrow>
                    (case (hex_val h1, hex_val h2, hex_val h3, hex_val h4) of
                       (Some a, Some b, Some c, Some d) \<Rightarrow>
                         map_option (\<lambda>(us, t). ((4096 * a + 256 * b + 16 * c + d) # us, t)) (jstring r')
                     | _ \<Rightarrow> None)
                | _ \<Rightarrow> None)
             else (case simple_escape e of
                 None \<Rightarrow> None
               | Some u \<Rightarrow> map_option (\<lambda>(us, t). (u # us, t)) (jstring r)))
      else if (of_char c :: nat) < 32 then None
      else map_option (\<lambda>(us, t). (of_char c # us, t)) (jstring cs))"

definition jdigits :: "string \<Rightarrow> (string \<times> string) option" where
  "jdigits s = (let ds = takeWhile is_digit s in if ds = [] then None else Some (ds, drop (length ds) s))"

definition jint :: "string \<Rightarrow> (string \<times> string) option" where
  "jint s = (case s of [] \<Rightarrow> None
     | c # cs \<Rightarrow> if c = CHR ''0'' then Some ([c], cs) else jdigits s)"

definition jfrac :: "string \<Rightarrow> (string \<times> string) option" where
  "jfrac s = (case s of [] \<Rightarrow> Some ([], [])
     | c # cs \<Rightarrow> if c = CHR ''.'' then map_option (\<lambda>(ds, t). (c # ds, t)) (jdigits cs) else Some ([], s))"

definition jexp :: "string \<Rightarrow> (string \<times> string) option" where
  "jexp s = (case s of [] \<Rightarrow> Some ([], [])
     | c # cs \<Rightarrow>
         if c = CHR ''e'' \<or> c = CHR ''E'' then
           (case cs of
              [] \<Rightarrow> None
            | g # r \<Rightarrow>
                if g = CHR ''+'' \<or> g = CHR ''-'' then map_option (\<lambda>(ds, t). (c # g # ds, t)) (jdigits r)
                else map_option (\<lambda>(ds, t). (c # ds, t)) (jdigits cs))
         else Some ([], s))"

definition jnumber :: "string \<Rightarrow> (string \<times> string) option" where
  "jnumber s =
     (let (sign, s0) = (case s of c # cs \<Rightarrow> if c = CHR ''-'' then ([c], cs) else ([], s) | [] \<Rightarrow> ([], []))
      in (case jint s0 of None \<Rightarrow> None
       | Some (i, s1) \<Rightarrow> (case jfrac s1 of None \<Rightarrow> None
         | Some (f, s2) \<Rightarrow> (case jexp s2 of None \<Rightarrow> None
           | Some (e, s3) \<Rightarrow> Some (sign @ i @ f @ e, s3)))))"

definition max_nesting :: int where "max_nesting = 10000"

fun jvalue :: "nat \<Rightarrow> int \<Rightarrow> string \<Rightarrow> (json \<times> string) option"
  and jmembers :: "nat \<Rightarrow> int \<Rightarrow> string \<Rightarrow> ((nat list \<times> json) list \<times> string) option"
  and jelems :: "nat \<Rightarrow> int \<Rightarrow> string \<Rightarrow> (json list \<times> string) option"
where
  "jvalue 0 d s = None"
| "jvalue (Suc f) d s =
     (case skip_ws s of
        [] \<Rightarrow> None
      | c # cs \<Rightarrow>
          if c = CHR ''{'' then
            if max_nesting \<le> d then None
            else if has_prefix (skip_ws cs) ''}'' then Some (JObj [], drop 1 (skip_ws cs))
            else map_option (\<lambda>(ms, t). (JObj ms, t)) (jmembers f (d + 1) cs)
          else if c = CHR ''['' then
            if max_nesting \<le> d then None
            else if has_prefix (skip_ws cs) '']'' then Some (JArr [], drop 1 (skip_ws cs))
            else map_option (\<lambda>(xs, t). (JArr xs, t)) (jelems f (d + 1) cs)
          else if c = quote then map_option (\<lambda>(us, t). (JStr us, t)) (jstring cs)
          else if has_prefix (c # cs) ''null'' then Some (JNull, drop 4 (c # cs))
          else if has_prefix (c # cs) ''true'' then Some (JBool True, drop 4 (c # cs))
          else if has_prefix (c # cs) ''false'' then Some (JBool False, drop 5 (c # cs))
          else map_option (\<lambda>(t, r). (JNum t, r)) (jnumber (c # cs)))"
| "jmembers 0 d s = None"
| "jmembers (Suc f) d s =
     (case skip_ws s of
        [] \<Rightarrow> None
      | q # s1 \<Rightarrow>
          if q \<noteq> quote then None
          else (case jstring s1 of
            None \<Rightarrow> None
          | Some (k, s2) \<Rightarrow>
              (case skip_ws s2 of
                 [] \<Rightarrow> None
               | c # s3 \<Rightarrow>
                   if c \<noteq> CHR '':'' then None
                   else (case jvalue f d s3 of
                     None \<Rightarrow> None
                   | Some (v, s4) \<Rightarrow>
                       (case skip_ws s4 of
                          [] \<Rightarrow> None
                        | e # s5 \<Rightarrow>
                            if e = CHR ''}'' then Some ([(k, v)], s5)
                            else if e = CHR '','' then
                              map_option (\<lambda>(ms, t). ((k, v) # ms, t)) (jmembers f d s5)
                            else None)))))"
| "jelems 0 d s = None"
| "jelems (Suc f) d s =
     (case jvalue f d s of
        None \<Rightarrow> None
      | Some (v, s1) \<Rightarrow>
          (case skip_ws s1 of
             [] \<Rightarrow> None
           | e # s2 \<Rightarrow>
               if e = CHR '']'' then Some ([v], s2)
               else if e = CHR '','' then map_option (\<lambda>(vs, t). (v # vs, t)) (jelems f d s2)
               else None))"

declare jvalue.simps(2) [simp del] jmembers.simps(2) [simp del] jelems.simps(2) [simp del]

definition json_parse :: "string \<Rightarrow> json option" where
  "json_parse s =
     (case jvalue (Suc (2 * length s)) 0 s of
        Some (v, rest) \<Rightarrow> if skip_ws rest = [] then Some v else None
      | None \<Rightarrow> None)"

subsection \<open>Jobs\<close>

definition json_field :: "string \<Rightarrow> int \<Rightarrow> string" where
  "json_field name x = quote # name @ quote # CHR '':'' # format_int x"

definition json_marshal_job :: "document_job \<Rightarrow> string" where
  "json_marshal_job j =
     CHR ''{'' # json_field ''document_id'' (job_DocumentID j) @ CHR '','' #
       json_field ''attempt'' (job_Attempt j) @ ''}''"

definition fold_code :: "nat \<Rightarrow> nat" where
  "fold_code u = (if 97 \<le> u \<and> u \<le> 122 then u - 32 else u)"

definition key_matches :: "string \<Rightarrow> nat list \<Rightarrow> bool" where
  "key_matches name k \<longleftrightarrow> map fold_code k = map (\<lambda>c. fold_code (of_char c)) name"

definition json_error :: go_error where
  "json_error = FmtError ''json: cannot decode document job''"

text \<open>Storing a value in an integer field: the new value, or none when the type is wrong.\<close>

definition store_int :: "int \<Rightarrow> json \<Rightarrow> int option" where
  "store_int old v = (case v of
     JNull \<Rightarrow> Some old
   | JNum t \<Rightarrow> (case parse_int t of Inr n \<Rightarrow> Some n | Inl _ \<Rightarrow> None)
   | _ \<Rightarrow> None)"

fun store_members :: "document_job \<Rightarrow> bool \<Rightarrow> (nat list \<times> json) list \<Rightarrow> document_job \<times> bool" where
  \<comment> \<open>the flag records a type error, after which decoding goes on\<close>
  "store_members j bad [] = (j, bad)"
| "store_members j bad ((k, v) # ms) =
     (if key_matches ''document_id'' k then
        (case store_int (job_DocumentID j) v of
           Some n \<Rightarrow> store_members (j\<lparr>job_DocumentID := n\<rparr>) bad ms
         | None \<Rightarrow> store_members j True ms)
      else if key_matches ''attempt'' k then
        (case store_int (job_Attempt j) v of
           Some n \<Rightarrow> store_members (j\<lparr>job_Attempt := n\<rparr>) bad ms
         | None \<Rightarrow> store_members j True ms)
      else store_members j bad ms)"

definition json_unmarshal_job :: "string \<Rightarrow> go_error + document_job" where
  "json_unmarshal_job s =
     (let zero = \<lparr>job_DocumentID = 0, job_Attempt = 0\<rparr>
      in case json_parse s of
           None \<Rightarrow> Inl json_error
         | Some JNull \<Rightarrow> Inr zero
         | Some (JObj ms) \<Rightarrow> (case store_members zero False ms of (j, bad) \<Rightarrow> if bad then Inl json_error else Inr j)
         | Some _ \<Rightarrow> Inl json_error)"

subsection \<open>Every parser consumes input, so the fuel is enough\<close>

lemma skip_ws_Cons: "skip_ws s = c # cs \<Longrightarrow> length cs < length s"
  by (metis Suc_le_lessD length_Cons length_dropWhile_le skip_ws_def)

lemma jstring_length: "jstring s = Some (us, t) \<Longrightarrow> length t < length s"
proof (induction "length s" arbitrary: s us t rule: less_induct)
  case less
  show ?case
  proof (cases s)
    case Nil
    with less.prems show ?thesis by simp
  next
    case (Cons c cs)
    have IH: "jstring u = Some (us, t) \<Longrightarrow> length u < length s \<Longrightarrow> length t < length u" for u us t
      using less.hyps by blast
    from less.prems Cons show ?thesis
      by (auto split: if_splits list.splits option.splits dest!: IH)
  qed
qed

lemma jdigits_length: "jdigits s = Some (ds, t) \<Longrightarrow> length t < length s"
  by (cases s) (auto simp: jdigits_def Let_def split: if_splits)

lemma jint_length: "jint s = Some (i, t) \<Longrightarrow> length t < length s"
  by (auto simp: jint_def split: list.splits if_splits dest: jdigits_length)

lemma jfrac_length: "jfrac s = Some (i, t) \<Longrightarrow> length t \<le> length s"
  by (auto simp: jfrac_def split: list.splits if_splits dest!: jdigits_length)

lemma jexp_length: "jexp s = Some (i, t) \<Longrightarrow> length t \<le> length s"
  by (auto simp: jexp_def split: list.splits if_splits dest!: jdigits_length)

lemma jnumber_length: "jnumber s = Some (i, t) \<Longrightarrow> length t < length s"
  by (auto simp: jnumber_def split: list.splits if_splits option.splits
      dest!: jint_length jfrac_length jexp_length)

lemma jvalue_length:
  "(\<forall>v t. jvalue f d s = Some (v, t) \<longrightarrow> length t < length s) \<and>
   (\<forall>v t. jmembers f d s = Some (v, t) \<longrightarrow> length t < length s) \<and>
   (\<forall>v t. jelems f d s = Some (v, t) \<longrightarrow> length t < length s)"
proof (induction f arbitrary: d s)
  case 0
  then show ?case by simp
next
  case (Suc f)
  note IH = Suc [THEN conjunct1, rule_format] Suc [THEN conjunct2, THEN conjunct1, rule_format]
    Suc [THEN conjunct2, THEN conjunct2, rule_format]
  have len: "length (skip_ws u) \<le> length u" for u
    by (simp add: skip_ws_def length_dropWhile_le)
  have "length t < length s" if "jvalue (Suc f) d s = Some (v, t)" for v t
  proof (cases "skip_ws s")
    case Nil
    with that show ?thesis by (simp add: jvalue.simps(2))
  next
    case (Cons c cs)
    from that Cons have "length t < length (c # cs)"
      by (auto simp: jvalue.simps(2) split: if_splits simp del: length_Cons
          dest!: IH jstring_length jnumber_length)
         (use len [of cs] in \<open>auto simp: has_prefix_def\<close>)
    with Cons len [of s] show ?thesis by simp
  qed
  moreover have "length t < length s" if "jmembers (Suc f) d s = Some (v, t)" for v t
    using that
    by (auto simp: jmembers.simps(2) split: list.splits if_splits option.splits prod.splits
        dest!: skip_ws_Cons jstring_length IH)
  moreover have "length t < length s" if "jelems (Suc f) d s = Some (v, t)" for v t
    using that
    by (auto simp: jelems.simps(2) split: list.splits if_splits option.splits prod.splits
        dest!: skip_ws_Cons IH)
  ultimately show ?case by blast
qed

lemmas jvalue_lengthD = jvalue_length [THEN conjunct1, rule_format]
  jvalue_length [THEN conjunct2, THEN conjunct1, rule_format]
  jvalue_length [THEN conjunct2, THEN conjunct2, rule_format]

lemma jvalue_fuel:
  "(2 * length s < f \<longrightarrow> jvalue (Suc f) d s = jvalue f d s) \<and>
   (2 * length s < f \<longrightarrow> jmembers (Suc f) d s = jmembers f d s) \<and>
   (2 * length s + 1 < f \<longrightarrow> jelems (Suc f) d s = jelems f d s)"
proof (induction f arbitrary: d s)
  case 0
  then show ?case by simp
next
  case (Suc f)
  note IH = Suc [THEN conjunct1, rule_format] Suc [THEN conjunct2, THEN conjunct1, rule_format]
    Suc [THEN conjunct2, THEN conjunct2, rule_format]
  have "jvalue (Suc (Suc f)) d s = jvalue (Suc f) d s" if "2 * length s < Suc f"
  proof (cases "skip_ws s")
    case (Cons c cs)
    then have "length cs < length s" by (rule skip_ws_Cons)
    with that have "2 * length cs + 1 < f" "2 * length cs < f" by auto
    with Cons show ?thesis
      by (simp add: jvalue.simps(2) [of "Suc f" d s] jvalue.simps(2) [of f d s] IH)
  next
    case Nil
    then show ?thesis
      by (simp add: jvalue.simps(2) [of "Suc f" d s] jvalue.simps(2) [of f d s])
  qed
  moreover have "jmembers (Suc (Suc f)) d s = jmembers (Suc f) d s" if fuel: "2 * length s < Suc f"
  proof -
    note unfold = jmembers.simps(2) [of "Suc f" d s] jmembers.simps(2) [of f d s]
    show ?thesis
    proof (cases "\<exists>q s1 k s2 c s3. skip_ws s = q # s1 \<and> jstring s1 = Some (k, s2) \<and> skip_ws s2 = c # s3")
      case True
      then obtain q s1 k s2 c s3
        where s: "skip_ws s = q # s1" "jstring s1 = Some (k, s2)" "skip_ws s2 = c # s3" by blast
      then have s3: "length s3 + 2 < length s"
        by (auto dest!: skip_ws_Cons jstring_length)
      with fuel have v: "jvalue (Suc f) d s3 = jvalue f d s3" by (simp add: IH)
      show ?thesis
      proof (cases "\<exists>w s4 e s5. jvalue f d s3 = Some (w, s4) \<and> skip_ws s4 = e # s5")
        case True
        then obtain w s4 e s5 where s4: "jvalue f d s3 = Some (w, s4)" "skip_ws s4 = e # s5" by blast
        then have "length s5 < length s3"
          by (auto dest!: skip_ws_Cons jvalue_lengthD)
        with s3 fuel have "jmembers (Suc f) d s5 = jmembers f d s5" by (simp add: IH)
        with s s4 v show ?thesis by (simp add: unfold)
      next
        case False
        with s v show ?thesis by (auto simp: unfold split: list.split option.split)
      qed
    next
      case False
      then show ?thesis by (auto simp: unfold split: list.split option.split)
    qed
  qed
  moreover have "jelems (Suc (Suc f)) d s = jelems (Suc f) d s" if fuel: "2 * length s + 1 < Suc f"
  proof -
    note unfold = jelems.simps(2) [of "Suc f" d s] jelems.simps(2) [of f d s]
    from fuel have v: "jvalue (Suc f) d s = jvalue f d s" by (simp add: IH)
    show ?thesis
    proof (cases "\<exists>w s1 e s2. jvalue f d s = Some (w, s1) \<and> skip_ws s1 = e # s2")
      case True
      then obtain w s1 e s2 where s1: "jvalue f d s = Some (w, s1)" "skip_ws s1 = e # s2" by blast
      then have "length s2 + 1 < length s"
        by (auto dest!: skip_ws_Cons jvalue_lengthD)
      with fuel have "jelems (Suc f) d s2 = jelems f d s2" by (simp add: IH)
      with s1 v show ?thesis by (simp add: unfold)
    next
      case False
      with v show ?thesis by (auto simp: unfold split: list.split option.split)
    qed
  qed
  ultimately show ?case by blast
qed

subsection \<open>Decoding what was encoded\<close>

lemma has_prefix_Cons [simp]: "has_prefix (c # s) (p # ps) \<longleftrightarrow> c = p \<and> has_prefix s ps"
  by (auto simp: has_prefix_def)

lemma has_prefix_Nil [simp]: "has_prefix s []" "has_prefix [] (p # ps) \<longleftrightarrow> False"
  by (simp_all add: has_prefix_def)

lemma format_nat_zero: "hd (format_nat n) = CHR ''0'' \<Longrightarrow> n = 0"
proof (induction n rule: format_nat.induct)
  case (1 n)
  show ?case
  proof (cases "n < 10")
    case True
    with "1.prems" have "(of_char (digit_char n) :: nat) = 48"
      by (simp add: format_nat.simps [of n])
    with True show ?thesis by (simp add: of_char_digit)
  next
    case False
    with "1.prems" have "hd (format_nat (n div 10)) = CHR ''0''"
      by (simp add: format_nat.simps [of n])
    with "1.IH" False have "n div 10 = 0" by blast
    with False show ?thesis by simp
  qed
qed

definition number_end :: "char \<Rightarrow> bool" where
  "number_end c \<longleftrightarrow> c = CHR '','' \<or> c = CHR ''}''"

lemma number_end_not_digit: "number_end c \<Longrightarrow> \<not> is_digit c"
  by (auto simp: number_end_def is_digit_def)

lemma jint_format:
  assumes "number_end c"
  shows "jint (format_nat n @ c # r) = Some (format_nat n, c # r)"
proof (cases "n = 0")
  case True
  moreover have "digit_char 0 = CHR ''0''" by code_simp
  ultimately show ?thesis by (simp add: jint_def format_nat.simps [of 0])
next
  case False
  then have "hd (format_nat n) \<noteq> CHR ''0''" using format_nat_zero by blast
  then obtain x xs where f: "format_nat n = x # xs" "x \<noteq> CHR ''0''"
    by (metis format_nat_not_Nil list.exhaust list.sel(1))
  have d: "\<forall>y \<in> set (format_nat n). is_digit y" using format_nat_digits by blast
  have "jdigits (format_nat n @ c # r) = Some (format_nat n, c # r)"
    using takeWhile_append_stop [OF d number_end_not_digit [OF assms], of r]
    by (simp add: jdigits_def)
  with f show ?thesis by (simp add: jint_def)
qed

lemma jnumber_format:
  assumes "number_end c"
  shows "jnumber (format_int x @ c # r) = Some (format_int x, c # r)"
proof -
  have tail: "jfrac (c # r) = Some ([], c # r)" "jexp (c # r) = Some ([], c # r)"
    using assms by (auto simp: jfrac_def jexp_def number_end_def)
  obtain y ys where f: "format_nat (nat x) = y # ys" "y \<noteq> CHR ''-''"
    by (metis format_nat_hd format_nat_not_Nil is_digit_not_sign list.exhaust list.sel(1))
  show ?thesis
    using jint_format [OF assms, of "nat x" r] jint_format [OF assms, of "nat (- x)" r] tail f
    by (simp add: jnumber_def format_int_def)
qed

lemma format_int_hd: obtains c s where "format_int x = c # s" "is_digit c \<or> c = CHR ''-''"
proof -
  obtain c s where "format_int x = c # s"
    by (metis format_int_def format_nat_not_Nil list.exhaust)
  with format_int_chars [of c x] show ?thesis using that by simp
qed

lemma jvalue_format:
  assumes "number_end c"
  shows "jvalue (Suc f) d (format_int x @ c # r) = Some (JNum (format_int x), c # r)"
proof -
  obtain y s where y: "format_int x = y # s" "is_digit y \<or> y = CHR ''-''"
    by (rule format_int_hd)
  have "skip_ws (format_int x @ c # r) = format_int x @ c # r"
    using y by (auto simp: skip_ws_def is_json_ws_def is_digit_def)
  moreover from y(2) have "y \<noteq> CHR ''{''" "y \<noteq> CHR ''[''" "y \<noteq> quote"
    "y \<noteq> CHR ''n''" "y \<noteq> CHR ''t''" "y \<noteq> CHR ''f''"
    by (auto simp: is_digit_def quote_def)
  ultimately show ?thesis
    using y(1) jnumber_format [OF assms, of x r] by (simp add: jvalue.simps(2))
qed

lemma skip_ws_non_ws: "\<not> is_json_ws c \<Longrightarrow> skip_ws (c # s) = c # s"
  by (simp add: skip_ws_def)

lemma jmembers_field:
  assumes "jstring (name @ quote # CHR '':'' # format_int x @ c # r) =
             Some (k, CHR '':'' # format_int x @ c # r)"
    and "number_end c"
  shows "jmembers (Suc (Suc f)) d (json_field name x @ c # r) =
      (if c = CHR ''}'' then Some ([(k, JNum (format_int x))], r)
       else map_option (\<lambda>(ms, t). ((k, JNum (format_int x)) # ms, t)) (jmembers (Suc f) d r))"
proof -
  have ws: "\<not> is_json_ws quote" "\<not> is_json_ws CHR '':''" "\<not> is_json_ws c"
    using assms(2) by (auto simp: is_json_ws_def quote_def number_end_def)
  have "json_field name x @ c # r = quote # name @ quote # CHR '':'' # format_int x @ c # r"
    by (simp add: json_field_def)
  with assms ws show ?thesis
    by (auto simp: jmembers.simps(2) [of "Suc f"] skip_ws_non_ws jvalue_format number_end_def)
qed

definition key_of :: "string \<Rightarrow> nat list" where "key_of name = map of_char name"

lemma job_keys:
  "jstring (''document_id'' @ quote # r) = Some (key_of ''document_id'', r)"
  "jstring (''attempt'' @ quote # r) = Some (key_of ''attempt'', r)"
  by (simp_all add: quote_def backslash_def key_of_def)

lemma json_parse_marshal:
  "json_parse (json_marshal_job j) =
     Some (JObj [(key_of ''document_id'', JNum (format_int (job_DocumentID j))),
                 (key_of ''attempt'', JNum (format_int (job_Attempt j)))])"
proof -
  define b where "b = json_field ''attempt'' (job_Attempt j) @ CHR ''}'' # []"
  define a where "a = json_field ''document_id'' (job_DocumentID j) @ CHR '','' # b"
  have m: "json_marshal_job j = CHR ''{'' # a" by (simp add: json_marshal_job_def a_def b_def)
  have "length a \<ge> 2" by (simp add: a_def json_field_def)
  moreover define f where "f = 2 * length a - 1"
  ultimately have f: "2 * length (CHR ''{'' # a) = Suc (Suc (Suc f))" by simp
  have q: "\<not> is_json_ws quote" "quote \<noteq> CHR ''}''" "\<not> is_json_ws CHR ''{''"
    by (auto simp: is_json_ws_def quote_def)
  have ws: "skip_ws (CHR ''{'' # a) = CHR ''{'' # a" "\<not> has_prefix (skip_ws a) ''}''"
    using q by (simp_all add: a_def json_field_def skip_ws_non_ws)
  have "jmembers (Suc (Suc f)) 1 b = Some ([(key_of ''attempt'', JNum (format_int (job_Attempt j)))], [])"
    using jmembers_field [OF job_keys(2), of "CHR ''}''"] by (simp add: number_end_def b_def)
  then have "jmembers (Suc (Suc (Suc f))) 1 a =
      Some ([(key_of ''document_id'', JNum (format_int (job_DocumentID j))),
             (key_of ''attempt'', JNum (format_int (job_Attempt j)))], [])"
    using jmembers_field [OF job_keys(1), of "CHR '',''"] by (simp add: number_end_def a_def)
  with ws have "jvalue (Suc (Suc (Suc (Suc f)))) 0 (CHR ''{'' # a) =
      Some (JObj [(key_of ''document_id'', JNum (format_int (job_DocumentID j))),
                  (key_of ''attempt'', JNum (format_int (job_Attempt j)))], [])"
    by (simp add: jvalue.simps(2) max_nesting_def)
  then show ?thesis
    unfolding json_parse_def m f by (simp add: skip_ws_def)
qed

lemma json_roundtrip:
  assumes "in_int64 (job_DocumentID j)" "in_int64 (job_Attempt j)"
  shows "json_unmarshal_job (json_marshal_job j) = Inr j"
proof -
  have keys: "key_matches ''document_id'' (key_of ''document_id'')"
    "\<not> key_matches ''document_id'' (key_of ''attempt'')" "key_matches ''attempt'' (key_of ''attempt'')"
    by (simp_all add: key_matches_def key_of_def fold_code_def)
  show ?thesis
    using assms keys
    by (simp add: json_unmarshal_job_def json_parse_marshal store_int_def parse_int_format)
qed

end
