(* ===== verification/Redis_Queue.thy ===== *)
theory Redis_Queue
  imports Json_Job External_Calls "HOL-Library.Multiset"
begin

text \<open>
  The work queue, \<open>internal/queue/redis.go\<close>: jobs as JSON payloads in three Redis lists (main,
  processing, dead letter) behind the interface \<open>listBackend\<close>. The first part is the adapter
  over any backend, with the laws of a backend as a locale; the second is the Redis backend
  (\<open>LPUSH\<close>, \<open>BLMOVE RIGHT LEFT\<close>, \<open>LREM 1\<close>) under connection failures, which satisfies them.
\<close>

subsection \<open>The adapter\<close>

record 'w list_backend =
  lb_Push :: "string \<Rightarrow> string \<Rightarrow> ('w, go_error, unit) call"
  lb_Move :: "string \<Rightarrow> string \<Rightarrow> ('w, go_error, string) call"
  lb_Remove :: "string \<Rightarrow> string \<Rightarrow> ('w, go_error, unit) call"

record 'w redis_queue =
  rq_backend :: "'w list_backend"
  rq_main :: string
  rq_processing :: string
  rq_deadLetter :: string
  rq_maxAttempts :: int

definition validateJob :: "document_job \<Rightarrow> go_error option" where
  "validateJob job = (if job_DocumentID job \<le> 0 \<or> job_Attempt job \<le> 0 then Some ErrQueueInvalidJob else None)"

definition q_Enqueue :: "'w redis_queue \<Rightarrow> document_job \<Rightarrow> ('w, go_error, unit) call" where
  "q_Enqueue q job w =
     (case validateJob job of
        Some err \<Rightarrow> (Inl err, w)
      | None \<Rightarrow>
          (case lb_Push (rq_backend q) (rq_main q) (json_marshal_job job) w of
             (Inl err, w') \<Rightarrow> (Inl (Wrap ErrQueueUnavailable (Some err)), w')
           | (Inr _, w') \<Rightarrow> (Inr (), w')))"

record claimed_job =
  clj_job :: document_job
  clj_payload :: string

definition q_Consume :: "'w redis_queue \<Rightarrow> ('w, go_error, claimed_job) call" where
  "q_Consume q w =
     (case lb_Move (rq_backend q) (rq_main q) (rq_processing q) w of
        (Inl err, w') \<Rightarrow> (Inl (Wrap ErrQueueUnavailable (Some err)), w')
      | (Inr payload, w') \<Rightarrow>
          (case json_unmarshal_job payload of
             Inl err \<Rightarrow>
               (case lb_Remove (rq_backend q) (rq_processing q) payload w' of
                  (_, w'') \<Rightarrow> (Inl (FmtWrap (''decode document job: '' @ error_text err) err), w''))
           | Inr job \<Rightarrow>
               (case validateJob job of
                  Some err \<Rightarrow>
                    (case lb_Remove (rq_backend q) (rq_processing q) payload w' of (_, w'') \<Rightarrow> (Inl err, w''))
                | None \<Rightarrow> (Inr \<lparr>clj_job = job, clj_payload = payload\<rparr>, w'))))"

definition q_Job :: "claimed_job \<Rightarrow> document_job" where
  "q_Job j = clj_job j"

definition q_Ack :: "'w redis_queue \<Rightarrow> claimed_job \<Rightarrow> ('w, go_error, unit) call" where
  "q_Ack q j w = lb_Remove (rq_backend q) (rq_processing q) (clj_payload j) w"

definition retry_target :: "'w redis_queue \<Rightarrow> document_job \<Rightarrow> string \<times> document_job" where
  \<comment> \<open>the list a failed job goes to, and the job as it is pushed there (\<open>next.Attempt++\<close> on an \<open>int\<close>)\<close>
  "retry_target q job =
     (if rq_maxAttempts q \<le> job_Attempt job then (rq_deadLetter q, job)
      else (rq_main q, job\<lparr>job_Attempt := wrap_signed 64 (job_Attempt job + 1)\<rparr>))"

definition q_Retry :: "'w redis_queue \<Rightarrow> claimed_job \<Rightarrow> go_error \<Rightarrow> ('w, go_error, unit) call" where
  "q_Retry q j reason w =
     (case retry_target q (clj_job j) of
        (destination, nxt) \<Rightarrow>
          (case lb_Remove (rq_backend q) (rq_processing q) (clj_payload j) w of
             (Inl err, w') \<Rightarrow> (Inl err, w')
           | (Inr _, w') \<Rightarrow>
               (case lb_Push (rq_backend q) destination (json_marshal_job nxt) w' of
                  (Inl err, w'') \<Rightarrow> (Inl (Wrap ErrQueueUnavailable (Some err)), w'')
                | (Inr _, w'') \<Rightarrow> (Inr (), w''))))"

subsection \<open>The laws of a list backend\<close>

definition push_lists :: "string \<Rightarrow> string \<Rightarrow> (string \<Rightarrow> string list) \<Rightarrow> string \<Rightarrow> string list" where
  "push_lists k p ls = ls(k := p # ls k)"

definition move_lists :: "string \<Rightarrow> string \<Rightarrow> (string \<Rightarrow> string list) \<Rightarrow> string \<Rightarrow> string list" where
  "move_lists src dst ls =
     (let ls' = ls(src := butlast (ls src)) in ls'(dst := last (ls src) # ls' dst))"

definition remove_lists :: "string \<Rightarrow> string \<Rightarrow> (string \<Rightarrow> string list) \<Rightarrow> string \<Rightarrow> string list" where
  "remove_lists k p ls = ls(k := remove1 p (ls k))"

text \<open>A call that fails has either not happened, or happened without being acknowledged.\<close>

locale list_backend =
  fixes b :: "'w list_backend"
    and lists :: "'w \<Rightarrow> string \<Rightarrow> string list"
  assumes push_ok: "lb_Push b k p w = (Inr u, w') \<Longrightarrow> lists w' = push_lists k p (lists w)"
    and push_err: "lb_Push b k p w = (Inl e, w') \<Longrightarrow> lists w' = lists w \<or> lists w' = push_lists k p (lists w)"
    and move_ok: "lb_Move b src dst w = (Inr p, w') \<Longrightarrow>
          lists w src \<noteq> [] \<and> p = last (lists w src) \<and> lists w' = move_lists src dst (lists w)"
    and move_err: "lb_Move b src dst w = (Inl e, w') \<Longrightarrow>
          lists w' = lists w \<or> lists w src \<noteq> [] \<and> lists w' = move_lists src dst (lists w)"
    and remove_ok: "lb_Remove b k p w = (Inr u, w') \<Longrightarrow> lists w' = remove_lists k p (lists w)"
    and remove_err: "lb_Remove b k p w = (Inl e, w') \<Longrightarrow> lists w' = lists w \<or> lists w' = remove_lists k p (lists w)"

definition decode_job :: "string \<Rightarrow> document_job option" where
  \<comment> \<open>the job a payload stands for, if a worker would accept it\<close>
  "decode_job p = (case json_unmarshal_job p of
     Inl _ \<Rightarrow> None | Inr j \<Rightarrow> (if validateJob j = None then Some j else None))"

text \<open>The jobs waiting in a list, the oldest first (jobs enter on the left and leave on the right).\<close>

definition waiting_jobs :: "string list \<Rightarrow> document_job list" where
  "waiting_jobs ps = rev (List.map_filter decode_job ps)"

definition job_ok :: "document_job \<Rightarrow> bool" where
  "job_ok j \<longleftrightarrow> 0 < job_DocumentID j \<and> job_DocumentID j < 2 ^ 63 \<and> 0 < job_Attempt j \<and> job_Attempt j < 2 ^ 63"

lemma decode_marshal: "job_ok j \<Longrightarrow> decode_job (json_marshal_job j) = Some j"
  by (simp add: decode_job_def json_roundtrip job_ok_def in_int64_def validateJob_def)

lemma decode_job_Some: "decode_job p = Some j \<longleftrightarrow> json_unmarshal_job p = Inr j \<and> validateJob j = None"
  by (auto simp: decode_job_def split: sum.splits if_splits)

lemma waiting_jobs_Cons:
  "waiting_jobs (p # ps) = waiting_jobs ps @ (case decode_job p of None \<Rightarrow> [] | Some j \<Rightarrow> [j])"
  by (simp add: waiting_jobs_def List.map_filter_def split: option.splits)

lemma waiting_jobs_snoc:
  "waiting_jobs (ps @ [p]) = (case decode_job p of None \<Rightarrow> [] | Some j \<Rightarrow> [j]) @ waiting_jobs ps"
  by (simp add: waiting_jobs_def List.map_filter_def split: option.splits)

text \<open>The contract a producer of jobs relies on.\<close>

locale job_queue =
  fixes enqueue :: "document_job \<Rightarrow> ('w, go_error, unit) call"
    and waiting :: "'w \<Rightarrow> document_job list"
  assumes enqueue_ok: "job_ok j \<Longrightarrow> enqueue j w = (Inr u, w') \<Longrightarrow> waiting w' = waiting w @ [j]"
    and enqueue_err: "job_ok j \<Longrightarrow> enqueue j w = (Inl e, w') \<Longrightarrow>
          waiting w' = waiting w \<or> waiting w' = waiting w @ [j]"
    and enqueue_invalid: "job_DocumentID j \<le> 0 \<or> job_Attempt j \<le> 0 \<Longrightarrow> enqueue j w = (Inl ErrQueueInvalidJob, w)"

context list_backend
begin

lemma waiting_push: "job_ok j \<Longrightarrow>
    waiting_jobs (push_lists k (json_marshal_job j) ls k) = waiting_jobs (ls k) @ [j]"
  by (simp add: push_lists_def waiting_jobs_Cons decode_marshal)

lemma enqueue_job_queue:
  assumes "rq_backend q = b"
  shows "job_queue (q_Enqueue q) (\<lambda>w. waiting_jobs (lists w (rq_main q)))"
proof (unfold_locales, goal_cases)
  case (1 j w u w')
  then show ?case
    by (auto simp: q_Enqueue_def waiting_push assms dest!: push_ok split: option.splits prod.splits sum.splits)
next
  case (2 j w e w')
  then have "validateJob j = None" by (simp add: validateJob_def job_ok_def)
  with 2 show ?case
    by (auto simp: q_Enqueue_def waiting_push assms dest!: push_err split: prod.splits sum.splits)
next
  case (3 j w)
  then show ?case by (simp add: q_Enqueue_def validateJob_def)
qed

text \<open>Consuming hands out the oldest payload and keeps it in the processing list.\<close>

lemma consume_ok:
  assumes "rq_backend q = b" "q_Consume q w = (Inr c, w')"
  shows "lists w (rq_main q) \<noteq> []" "clj_payload c = last (lists w (rq_main q))"
    and "decode_job (clj_payload c) = Some (clj_job c)"
    and "lists w' = move_lists (rq_main q) (rq_processing q) (lists w)"
  using assms(2)
  by (auto simp: q_Consume_def decode_job_Some assms(1) dest!: move_ok split: prod.splits sum.splits option.splits)

text \<open>A payload that is no valid job is moved out of both lists.\<close>

lemma remove_moved:
  assumes "src \<noteq> dst"
  shows "remove_lists dst (last (ls src)) (move_lists src dst ls) = ls(src := butlast (ls src))"
  using assms by (auto simp: remove_lists_def move_lists_def Let_def fun_eq_iff)

lemma ack_ok:
  assumes "rq_backend q = b" "q_Ack q c w = (Inr u, w')"
  shows "lists w' = remove_lists (rq_processing q) (clj_payload c) (lists w)"
  using assms(2) by (auto simp: q_Ack_def assms(1) dest: remove_ok)

lemma retry_ok:
  assumes "rq_backend q = b" "q_Retry q c reason w = (Inr u, w')"
  shows "lists w' = (case retry_target q (clj_job c) of (dest, nxt) \<Rightarrow>
           push_lists dest (json_marshal_job nxt) (remove_lists (rq_processing q) (clj_payload c) (lists w)))"
  using assms(2)
  by (auto simp: q_Retry_def assms(1) dest!: remove_ok push_ok split: prod.splits sum.splits)

end

subsection \<open>The Redis backend\<close>

text \<open>
  \<open>rd_unblock\<close> is the error that ends a \<open>BLMOVE\<close> blocking on an empty list (a cancelled context
  or a lost connection): with a zero timeout nothing else does, unless a job arrives first.
\<close>

record redis =
  rd_lists :: "string \<Rightarrow> string list"
  rd_faults :: "fault list"
  rd_unblock :: go_error

type_synonym 'a command = "(string \<Rightarrow> string list) \<Rightarrow> (go_error + 'a) \<times> (string \<Rightarrow> string list)"

definition redis_call :: "'a command \<Rightarrow> (redis, go_error, 'a) call" where
  "redis_call cmd r =
     (case faulty (rd_faults r) cmd (rd_lists r) of
        (res, ls, fs) \<Rightarrow> (res, r\<lparr>rd_lists := ls, rd_faults := fs\<rparr>))"

definition redis_Push :: "string \<Rightarrow> string \<Rightarrow> (redis, go_error, unit) call" where
  "redis_Push key payload r = redis_call (\<lambda>ls. (Inr (), push_lists key payload ls)) r"

definition redis_Move :: "string \<Rightarrow> string \<Rightarrow> (redis, go_error, string) call" where
  "redis_Move src dst r =
     redis_call (\<lambda>ls. if ls src = [] then (Inl (rd_unblock r), ls)
                      else (Inr (last (ls src)), move_lists src dst ls)) r"

definition redis_Remove :: "string \<Rightarrow> string \<Rightarrow> (redis, go_error, unit) call" where
  "redis_Remove key payload r = redis_call (\<lambda>ls. (Inr (), remove_lists key payload ls)) r"

definition redis_backend :: "redis list_backend" where
  "redis_backend = \<lparr>lb_Push = redis_Push, lb_Move = redis_Move, lb_Remove = redis_Remove\<rparr>"

definition newRedisQueue :: "'w list_backend \<Rightarrow> string \<Rightarrow> string \<Rightarrow> string \<Rightarrow> int \<Rightarrow> 'w redis_queue" where
  "newRedisQueue backend main processing deadLetter maxAttempts =
     \<lparr>rq_backend = backend, rq_main = main, rq_processing = processing, rq_deadLetter = deadLetter,
      rq_maxAttempts = maxAttempts\<rparr>"

lemma redis_call_cases:
  assumes "redis_call cmd r = (res, r')"
  obtains (run) "cmd (rd_lists r) = (res, rd_lists r')"
    | (lost) e where "res = Inl e" "rd_lists r' = rd_lists r"
    | (applied) e res' where "res = Inl e" "cmd (rd_lists r) = (res', rd_lists r')"
proof -
  obtain ls fs where f: "faulty (rd_faults r) cmd (rd_lists r) = (res, ls, fs)" and ls: "rd_lists r' = ls"
    using assms by (auto simp: redis_call_def split: prod.splits)
  from f show ?thesis
    by (cases rule: faulty_cases) (auto simp: ls intro: that)
qed

interpretation redis: list_backend redis_backend rd_lists
proof (unfold_locales, goal_cases)
  case (1 k p w u w')
  then show ?case
    by (auto simp: redis_backend_def redis_Push_def elim: redis_call_cases)
next
  case (2 k p w e w')
  then show ?case
    by (auto simp: redis_backend_def redis_Push_def elim: redis_call_cases)
next
  case (3 src dst w p w')
  then show ?case
    by (auto simp: redis_backend_def redis_Move_def elim!: redis_call_cases split: if_splits)
next
  case (4 src dst w e w')
  then show ?case
    by (auto simp: redis_backend_def redis_Move_def elim!: redis_call_cases split: if_splits)
next
  case (5 k p w u w')
  then show ?case
    by (auto simp: redis_backend_def redis_Remove_def elim: redis_call_cases)
next
  case (6 k p w e w')
  then show ?case
    by (auto simp: redis_backend_def redis_Remove_def elim: redis_call_cases)
qed

interpretation redis_jobs: job_queue "q_Enqueue (newRedisQueue redis_backend main processing dead n)"
    "\<lambda>w. waiting_jobs (rd_lists w main)"
  for main processing dead n
  using redis.enqueue_job_queue [of "newRedisQueue redis_backend main processing dead n"]
  by (simp add: newRedisQueue_def)

end
