(* ===== verification/Document_Service.thy ===== *)
theory Document_Service
  imports Storage_Contract Repository_Contract Redis_Queue
begin

text \<open>
  \<open>internal/service/document_service.go\<close>: uploads, reads and deletions of documents, over the
  three ports. The surroundings of a service are the states of the database, the object
  storage, the queue and the entropy source; a port's call runs on its own part. The client's
  lemmas are proved from the contracts of the ports, in the locale \<open>document_ports\<close>.
\<close>

subsection \<open>The surroundings\<close>

record ('p, 's, 'q) surroundings =
  sur_repository :: 'p
  sur_storage :: 's
  sur_queue :: 'q
  sur_random :: entropy

definition on_repository :: "('p \<Rightarrow> 'a \<times> 'p) \<Rightarrow> ('p, 's, 'q) surroundings \<Rightarrow> 'a \<times> ('p, 's, 'q) surroundings" where
  "on_repository f w = (case f (sur_repository w) of (r, p) \<Rightarrow> (r, w\<lparr>sur_repository := p\<rparr>))"

definition on_storage :: "('s \<Rightarrow> 'a \<times> 's) \<Rightarrow> ('p, 's, 'q) surroundings \<Rightarrow> 'a \<times> ('p, 's, 'q) surroundings" where
  "on_storage f w = (case f (sur_storage w) of (r, s) \<Rightarrow> (r, w\<lparr>sur_storage := s\<rparr>))"

definition on_queue :: "('q \<Rightarrow> 'a \<times> 'q) \<Rightarrow> ('p, 's, 'q) surroundings \<Rightarrow> 'a \<times> ('p, 's, 'q) surroundings" where
  "on_queue f w = (case f (sur_queue w) of (r, q) \<Rightarrow> (r, w\<lparr>sur_queue := q\<rparr>))"

definition on_random :: "(entropy \<Rightarrow> 'a \<times> entropy) \<Rightarrow> ('p, 's, 'q) surroundings \<Rightarrow> 'a \<times> ('p, 's, 'q) surroundings" where
  "on_random f w = (case f (sur_random w) of (r, x) \<Rightarrow> (r, w\<lparr>sur_random := x\<rparr>))"

definition randomObjectID :: "entropy \<Rightarrow> (go_error + string) \<times> entropy" where
  "randomObjectID es = (case rand_read 16 es of
     (Inl err, es') \<Rightarrow> (Inl err, es')
   | (Inr buffer, es') \<Rightarrow> (Inr (hex_encode buffer), es'))"

subsection \<open>The service\<close>

record upload_input =
  in_OriginalName :: string
  in_MediaType :: string
  in_SizeBytes :: int
  in_Body :: "source option"

record ('p, 's, 'q, 'c) document_service =
  sv_repository :: "'p document_repository"
  sv_storage :: "('s, upload_reader) object_storage"
  sv_queue :: "('q, 'c) document_queue"
  sv_maxUploadBytes :: int
  sv_allowedMediaType :: "string list"
  sv_cdnURL :: string
  sv_storageKeyPrefix :: string
  sv_keyGenerator :: "entropy \<Rightarrow> (go_error + string) \<times> entropy"

definition NewDocumentService ::
    "(string \<Rightarrow> string) \<Rightarrow> 'p document_repository \<Rightarrow> ('s, upload_reader) object_storage
       \<Rightarrow> ('q, 'c) document_queue \<Rightarrow> int \<Rightarrow> string list \<Rightarrow> string \<Rightarrow> string \<Rightarrow> ('p, 's, 'q, 'c) document_service" where
  "NewDocumentService unicode_lower repository storage queue maxUploadBytes allowedMediaTypes cdnURL storageKeyPrefix =
     \<lparr>sv_repository = repository, sv_storage = storage, sv_queue = queue,
      sv_maxUploadBytes = maxUploadBytes,
      sv_allowedMediaType = map (\<lambda>m. to_lower unicode_lower (trim_space m)) allowedMediaTypes,
      sv_cdnURL = trim_right_byte slash (trim_space cdnURL),
      sv_storageKeyPrefix = trim_byte slash (trim_space storageKeyPrefix),
      sv_keyGenerator = randomObjectID\<rparr>"

definition file_name :: "string \<Rightarrow> string" where
  "file_name original = filepath_base (replace_byte backslash slash (trim_space original))"

definition setPublicURL :: "('p, 's, 'q, 'c) document_service \<Rightarrow> document \<Rightarrow> document" where
  "setPublicURL s document =
     (if sv_cdnURL s = '''' \<or> doc_StorageKey document = '''' then document
      else document\<lparr>doc_URL := sv_cdnURL s @ ''/'' @ trim_left_byte slash (doc_StorageKey document)\<rparr>)"

definition authorizeDocument :: "actor \<Rightarrow> document \<Rightarrow> go_error option" where
  "authorizeDocument actor document =
     (if act_UserID actor \<le> 0 then Some ErrDocumentUnauthorized
      else if \<not> is_admin actor \<and> doc_OwnerID document \<noteq> act_UserID actor then Some ErrDocumentForbidden
      else None)"

text \<open>
  \<open>Create\<close> returns a pair of a document and an error, and both when only the enqueueing
  failed. \<open>persist\<close> is the part after the object is stored, with the final counter.
\<close>

definition persist :: "('p, 's, 'q, 'c) document_service \<Rightarrow> new_document
    \<Rightarrow> ('p, 's, 'q) surroundings \<Rightarrow> (document option \<times> go_error option) \<times> ('p, 's, 'q) surroundings" where
  "persist s nd w =
     (case on_repository (repo_Create (sv_repository s) nd) w of
        (Inl err, w1) \<Rightarrow>
          (case on_storage (st_Delete (sv_storage s) (nd_StorageKey nd)) w1 of
             (Inl cleanupErr, w2) \<Rightarrow>
               ((None, Some (FmtWrap (''persist document: '' @ error_text err @ ''; compensate storage: '' @
                                      error_text cleanupErr) err)), w2)
           | (Inr _, w2) \<Rightarrow> ((None, Some err), w2))
      | (Inr document, w1) \<Rightarrow>
          (let document = setPublicURL s document in
           case on_queue (dq_Enqueue (sv_queue s) \<lparr>job_DocumentID = doc_ID document, job_Attempt = 1\<rparr>) w1 of
             (Inl err, w2) \<Rightarrow> ((Some document, Some (Wrap ErrQueueUnavailable (Some err))), w2)
           | (Inr _, w2) \<Rightarrow> ((Some document, None), w2)))"

definition store_upload :: "('p, 's, 'q, 'c) document_service \<Rightarrow> int \<Rightarrow> string \<Rightarrow> string \<Rightarrow> source \<Rightarrow> string
    \<Rightarrow> ('p, 's, 'q) surroundings \<Rightarrow> (document option \<times> go_error option) \<times> ('p, 's, 'q) surroundings" where
  \<comment> \<open>from the generated id on\<close>
  "store_upload s userID name mediaType body oid w =
     (let key = object_key (sv_storageKeyPrefix s) userID oid;
          counter = upload_reader body (sv_maxUploadBytes s);
          put = (\<lambda>st. case st_Put (sv_storage s) key counter mediaType st of (r, c, st') \<Rightarrow> ((r, c), st'))
      in case on_storage put w of
           ((Inl err, _), w1) \<Rightarrow>
             ((None, Some (if errors_is err errUploadTooLarge
                           then WithMessage ErrDocumentInvalidRequest ''file exceeds maximum upload size''
                           else Wrap ErrStorageUnavailable (Some err))), w1)
         | ((Inr _, counter'), w1) \<Rightarrow>
             persist s \<lparr>nd_OwnerID = userID, nd_OriginalName = name, nd_MediaType = mediaType,
                        nd_SizeBytes = cr_count counter', nd_StorageKey = key\<rparr> w1)"

definition invalid_upload :: "('p, 's, 'q, 'c) document_service \<Rightarrow> string \<Rightarrow> string \<Rightarrow> upload_input \<Rightarrow> string option" where
  \<comment> \<open>the first rejection of the input, by its message\<close>
  "invalid_upload s name mediaType input =
     (if name = '''' \<or> name = dot then Some ''file name is required''
      else if mediaType \<notin> set (sv_allowedMediaType s) then Some ''media type is not allowed''
      else if in_Body input = None \<or> in_SizeBytes input \<le> 0 \<or> in_SizeBytes input > sv_maxUploadBytes s
      then Some ''file size is invalid'' else None)"

definition ds_Create :: "(string \<Rightarrow> string) \<Rightarrow> ('p, 's, 'q, 'c) document_service \<Rightarrow> actor \<Rightarrow> upload_input
    \<Rightarrow> ('p, 's, 'q) surroundings \<Rightarrow> (document option \<times> go_error option) \<times> ('p, 's, 'q) surroundings" where
  "ds_Create unicode_lower s actor input w =
     (let name = file_name (in_OriginalName input);
          mediaType = to_lower unicode_lower (trim_space (in_MediaType input))
      in if act_UserID actor \<le> 0 then ((None, Some ErrDocumentUnauthorized), w)
         else case invalid_upload s name mediaType input of
           Some msg \<Rightarrow> ((None, Some (WithMessage ErrDocumentInvalidRequest msg)), w)
         | None \<Rightarrow>
             (case on_random (sv_keyGenerator s) w of
                (Inl err, w1) \<Rightarrow> ((None, Some (FmtWrap (''generate storage key: '' @ error_text err) err)), w1)
              | (Inr oid, w1) \<Rightarrow>
                  store_upload s (act_UserID actor) name mediaType (the (in_Body input)) oid w1))"

definition ds_Get :: "('p, 's, 'q, 'c) document_service \<Rightarrow> actor \<Rightarrow> int
    \<Rightarrow> (('p, 's, 'q) surroundings, go_error, document) call" where
  "ds_Get s actor did w =
     (case on_repository (repo_GetByID (sv_repository s) did) w of
        (Inl err, w') \<Rightarrow> (Inl err, w')
      | (Inr document, w') \<Rightarrow>
          (case authorizeDocument actor document of
             Some err \<Rightarrow> (Inl err, w')
           | None \<Rightarrow> (Inr (setPublicURL s document), w')))"

definition ds_List :: "('p, 's, 'q, 'c) document_service \<Rightarrow> actor \<Rightarrow> pagination
    \<Rightarrow> (('p, 's, 'q) surroundings, go_error, document page) call" where
  "ds_List s actor pgn w =
     (if act_UserID actor \<le> 0 then (Inl ErrDocumentUnauthorized, w)
      else
        let page = normalize_pagination (pgn_Page pgn) (pgn_PageSize pgn);
            ownerID = (if \<not> is_admin actor then Some (act_UserID actor) else None)
        in case on_repository (repo_List (sv_repository s) ownerID page) w of
             (Inl err, w') \<Rightarrow> (Inl err, w')
           | (Inr (items, cnt), w') \<Rightarrow>
               (Inr \<lparr>page_Items = map (setPublicURL s) items, page_Page = pgn_Page page,
                     page_PageSize = pgn_PageSize page, page_TotalItems = cnt\<rparr>, w'))"

definition ds_Download :: "('p, 's, 'q, 'c) document_service \<Rightarrow> actor \<Rightarrow> int
    \<Rightarrow> (('p, 's, 'q) surroundings, go_error, stored_object \<times> document) call" where
  "ds_Download s actor did w =
     (case ds_Get s actor did w of
        (Inl err, w1) \<Rightarrow> (Inl err, w1)
      | (Inr document, w1) \<Rightarrow>
          if doc_Status document \<noteq> DocumentReady then (Inl ErrDocumentNotReady, w1)
          else (case on_storage (st_Open (sv_storage s) (doc_StorageKey document)) w1 of
                  (Inl err, w2) \<Rightarrow> (Inl err, w2)
                | (Inr object, w2) \<Rightarrow> (Inr (object, document), w2)))"

definition ds_Delete :: "('p, 's, 'q, 'c) document_service \<Rightarrow> actor \<Rightarrow> int
    \<Rightarrow> (('p, 's, 'q) surroundings, go_error, unit) call" where
  "ds_Delete s actor did w =
     (case ds_Get s actor did w of
        (Inl err, w1) \<Rightarrow> (Inl err, w1)
      | (Inr document, w1) \<Rightarrow> on_repository (repo_SoftDelete (sv_repository s) (doc_ID document)) w1)"

subsection \<open>Generated keys\<close>

lemma object_key_storable:
  assumes "validS3Prefix prefix" "prefix \<noteq> dotdot" "\<not> path_is_abs prefix" "key_id oid"
  shows "storable (object_key prefix userID oid)"
proof -
  obtain ps where k: "object_key prefix userID oid = join_with slash (ps @ [''documents'', format_int userID, oid])"
    and n: "\<forall>c \<in> set (ps @ [''documents'', format_int userID, oid]). normal_comp c \<and> backslash \<notin> set c"
    by (rule object_key_join [OF assms, of userID])
  from n have "\<forall>c \<in> set (ps @ [''documents'', format_int userID, oid]). normal_comp c" by blast
  from split_join [OF _ no_slash_normal [OF this]]
  have sp: "split_on slash (object_key prefix userID oid) = ps @ [''documents'', format_int userID, oid]"
    unfolding k by blast
  have "is_hex (hd oid)" "oid \<noteq> []" using assms(4) by (auto simp: key_id_def list_all_iff)
  then have "\<not> has_prefix oid ''.upload-''"
    by (cases oid) (auto simp: has_prefix_iff is_hex_def is_digit_def)
  moreover have "object_key prefix userID oid \<noteq> dotdot"
  proof
    assume "object_key prefix userID oid = dotdot"
    with sp show False by (simp add: dotdot_def slash_def)
  qed
  ultimately show ?thesis
    using object_key_valid [OF assms] sp by (simp add: storable_def)
qed

lemma randomObjectID_key: "randomObjectID es = (Inr oid, es') \<Longrightarrow> key_id oid"
proof -
  assume "randomObjectID es = (Inr oid, es')"
  then obtain f where "oid = hex_encode (map f [0..<16])"
    by (auto simp: randomObjectID_def rand_read_def split: list.splits sum.splits prod.splits)
  moreover from this have "length oid = 32" by (simp add: length_hex_encode)
  ultimately show ?thesis using hex_encode_is_hex by (auto simp: key_id_def list_all_iff)
qed

subsection \<open>What the operations promise\<close>

text \<open>The row and the object an accepted upload stands for.\<close>

definition accepted_upload :: "(string \<Rightarrow> string) \<Rightarrow> ('p, 's, 'q, 'c) document_service \<Rightarrow> actor \<Rightarrow> upload_input \<Rightarrow> string \<Rightarrow> source \<Rightarrow> new_document \<Rightarrow> bool" where
  "accepted_upload ul s actor input oid body nd \<longleftrightarrow> in_Body input = Some body \<and> key_id oid \<and>
     source_fin body = io_EOF \<and> int (length (source_bytes body)) \<le> sv_maxUploadBytes s \<and>
     nd = \<lparr>nd_OwnerID = act_UserID actor, nd_OriginalName = file_name (in_OriginalName input),
           nd_MediaType = to_lower ul (trim_space (in_MediaType input)),
           nd_SizeBytes = int (length (source_bytes body)),
           nd_StorageKey = object_key (sv_storageKeyPrefix s) (act_UserID actor) oid\<rparr>"

text \<open>A service whose limit is a positive \<open>int64\<close> and whose key prefix is a relative path.\<close>

definition configured :: "('p, 's, 'q, 'c) document_service \<Rightarrow> bool" where
  "configured s \<longleftrightarrow> 0 < sv_maxUploadBytes s \<and> sv_maxUploadBytes s < 2 ^ 63 \<and>
     validS3Prefix (sv_storageKeyPrefix s) \<and> sv_storageKeyPrefix s \<noteq> dotdot \<and>
     \<not> path_is_abs (sv_storageKeyPrefix s)"

text \<open>The object id the service will use next.\<close>

definition generated :: "('p, 's, 'q, 'c) document_service \<Rightarrow> ('p, 's, 'q) surroundings \<Rightarrow> string \<Rightarrow> bool" where
  "generated s w oid \<longleftrightarrow> fst (sv_keyGenerator s (sur_random w)) = Inr oid"

definition first_job :: "document \<Rightarrow> document_job" where
  "first_job d = \<lparr>job_DocumentID = doc_ID d, job_Attempt = 1\<rparr>"

definition may_access :: "actor \<Rightarrow> document \<Rightarrow> bool" where
  "may_access a d \<longleftrightarrow> 0 < act_UserID a \<and> (is_admin a \<or> doc_OwnerID d = act_UserID a)"

lemma setPublicURL_fields [simp]:
  "doc_ID (setPublicURL s d) = doc_ID d" "doc_Status (setPublicURL s d) = doc_Status d"
  "doc_StorageKey (setPublicURL s d) = doc_StorageKey d" "doc_OwnerID (setPublicURL s d) = doc_OwnerID d"
  by (simp_all add: setPublicURL_def)

locale document_ports =
  repo: doc_repository "sv_repository s" docs rinv +
  store: object_store "st_Put (sv_storage s)" "st_Open (sv_storage s)" "st_Delete (sv_storage s)" objs sinv +
  queue: job_queue "dq_Enqueue (sv_queue s)" waiting
  for s :: "('p, 's, 'q, 'c) document_service" and docs rinv objs sinv waiting +
  assumes key_generator: "sv_keyGenerator s es = (Inr oid, es') \<Longrightarrow> key_id oid"
begin

abbreviation "Docs w \<equiv> docs (sur_repository w)"
abbreviation "Objs w \<equiv> objs (sur_storage w)"
abbreviation "Waiting w \<equiv> waiting (sur_queue w)"

definition sur_ok :: "('p, 's, 'q) surroundings \<Rightarrow> bool" where
  "sur_ok w \<longleftrightarrow> rinv (sur_repository w) \<and> sinv (sur_storage w)"

text \<open>The outcomes of \<open>persist\<close>, from the state in which the object has just been stored.\<close>

lemma persist_cases:
  assumes "sur_ok w" "storable (nd_StorageKey nd)" "persist s nd w = (r, w')"
  obtains (queued) d where "r = (Some (setPublicURL s d), None)" "sur_ok w'" "doc_created nd d (Docs w) (Docs w')"
      "Objs w' = Objs w" "Waiting w' = Waiting w @ [first_job d]"
  | (unqueued) d e where "r = (Some (setPublicURL s d), Some (Wrap ErrQueueUnavailable (Some e)))" "sur_ok w'"
      "doc_created nd d (Docs w) (Docs w')" "Objs w' = Objs w" "Waiting w' = Waiting w \<or> Waiting w' = Waiting w @ [first_job d]"
  | (undone) e where "r = (None, Some e)" "sur_ok w'"
      "Docs w' = Docs w \<or> (\<exists>d. doc_created nd d (Docs w) (Docs w'))"
      "same_except (nd_StorageKey nd) (Objs w) (Objs w')" "Waiting w' = Waiting w"
proof -
  from assms(1) have ri: "rinv (sur_repository w)" and si: "sinv (sur_storage w)" by (auto simp: sur_ok_def)
  obtain rc p' where c: "repo_Create (sv_repository s) nd (sur_repository w) = (rc, p')" by fastforce
  let ?w1 = "w\<lparr>sur_repository := p'\<rparr>"
  show ?thesis
  proof (cases rc)
    case (Inl err)
    from repo.create_err [OF ri c [unfolded Inl]]
    have p': "rinv p'" "docs p' = Docs w \<or> (\<exists>d. doc_created nd d (Docs w) (docs p'))" by auto
    obtain rd s' where d: "st_Delete (sv_storage s) (nd_StorageKey nd) (sur_storage w) = (rd, s')" by fastforce
    from store.del_frame [OF si assms(2) d] have s': "sinv s'" "same_except (nd_StorageKey nd) (Objs w) (objs s')" by auto
    have "w' = w\<lparr>sur_repository := p', sur_storage := s'\<rparr>" "\<exists>e. r = (None, Some e)"
      using assms(3) c d Inl by (auto simp: persist_def on_repository_def on_storage_def split: sum.splits)
    with p' s' show ?thesis by (auto simp: sur_ok_def intro: undone)
  next
    case (Inr d)
    from repo.create_ok [OF ri c [unfolded Inr]] have p': "rinv p'" "doc_created nd d (Docs w) (docs p')" by auto
    obtain rq q' where q: "dq_Enqueue (sv_queue s) (first_job d) (sur_queue w) = (rq, q')" by fastforce
    have id: "doc_ID (setPublicURL s d) = doc_ID d" by (simp add: setPublicURL_def)
    have jk: "job_ok (first_job d)" using p'(2) by (simp add: doc_created_def fresh_document_def job_ok_def first_job_def)
    have w': "w' = w\<lparr>sur_repository := p', sur_queue := q'\<rparr>"
      and r: "r = (Some (setPublicURL s d), case rq of Inl e \<Rightarrow> Some (Wrap ErrQueueUnavailable (Some e)) | Inr _ \<Rightarrow> None)"
      using assms(3) c q Inr
      by (auto simp: persist_def on_repository_def on_queue_def Let_def id first_job_def split: sum.splits)
    have ok: "sur_ok w'" "doc_created nd d (Docs w) (Docs w')" "Objs w' = Objs w" "sur_queue w' = q'"
      using w' p' si by (simp_all add: sur_ok_def)
    show ?thesis
    proof (cases rq)
      case (Inl e)
      with queue.enqueue_err [OF jk q [unfolded Inl]] r ok show ?thesis by (intro unqueued) auto
    next
      case (Inr u)
      with queue.enqueue_ok [OF jk q [unfolded Inr]] r ok show ?thesis by (intro queued) auto
    qed
  qed
qed

text \<open>The outcomes of an upload.\<close>

lemma create_cases:
  assumes "sur_ok w" "\<And>body. in_Body input = Some body \<Longrightarrow> proper_source body"
    "ds_Create ul s actor input w = (r, w')" "configured s"
  obtains (queued) oid body nd d where "generated s w oid" "accepted_upload ul s actor input oid body nd"
      "r = (Some (setPublicURL s d), None)" "sur_ok w'" "doc_created nd d (Docs w) (Docs w')"
      "Objs w' = (Objs w)(nd_StorageKey nd \<mapsto> source_bytes body)" "Waiting w' = Waiting w @ [first_job d]"
  | (unqueued) oid body nd d e where "generated s w oid" "accepted_upload ul s actor input oid body nd"
      "r = (Some (setPublicURL s d), Some (Wrap ErrQueueUnavailable (Some e)))" "sur_ok w'"
      "doc_created nd d (Docs w) (Docs w')" "Objs w' = (Objs w)(nd_StorageKey nd \<mapsto> source_bytes body)"
      "Waiting w' = Waiting w \<or> Waiting w' = Waiting w @ [first_job d]"
  | (undone) oid body nd e where "generated s w oid" "accepted_upload ul s actor input oid body nd" "r = (None, Some e)" "sur_ok w'"
      "Docs w' = Docs w \<or> (\<exists>d. doc_created nd d (Docs w) (Docs w'))"
      "same_except (nd_StorageKey nd) (Objs w) (Objs w')" "Waiting w' = Waiting w"
  | (not_stored) oid e where "generated s w oid" "key_id oid" "r = (None, Some e)" "sur_ok w'" "Docs w' = Docs w" "Waiting w' = Waiting w"
      "same_except (object_key (sv_storageKeyPrefix s) (act_UserID actor) oid) (Objs w) (Objs w')"
  | (rejected) e where "r = (None, Some e)" "sur_ok w'" "Docs w' = Docs w" "Objs w' = Objs w" "Waiting w' = Waiting w"
proof -
  let ?name = "file_name (in_OriginalName input)" and ?mt = "to_lower ul (trim_space (in_MediaType input))"
  show ?thesis
  proof (cases "act_UserID actor \<le> 0 \<or> invalid_upload s ?name ?mt input \<noteq> None")
    case True
    with assms(1,3) rejected show ?thesis by (auto simp: ds_Create_def Let_def split: if_splits)
  next
    case False
    then have u: "0 < act_UserID actor" and iv: "invalid_upload s ?name ?mt input = None" by auto
    then obtain body where body: "in_Body input = Some body" by (auto simp: invalid_upload_def split: if_splits)
    obtain rk x' where k: "sv_keyGenerator s (sur_random w) = (rk, x')" by fastforce
    show ?thesis
    proof (cases rk)
      case (Inl e)
      with assms(1,3) u iv k rejected show ?thesis
        by (auto simp: ds_Create_def Let_def on_random_def sur_ok_def)
    next
      case (Inr oid)
      from key_generator k Inr have oid: "key_id oid" by blast
      have gen: "generated s w oid" using k Inr by (simp add: generated_def)
      let ?key = "object_key (sv_storageKeyPrefix s) (act_UserID actor) oid"
        and ?r = "upload_reader body (sv_maxUploadBytes s)"
      have conf: "0 < sv_maxUploadBytes s" "sv_maxUploadBytes s < 2 ^ 63" "storable ?key"
        using assms(4) object_key_storable [OF _ _ _ oid] by (auto simp: configured_def)
      note sk = conf(3)
      have si: "sinv (sur_storage w)" using assms(1) by (simp add: sur_ok_def)
      let ?tot = "int (length (take (nat (sv_maxUploadBytes s)) (source_bytes body)))"
      have ui: "upload_inv ?tot ?r"
        using upload_inv_start [OF assms(2) [OF body]] conf by simp
      obtain rp c' s' where p: "st_Put (sv_storage s) ?key ?r ?mt (sur_storage w) = (rp, c', s')" by (metis prod_cases3)
      let ?w2 = "w\<lparr>sur_random := x', sur_storage := s'\<rparr>"
      have run: "ds_Create ul s actor input w = (case rp of
          Inl err \<Rightarrow> ((None, Some (if errors_is err errUploadTooLarge
                           then WithMessage ErrDocumentInvalidRequest ''file exceeds maximum upload size''
                           else Wrap ErrStorageUnavailable (Some err))), ?w2)
        | Inr _ \<Rightarrow> persist s \<lparr>nd_OwnerID = act_UserID actor, nd_OriginalName = ?name, nd_MediaType = ?mt,
                        nd_SizeBytes = cr_count c', nd_StorageKey = ?key\<rparr> ?w2)"
        using u iv k Inr p body
        by (simp add: ds_Create_def Let_def on_random_def store_upload_def on_storage_def split: sum.split)
      show ?thesis
      proof (cases rp)
        case (Inl e)
        from store.put_err [OF si sk ui p [unfolded Inl]] have "sinv s'" "same_except ?key (Objs w) (objs s')" by auto
        with Inl run assms(1,3) gen oid show ?thesis by (intro not_stored [of oid]) (auto simp: sur_ok_def)
      next
        case (Inr un)
        from store.put_ok [OF si sk ui, of ?mt c' s'] p Inr have s': "sinv s'"
          "objs s' = (Objs w)(?key \<mapsto> upload_content ?r)" "upload_fin ?r = io_EOF" "upload_fini ?tot c'" by auto
        have len: "int (length (source_bytes body)) \<le> sv_maxUploadBytes s" "source_fin body = io_EOF"
          using s'(3) by (auto simp: upload_fin_start errUploadTooLarge_def io_EOF_def split: if_splits)
        then have all: "take (nat (sv_maxUploadBytes s)) (source_bytes body) = source_bytes body" by simp
        let ?nd = "\<lparr>nd_OwnerID = act_UserID actor, nd_OriginalName = ?name, nd_MediaType = ?mt,
                        nd_SizeBytes = int (length (source_bytes body)), nd_StorageKey = ?key\<rparr>"
        have cnt: "cr_count c' = int (length (source_bytes body))"
          using s'(4) all by (simp add: upload_fini_def)
        have acc: "accepted_upload ul s actor input oid body ?nd"
          using body oid len by (simp add: accepted_upload_def)
        have obj: "Objs ?w2 = (Objs w)(?key \<mapsto> source_bytes body)"
          using s'(2) all by (simp add: upload_content_start)
        have ok2: "sur_ok ?w2" using assms(1) s'(1) by (simp add: sur_ok_def)
        from run Inr cnt assms(3) have pr: "persist s ?nd ?w2 = (r, w')" by simp
        show ?thesis
        proof (rule persist_cases [OF ok2 _ pr])
          show "storable (nd_StorageKey ?nd)" using sk by simp
        next
          fix d
          assume "r = (Some (setPublicURL s d), None)" "sur_ok w'" "doc_created ?nd d (Docs ?w2) (Docs w')"
            "Objs w' = Objs ?w2" "Waiting w' = Waiting ?w2 @ [first_job d]"
          with acc gen obj show ?thesis by (intro queued [of oid body ?nd d]) auto
        next
          fix d e
          assume "r = (Some (setPublicURL s d), Some (Wrap ErrQueueUnavailable (Some e)))" "sur_ok w'"
            "doc_created ?nd d (Docs ?w2) (Docs w')" "Objs w' = Objs ?w2"
            "Waiting w' = Waiting ?w2 \<or> Waiting w' = Waiting ?w2 @ [first_job d]"
          with acc gen obj show ?thesis by (intro unqueued [of oid body ?nd d e]) auto
        next
          fix e
          assume "r = (None, Some e)" "sur_ok w'" "Docs w' = Docs ?w2 \<or> (\<exists>d. doc_created ?nd d (Docs ?w2) (Docs w'))"
            "same_except (nd_StorageKey ?nd) (Objs ?w2) (Objs w')" "Waiting w' = Waiting ?w2"
          with acc gen obj show ?thesis by (intro undone [of oid body ?nd e]) (auto simp: same_except_def)
        qed
      qed
    qed
  qed
qed

text \<open>Reads: only the owner or an administrator sees a document, and nothing changes.\<close>

lemma get_frame:
  assumes "sur_ok w" "ds_Get s actor did w = (r, w')"
  shows "sur_ok w' \<and> Docs w' = Docs w \<and> sur_storage w' = sur_storage w \<and> sur_queue w' = sur_queue w"
proof -
  obtain g p' where g: "repo_GetByID (sv_repository s) did (sur_repository w) = (g, p')" by fastforce
  have "rinv (sur_repository w)" using assms(1) by (simp add: sur_ok_def)
  with g repo.get_ok [of _ did _ p'] repo.get_err [of _ did _ p'] have "rinv p' \<and> docs p' = Docs w" by (cases g) auto
  with assms g show ?thesis
    by (auto simp: ds_Get_def on_repository_def sur_ok_def split: sum.splits option.splits)
qed

lemma get_ok:
  assumes "sur_ok w" "ds_Get s actor did w = (Inr d, w')"
  obtains d0 where "Docs w did = Some d0" "may_access actor d0" "d = setPublicURL s d0" "doc_ID d = did"
proof -
  obtain g p' where g: "repo_GetByID (sv_repository s) did (sur_repository w) = (g, p')" by fastforce
  have ri: "rinv (sur_repository w)" using assms(1) by (simp add: sur_ok_def)
  from assms(2) g obtain d0 where d0: "g = Inr d0" "authorizeDocument actor d0 = None" "d = setPublicURL s d0"
    by (auto simp: ds_Get_def on_repository_def split: sum.splits option.splits)
  from repo.get_ok [OF ri g [unfolded d0(1)]] have "Docs w did = Some d0" "doc_ID d0 = did" by simp_all
  moreover have "may_access actor d0"
    using d0(2) by (auto simp: authorizeDocument_def may_access_def split: if_splits)
  ultimately show ?thesis using d0(3) by (intro that [of d0]) simp_all
qed

lemma download_ok:
  assumes "sur_ok w" "ds_Download s actor did w = (Inr (ob, d), w')"
    "\<And>d. Docs w did = Some d \<Longrightarrow> storable (doc_StorageKey d)"
  obtains d0 where "Docs w did = Some d0" "may_access actor d0" "doc_Status d0 = DocumentReady" "d = setPublicURL s d0"
    "source_fin (obj_Body ob) = io_EOF \<longrightarrow> Objs w (doc_StorageKey d0) = Some (source_bytes (obj_Body ob))"
    "sur_ok w'" "Docs w' = Docs w" "Objs w' = Objs w" "Waiting w' = Waiting w"
proof -
  obtain w1 where g: "ds_Get s actor did w = (Inr d, w1)" and st: "doc_Status d = DocumentReady"
    and o: "on_storage (st_Open (sv_storage s) (doc_StorageKey d)) w1 = (Inr ob, w')"
    using assms(2) by (auto simp: ds_Download_def split: prod.splits sum.splits if_splits)
  obtain d0 where d0: "Docs w did = Some d0" "may_access actor d0" "d = setPublicURL s d0" "doc_ID d = did"
    by (rule get_ok [OF assms(1) g])
  from get_frame [OF assms(1) g] have w1: "sur_ok w1" "Docs w1 = Docs w" "sur_storage w1 = sur_storage w" "sur_queue w1 = sur_queue w"
    by auto
  obtain s' where s': "st_Open (sv_storage s) (doc_StorageKey d) (sur_storage w1) = (Inr ob, s')" "w' = w1\<lparr>sur_storage := s'\<rparr>"
    using o by (auto simp: on_storage_def split: prod.splits)
  have "sinv (sur_storage w1)" "storable (doc_StorageKey d)"
    using w1(1) assms(3) [OF d0(1)] d0(3) by (auto simp: sur_ok_def)
  from store.open_ok [OF this s'(1)] w1 s'(2) d0 st show ?thesis
    by (intro that [of d0]) (auto simp: sur_ok_def)
qed

lemma delete_ok:
  assumes "sur_ok w" "ds_Delete s actor did w = (Inr (), w')"
  obtains d0 where "Docs w did = Some d0" "may_access actor d0" "Docs w' = (Docs w)(did := None)"
    "sur_ok w'" "sur_storage w' = sur_storage w" "sur_queue w' = sur_queue w"
proof -
  obtain d w1 where g: "ds_Get s actor did w = (Inr d, w1)"
    and del: "on_repository (repo_SoftDelete (sv_repository s) (doc_ID d)) w1 = (Inr (), w')"
    using assms(2) by (auto simp: ds_Delete_def split: prod.splits sum.splits)
  obtain d0 where d0: "Docs w did = Some d0" "may_access actor d0" "d = setPublicURL s d0" "doc_ID d = did"
    by (rule get_ok [OF assms(1) g])
  from get_frame [OF assms(1) g] have w1: "sur_ok w1" "Docs w1 = Docs w" "sur_storage w1 = sur_storage w" "sur_queue w1 = sur_queue w"
    by auto
  obtain p' where p': "repo_SoftDelete (sv_repository s) (doc_ID d) (sur_repository w1) = (Inr (), p')" "w' = w1\<lparr>sur_repository := p'\<rparr>"
    using del by (auto simp: on_repository_def split: prod.splits)
  have "rinv (sur_repository w1)" using w1(1) by (simp add: sur_ok_def)
  from repo.delete_ok [OF this p'(1)] w1 p'(2) d0 show ?thesis
    by (intro that [of d0]) (auto simp: sur_ok_def)
qed

text \<open>Refused accesses change no document, object or job.\<close>

lemma delete_refused:
  assumes "sur_ok w" "ds_Delete s actor did w = (r, w')" "\<And>d. Docs w did = Some d \<Longrightarrow> \<not> may_access actor d"
  shows "\<exists>e. r = Inl e \<and> Docs w' = Docs w \<and> sur_storage w' = sur_storage w \<and> sur_queue w' = sur_queue w"
proof -
  obtain g w1 where g: "ds_Get s actor did w = (g, w1)" by fastforce
  show ?thesis
  proof (cases g)
    case (Inl e)
    with assms(2) g get_frame [OF assms(1) g] show ?thesis by (auto simp: ds_Delete_def)
  next
    case (Inr d)
    with g assms(3) show ?thesis by (blast elim: get_ok [OF assms(1)])
  qed
qed

lemma list_ok:
  assumes "sur_ok w" "ds_List s actor pgn w = (Inr pag, w')"
  shows "0 < act_UserID actor \<and> Docs w' = Docs w \<and> length (page_Items pag) \<le> 100 \<and>
    sorted_wrt (\<lambda>a b. doc_ID b < doc_ID a) (page_Items pag) \<and>
    (\<forall>d \<in> set (page_Items pag). \<exists>d0. Docs w (doc_ID d) = Some d0 \<and> may_access actor d0 \<and> d = setPublicURL s d0)"
proof -
  let ?pn = "normalize_pagination (pgn_Page pgn) (pgn_PageSize pgn)"
  let ?owner = "if \<not> is_admin actor then Some (act_UserID actor) else None"
  have ri: "rinv (sur_repository w)" using assms(1) by (simp add: sur_ok_def)
  obtain items cnt p' where l: "repo_List (sv_repository s) ?owner ?pn (sur_repository w) = (Inr (items, cnt), p')"
    and pag: "page_Items pag = map (setPublicURL s) items" and w': "w' = w\<lparr>sur_repository := p'\<rparr>"
    and u: "0 < act_UserID actor"
    using assms(2) by (auto simp: ds_List_def Let_def on_repository_def split: prod.splits sum.splits if_splits)
  from repo.list_ok [OF ri l] have lo: "docs p' = Docs w" "int (length items) \<le> page_limit ?pn"
    "sorted_wrt (\<lambda>a b. doc_ID b < doc_ID a) items"
    "\<forall>d \<in> set items. Docs w (doc_ID d) = Some d \<and> (\<forall>u. ?owner = Some u \<longrightarrow> doc_OwnerID d = u)" by auto
  have "length items \<le> 100"
    using lo(2) normalize_pagination_range [of "pgn_Page pgn" "pgn_PageSize pgn"] by (simp add: page_limit_normalized)
  moreover have "\<forall>d \<in> set items. may_access actor d" using lo(4) u by (auto simp: may_access_def)
  ultimately show ?thesis using lo pag w' u by (auto simp: sorted_wrt_map)
qed

text \<open>Frames of the operations that only read, and of deletions.\<close>

lemma list_frame:
  assumes "sur_ok w" "ds_List s actor pgn w = (r, w')"
  shows "sur_ok w' \<and> Docs w' = Docs w \<and> sur_storage w' = sur_storage w \<and> sur_queue w' = sur_queue w"
proof -
  let ?pn = "normalize_pagination (pgn_Page pgn) (pgn_PageSize pgn)"
  let ?owner = "if \<not> is_admin actor then Some (act_UserID actor) else None"
  obtain l p' where l: "repo_List (sv_repository s) ?owner ?pn (sur_repository w) = (l, p')" by fastforce
  have "rinv (sur_repository w)" using assms(1) by (simp add: sur_ok_def)
  with l repo.list_ok [of _ ?owner ?pn _ _ p'] repo.list_err [of _ ?owner ?pn _ p']
  have "rinv p' \<and> docs p' = Docs w" by (cases l) auto
  with assms l show ?thesis
    by (auto simp: ds_List_def on_repository_def sur_ok_def Let_def split: sum.splits if_splits)
qed

lemma download_frame:
  assumes "sur_ok w" "ds_Download s actor did w = (r, w')" "\<And>d. Docs w did = Some d \<Longrightarrow> storable (doc_StorageKey d)"
  shows "sur_ok w' \<and> Docs w' = Docs w \<and> Objs w' = Objs w \<and> sur_queue w' = sur_queue w"
proof -
  obtain g w1 where g: "ds_Get s actor did w = (g, w1)" by fastforce
  note f = get_frame [OF assms(1) g]
  show ?thesis
  proof (cases "\<exists>d. g = Inr d \<and> doc_Status d = DocumentReady")
    case False
    with assms(2) g f show ?thesis by (cases g) (auto simp: ds_Download_def)
  next
    case True
    then obtain d where d: "g = Inr d" "doc_Status d = DocumentReady" by blast
    obtain d0 where "Docs w did = Some d0" "d = setPublicURL s d0" by (rule get_ok [OF assms(1) g [unfolded d(1)]])
    then have k: "storable (doc_StorageKey d)" using assms(3) by simp
    obtain ob s' where o: "st_Open (sv_storage s) (doc_StorageKey d) (sur_storage w1) = (ob, s')" by fastforce
    have "sinv (sur_storage w1)" using f by (auto simp: sur_ok_def)
    from store.open_frame [OF this k o] assms(2) g d o f show ?thesis
      by (auto simp: ds_Download_def on_storage_def sur_ok_def split: sum.splits)
  qed
qed

lemma delete_frame:
  assumes "sur_ok w" "ds_Delete s actor did w = (r, w')"
  shows "sur_ok w' \<and> (Docs w' = Docs w \<or> Docs w' = (Docs w)(did := None)) \<and>
    sur_storage w' = sur_storage w \<and> sur_queue w' = sur_queue w"
proof -
  obtain g w1 where g: "ds_Get s actor did w = (g, w1)" by fastforce
  note f = get_frame [OF assms(1) g]
  show ?thesis
  proof (cases g)
    case (Inl e)
    with assms(2) g f show ?thesis by (auto simp: ds_Delete_def)
  next
    case (Inr d)
    have id: "doc_ID d = did" by (rule get_ok [OF assms(1) g [unfolded Inr]])
    obtain p' where p': "repo_SoftDelete (sv_repository s) did (sur_repository w1) = (r, p')" "w' = w1\<lparr>sur_repository := p'\<rparr>"
      using assms(2) g Inr id by (auto simp: ds_Delete_def on_repository_def split: prod.splits)
    have "rinv (sur_repository w1)" using f by (simp add: sur_ok_def)
    from repo.delete_ok [OF this, of did p'] repo.delete_err [OF this, of did _ p'] p' f show ?thesis
      by (cases r) (auto simp: sur_ok_def)
  qed
qed

end

end
