(* ===== verification/Document_Worker.thy ===== *)
theory Document_Worker
  imports Document_Service
begin

text \<open>
  \<open>internal/service/document_worker.go\<close>: processing one job (claim the document, read its
  object, check its size, record its SHA-256) and the loop over the queue. \<open>sha256\<close> is a
  parameter, of which only the length of its digests is assumed, where it is needed.
\<close>

record ('p, 's) document_worker =
  wk_repository :: "'p document_repository"
  wk_storage :: "('s, upload_reader) object_storage"

definition NewDocumentWorker :: "'p document_repository \<Rightarrow> ('s, upload_reader) object_storage \<Rightarrow> ('p, 's) document_worker" where
  "NewDocumentWorker repository storage = \<lparr>wk_repository = repository, wk_storage = storage\<rparr>"

text \<open>\<open>fail\<close>: the message is cut to 512 bytes, in the middle of a rune if need be.\<close>

definition failure_message :: "go_error \<Rightarrow> string" where
  "failure_message reason = (let m = error_text reason in if length m > 512 then take 512 m else m)"

definition wk_fail :: "('p, 's) document_worker \<Rightarrow> int \<Rightarrow> go_error \<Rightarrow> (('p, 's, 'q) surroundings, go_error, unit) call" where
  "wk_fail k did reason w =
     (case on_repository (repo_MarkFailed (wk_repository k) did (failure_message reason)) w of
        (Inl err, w') \<Rightarrow> (Inl (FmtWrap (error_text reason @ ''; mark failed: '' @ error_text err) err), w')
      | (Inr _, w') \<Rightarrow> (Inl reason, w'))"

definition size_mismatch :: "int \<Rightarrow> int \<Rightarrow> go_error" where
  "size_mismatch metadata actual =
     FmtError (''size mismatch: metadata='' @ format_int metadata @ '' actual='' @ format_int actual)"

definition wk_finish :: "(bytes \<Rightarrow> bytes) \<Rightarrow> ('p, 's) document_worker \<Rightarrow> document \<Rightarrow> stored_object
    \<Rightarrow> (('p, 's, 'q) surroundings, go_error, unit) call" where
  \<comment> \<open>from the opened object on: hash it, compare sizes, record the digest\<close>
  "wk_finish sha256 k document object w =
     (case io_copy append_write source_read (obj_Body object) [] of
        None \<Rightarrow> (Inl (Sentinel ''diverges'' ''''), w)
      | Some (Some err, _, _) \<Rightarrow> wk_fail k (doc_ID document) (FmtWrap (''read object: '' @ error_text err) err) w
      | Some (None, _, content) \<Rightarrow>
          (let n = int (length content)
           in if n \<noteq> doc_SizeBytes document then wk_fail k (doc_ID document) (size_mismatch (doc_SizeBytes document) n) w
              else on_repository (repo_MarkReady (wk_repository k) (doc_ID document) (hex_encode (sha256 content)) n) w))"

definition wk_Process :: "(bytes \<Rightarrow> bytes) \<Rightarrow> ('p, 's) document_worker \<Rightarrow> document_job
    \<Rightarrow> (('p, 's, 'q) surroundings, go_error, unit) call" where
  "wk_Process sha256 k job w =
     (case on_repository (repo_GetByID (wk_repository k) (job_DocumentID job)) w of
        (Inl err, w1) \<Rightarrow> (Inl err, w1)
      | (Inr document, w1) \<Rightarrow>
          if doc_Status document = DocumentReady then (Inr (), w1)
          else
            (case on_repository (repo_ClaimProcessing (wk_repository k) (doc_ID document)) w1 of
               (Inl err, w2) \<Rightarrow> (Inl err, w2)
             | (Inr claimed, w2) \<Rightarrow>
                 if \<not> claimed then (Inr (), w2)
                 else
                   (case on_storage (st_Open (wk_storage k) (doc_StorageKey document)) w2 of
                      (Inl err, w3) \<Rightarrow> wk_fail k (doc_ID document) (FmtWrap (''open object: '' @ error_text err) err) w3
                    | (Inr object, w3) \<Rightarrow> wk_finish sha256 k document object w3)))"

text \<open>
  \<open>Run\<close> returns only by an error: the context's, one of \<open>Consume\<close> or \<open>Ack\<close>, or that of a retry.
  The context is the script of what \<open>ctx.Err()\<close> answers, one answer per iteration. A run that
  goes on for ever is \<open>None\<close>.
\<close>

partial_function (option) wk_Run ::
    "(bytes \<Rightarrow> bytes) \<Rightarrow> ('p, 's) document_worker \<Rightarrow> ('q, 'c) document_queue \<Rightarrow> ('q, 'c) claimed_document_job
       \<Rightarrow> ctx \<Rightarrow> ('p, 's, 'q) surroundings \<Rightarrow> (go_error \<times> ('p, 's, 'q) surroundings) option" where
  "wk_Run sha256 k queue cj c w =
     (case ctx_err c of
        (Some err, c') \<Rightarrow> Some (err, w)
      | (None, c') \<Rightarrow>
          (case on_queue (dq_Consume queue) w of
             (Inl err, w1) \<Rightarrow> Some (err, w1)
           | (Inr claimed, w1) \<Rightarrow>
               (case wk_Process sha256 k (cj_Job cj claimed) w1 of
                  (Inl err, w2) \<Rightarrow>
                    (case on_queue (cj_Retry cj claimed err) w2 of
                       (Inl retryErr, w3) \<Rightarrow>
                         Some (FmtWrap (''process job: '' @ error_text err @ ''; retry: '' @ error_text retryErr) retryErr, w3)
                     | (Inr _, w3) \<Rightarrow> wk_Run sha256 k queue cj c' w3)
                | (Inr _, w2) \<Rightarrow>
                    (case on_queue (cj_Ack cj claimed) w2 of
                       (Inl err, w3) \<Rightarrow> Some (err, w3)
                     | (Inr _, w3) \<Rightarrow> wk_Run sha256 k queue cj c' w3))))"

declare wk_Run.simps [code]

subsection \<open>One job\<close>

text \<open>
  What processing may leave: nothing changed; the document claimed; or claimed and then marked
  ready with the digest of its object, or failed.
\<close>

definition worker_step :: "(bytes \<Rightarrow> bytes) \<Rightarrow> (string \<Rightarrow> bytes option) \<Rightarrow> document \<Rightarrow> document \<Rightarrow> bool" where
  "worker_step sha256 obj d d' \<longleftrightarrow> doc_claimable d \<and>
     (\<exists>u v. d' = doc_claim u d \<or> (\<exists>m. d' = doc_fail m v (doc_claim u d)) \<or>
        (\<exists>b. obj (doc_StorageKey d) = Some b \<and> doc_SizeBytes d = int (length b) \<and>
             d' = doc_ready (hex_encode (sha256 b)) (int (length b)) v (doc_claim u d)))"

definition worker_change :: "(bytes \<Rightarrow> bytes) \<Rightarrow> (string \<Rightarrow> bytes option) \<Rightarrow> int \<Rightarrow> doc_map \<Rightarrow> doc_map \<Rightarrow> bool" where
  "worker_change sha256 obj did m m' \<longleftrightarrow>
     m' = m \<or> (\<exists>d d'. m did = Some d \<and> worker_step sha256 obj d d' \<and> m' = m(did \<mapsto> d'))"

lemma valid_digest: "length (sha256 b) = 32 \<Longrightarrow> valid_checksum (hex_encode (sha256 b))"
  using hex_encode_is_hex by (auto simp: valid_checksum_def length_hex_encode list_all_iff)

lemma failure_message_length: "length (failure_message e) \<le> 512"
  by (simp add: failure_message_def Let_def)

locale worker_ports =
  repo: doc_repository "wk_repository k" docs rinv +
  store: object_store "st_Put (wk_storage k)" "st_Open (wk_storage k)" "st_Delete (wk_storage k)" objs sinv
  for k :: "('p, 's) document_worker" and docs rinv objs sinv
begin

abbreviation "Docs w \<equiv> docs (sur_repository w)"
abbreviation "Objs w \<equiv> objs (sur_storage w)"

definition sur_ok :: "('p, 's, 'q) surroundings \<Rightarrow> bool" where
  "sur_ok w \<longleftrightarrow> rinv (sur_repository w) \<and> sinv (sur_storage w)"

text \<open>\<open>fail\<close> on a claimed document.\<close>

lemma fail_step:
  assumes "sur_ok w" "Docs w did = Some d" "wk_fail k did reason w = (r, w')"
  shows "sur_ok w' \<and> (\<exists>e. r = Inl e) \<and> sur_storage w' = sur_storage w \<and> sur_queue w' = sur_queue w \<and>
    (Docs w' = Docs w \<or> (\<exists>m v. Docs w' = (Docs w)(did \<mapsto> doc_fail m v d)))"
proof -
  obtain mr p' where m: "repo_MarkFailed (wk_repository k) did (failure_message reason) (sur_repository w) = (mr, p')"
    by fastforce
  have ri: "rinv (sur_repository w)" using assms(1) by (simp add: sur_ok_def)
  from m repo.failed_ok [OF ri failure_message_length, of did reason p'] repo.failed_err [OF ri failure_message_length, of did reason _ p']
  have "rinv p' \<and> (docs p' = Docs w \<or> doc_changed is_processing (doc_fail (failure_message reason)) did (Docs w) (docs p'))"
    by (cases mr) auto
  with assms(2) have "rinv p'" "docs p' = Docs w \<or> (\<exists>m v. docs p' = (Docs w)(did \<mapsto> doc_fail m v d))"
    by (auto simp: doc_changed_def)
  moreover have "w' = w\<lparr>sur_repository := p'\<rparr>" "\<exists>e. r = Inl e"
    using assms(3) m by (auto simp: wk_fail_def on_repository_def split: sum.splits)
  ultimately show ?thesis using assms(1) by (simp add: sur_ok_def)
qed

lemma finish_step:
  assumes ok: "sur_ok w" and d: "Docs w (doc_ID d0) = Some d" "doc_claimable d0" "d = doc_claim u d0"
    and body: "source_fin (obj_Body ob) = io_EOF \<longrightarrow> Objs w (doc_StorageKey d0) = Some (source_bytes (obj_Body ob))"
    and sha: "\<And>b. length (sha256 b) = 32"
    and f: "wk_finish sha256 k d0 ob w = (r, w')"
  shows "sur_ok w' \<and> sur_storage w' = sur_storage w \<and> sur_queue w' = sur_queue w \<and>
    (\<exists>d'. worker_step sha256 (Objs w) d0 d' \<and> Docs w' = (Docs w)(doc_ID d0 \<mapsto> d') \<and>
       (r = Inr () \<longrightarrow> doc_Status d' = DocumentReady))"
proof -
  have same: "(Docs w)(doc_ID d0 \<mapsto> d) = Docs w" using d(1) by auto
  have claimed: "worker_step sha256 (Objs w) d0 d" using d by (auto simp: worker_step_def)
  have failed: ?thesis if "wk_fail k (doc_ID d0) reason w = (r, w')" for reason
  proof -
    from fail_step [OF ok d(1) that] obtain e where e: "r = Inl e" "sur_ok w'" "sur_storage w' = sur_storage w"
      "sur_queue w' = sur_queue w" "Docs w' = Docs w \<or> (\<exists>m v. Docs w' = (Docs w)(doc_ID d0 \<mapsto> doc_fail m v d))" by blast
    moreover have "worker_step sha256 (Objs w) d0 (doc_fail m v d)" for m v
      using d by (auto simp: worker_step_def)
    ultimately show ?thesis using claimed same by (metis sum.distinct(1))
  qed
  from plain.copy_append [of "obj_Body ob" "[]"] obtain src where
    c: "io_copy append_write source_read (obj_Body ob) [] =
      Some (if source_fin (obj_Body ob) = io_EOF then None else Some (source_fin (obj_Body ob)), src, source_bytes (obj_Body ob))"
    by auto
  show ?thesis
  proof (cases "source_fin (obj_Body ob) = io_EOF \<and> int (length (source_bytes (obj_Body ob))) = doc_SizeBytes d0")
    case False
    with f c failed show ?thesis by (auto simp: wk_finish_def Let_def split: if_splits)
  next
    case True
    let ?b = "source_bytes (obj_Body ob)"
    let ?c = "hex_encode (sha256 ?b)" and ?n = "int (length ?b)"
    have m: "on_repository (repo_MarkReady (wk_repository k) (doc_ID d0) ?c ?n) w = (r, w')"
      using f c True by (simp add: wk_finish_def Let_def)
    obtain p' where p': "repo_MarkReady (wk_repository k) (doc_ID d0) ?c ?n (sur_repository w) = (r, p')"
      and w': "w' = w\<lparr>sur_repository := p'\<rparr>" using m by (auto simp: on_repository_def split: prod.splits)
    have ri: "rinv (sur_repository w)" using ok by (simp add: sur_ok_def)
    have vc: "valid_checksum (hex_encode (sha256 x))" for x using sha by (intro valid_digest)
    have b: "Objs w (doc_StorageKey d0) = Some ?b" using body True by blast
    have ready: "worker_step sha256 (Objs w) d0 (doc_ready ?c ?n v d)" for v
      using d b True by (auto simp: worker_step_def)
    have ch: "\<exists>v. docs p' = (Docs w)(doc_ID d0 \<mapsto> doc_ready ?c ?n v d)"
      if "doc_changed is_processing (doc_ready ?c ?n) (doc_ID d0) (Docs w) (docs p')"
      using that d(1) by (auto simp: doc_changed_def)
    show ?thesis
    proof (cases r)
      case (Inl e)
      from repo.ready_err [OF ri vc p' [unfolded Inl]] ch
      have "rinv p'" "docs p' = Docs w \<or> (\<exists>v. docs p' = (Docs w)(doc_ID d0 \<mapsto> doc_ready ?c ?n v d))" by auto
      with Inl w' ok ready claimed same show ?thesis unfolding sur_ok_def
        by (metis sum.distinct(1) surroundings.select_convs(1,2,3) surroundings.surjective surroundings.update_convs(1))
    next
      case (Inr x)
      from repo.ready_ok [OF ri vc, of "doc_ID d0" ?b ?n p'] p' Inr ch
      obtain v where "rinv p'" "docs p' = (Docs w)(doc_ID d0 \<mapsto> doc_ready ?c ?n v d)" by auto
      with w' ok ready show ?thesis unfolding sur_ok_def
        by (intro conjI exI [of _ "doc_ready ?c ?n v d"]) (auto simp: doc_ready_def)
    qed
  qed
qed

text \<open>
  Processing a job changes at most its document, and that by a worker step; an error-free
  return means the document is ready, or there was nothing to claim.
\<close>

lemma process_step:
  assumes ok: "sur_ok w" and keys: "\<And>d. Docs w (job_DocumentID job) = Some d \<Longrightarrow> storable (doc_StorageKey d)"
    and sha: "\<And>b. length (sha256 b) = 32"
    and p: "wk_Process sha256 k job w = (r, w')"
  shows "sur_ok w' \<and> Objs w' = Objs w \<and> sur_queue w' = sur_queue w \<and>
    worker_change sha256 (Objs w) (job_DocumentID job) (Docs w) (Docs w') \<and>
    (r = Inr () \<longrightarrow> (\<exists>d. Docs w' (job_DocumentID job) = Some d \<and> \<not> doc_claimable d \<and>
       (Docs w' \<noteq> Docs w \<longrightarrow> doc_Status d = DocumentReady)))"
proof -
  let ?did = "job_DocumentID job"
  have ri: "rinv (sur_repository w)" and si: "sinv (sur_storage w)" using ok by (auto simp: sur_ok_def)
  obtain g p1 where g: "repo_GetByID (wk_repository k) ?did (sur_repository w) = (g, p1)" by fastforce
  show ?thesis
  proof (cases g)
    case (Inl e)
    from repo.get_err [OF ri g [unfolded Inl]] Inl p g ok show ?thesis
      by (auto simp: wk_Process_def on_repository_def sur_ok_def worker_change_def)
  next
    case (Inr d)
    from repo.get_ok [OF ri g [unfolded Inr]] have d: "rinv p1" "docs p1 = Docs w" "Docs w ?did = Some d" "doc_ID d = ?did"
      by auto
    obtain cl p2 where c: "repo_ClaimProcessing (wk_repository k) (doc_ID d) p1 = (cl, p2)" by fastforce
    let ?w2 = "w\<lparr>sur_repository := p2\<rparr>"
    consider (ready) "doc_Status d = DocumentReady" | (lost) e where "doc_Status d \<noteq> DocumentReady" "cl = Inl e"
      | (not_claimed) "doc_Status d \<noteq> DocumentReady" "cl = Inr False"
      | (claimed) "doc_Status d \<noteq> DocumentReady" "cl = Inr True"
      by (cases cl) auto
    then show ?thesis
    proof cases
      case ready
      with p g Inr d ok show ?thesis
        by (auto simp: wk_Process_def on_repository_def sur_ok_def worker_change_def doc_claimable_def status_defs)
    next
      case lost
      from repo.claim_err [OF d(1) c [unfolded lost(2)]] have
        p2: "rinv p2" "docs p2 = Docs w \<or> doc_changed doc_claimable doc_claim (doc_ID d) (Docs w) (docs p2)"
        using d(2) by auto
      then have "worker_change sha256 (Objs w) ?did (Docs w) (docs p2)"
        using d(4) by (auto simp: worker_change_def doc_changed_def worker_step_def)
      with p g Inr lost c p2 ok show ?thesis
        by (auto simp: wk_Process_def on_repository_def sur_ok_def)
    next
      case not_claimed
      from repo.claim_ok [OF d(1) c [unfolded not_claimed(2)]] d have
        "rinv p2" "docs p2 = Docs w" "\<not> doc_claimable d" by auto
      with p g Inr not_claimed c ok d(3) show ?thesis
        by (auto simp: wk_Process_def on_repository_def sur_ok_def worker_change_def)
    next
      case claimed
      from repo.claim_ok [OF d(1) c [unfolded claimed(2)]] d obtain u where
        p2: "rinv p2" "doc_claimable d" "docs p2 = (Docs w)(?did \<mapsto> doc_claim u d)"
        by (auto simp: doc_changed_def)
      obtain o3 s3 where o3: "st_Open (wk_storage k) (doc_StorageKey d) (sur_storage w) = (o3, s3)" by fastforce
      let ?w3 = "w\<lparr>sur_repository := p2, sur_storage := s3\<rparr>"
      have s3: "sinv s3" "objs s3 = Objs w"
        using store.open_frame [OF si keys [OF d(3)] o3] by auto
      have ok3: "sur_ok ?w3" and d3: "Docs ?w3 ?did = Some (doc_claim u d)" using p2 s3 by (simp_all add: sur_ok_def)
      have run: "wk_Process sha256 k job w = (case o3 of
          Inl err \<Rightarrow> wk_fail k ?did (FmtWrap (''open object: '' @ error_text err) err) ?w3
        | Inr ob \<Rightarrow> wk_finish sha256 k d ob ?w3)"
        using g Inr claimed c o3 d(4) by (simp add: wk_Process_def on_repository_def on_storage_def split: sum.split)
      have change: "worker_change sha256 (Objs w) ?did (Docs w) ((Docs ?w3)(?did \<mapsto> d'))" if "worker_step sha256 (Objs w) d d'" for d'
        using that d(3) p2(3) by (auto simp: worker_change_def)
      show ?thesis
      proof (cases o3)
        case (Inl e)
        with run p have "wk_fail k ?did (FmtWrap (''open object: '' @ error_text e) e) ?w3 = (r, w')" by simp
        from fail_step [OF ok3 d3 this] obtain e' where e': "r = Inl e'" "sur_ok w'" "sur_storage w' = s3" "sur_queue w' = sur_queue w"
          "Docs w' = Docs ?w3 \<or> (\<exists>m v. Docs w' = (Docs ?w3)(?did \<mapsto> doc_fail m v (doc_claim u d)))" by auto
        have "worker_step sha256 (Objs w) d (doc_claim u d)" "worker_step sha256 (Objs w) d (doc_fail m v (doc_claim u d))" for m v
          using p2(2) by (auto simp: worker_step_def)
        note ch = this [THEN change]
        have "(Docs ?w3)(?did \<mapsto> doc_claim u d) = Docs ?w3" using p2(3) by simp
        with e' s3 ch show ?thesis by auto
      next
        case (Inr ob)
        with run p have fin: "wk_finish sha256 k d ob ?w3 = (r, w')" by simp
        have "source_fin (obj_Body ob) = io_EOF \<longrightarrow> Objs ?w3 (doc_StorageKey d) = Some (source_bytes (obj_Body ob))"
          using store.open_ok [OF si keys [OF d(3)] o3 [unfolded Inr]] s3 by simp
        from finish_step [OF ok3 _ p2(2) refl this sha fin] d3 d(4) obtain d' where
          f: "sur_ok w'" "sur_storage w' = s3" "sur_queue w' = sur_queue w" "worker_step sha256 (Objs w) d d'"
          "Docs w' = (Docs ?w3)(?did \<mapsto> d')" "r = Inr () \<longrightarrow> doc_Status d' = DocumentReady"
          using s3(2) by auto
        with change [OF f(4)] s3(2) show ?thesis by (auto simp: doc_claimable_def status_defs)
      qed
    qed
  qed
qed

end

end
