(* ===== verification/File_System.thy ===== *)
theory File_System
  imports Storage_Keys Io_Readers "HOL-Library.Sublist" "HOL-Library.AList"
begin

text \<open>
  The part of a Unix file system the local storage adapter uses, through Go's \<open>os\<close> and
  \<open>filepath\<close>: a tree of directories, files and symbolic links indexed by absolute component
  lists, path resolution with its limit on links, and the calls \<open>MkdirAll\<close>, \<open>CreateTemp\<close>,
  \<open>Write\<close>, \<open>Rename\<close>, \<open>Remove\<close>, \<open>Open\<close> and \<open>EvalSymlinks\<close>. Every call may also fail
  with an I/O error, as a script decides. Modes, hard links and concurrent writers are left out.
\<close>

subsection \<open>The tree and path resolution\<close>

datatype node = Dir | File bytes | Link string

type_synonym fs = "string list \<Rightarrow> node option"

function walk :: "nat \<Rightarrow> fs \<Rightarrow> string list \<Rightarrow> string list \<Rightarrow> errno + string list" where
  "walk n fs cur [] = Inr cur"
| "walk n fs cur (c # cs) =
     (if c = [] \<or> c = dot then walk n fs cur cs
      else if c = dotdot then walk n fs (butlast cur) cs
      else case fs (cur @ [c]) of
             None \<Rightarrow> Inl ENOENT
           | Some Dir \<Rightarrow> walk n fs (cur @ [c]) cs
           | Some (File _) \<Rightarrow> if cs = [] then Inr (cur @ [c]) else Inl ENOTDIR
           | Some (Link t) \<Rightarrow>
               (case n of
                  0 \<Rightarrow> Inl ELOOP
                | Suc m \<Rightarrow> walk m fs (if path_is_abs t then [] else cur) (split_on slash t @ cs)))"
  by pat_completeness auto
termination
  by (relation "measures [\<lambda>(n, fs, cur, cs). n, \<lambda>(n, fs, cur, cs). length cs]") auto

text \<open>The kernel gives up after 40 links, \<open>filepath.EvalSymlinks\<close> after 255.\<close>

definition kernel_resolve :: "fs \<Rightarrow> string \<Rightarrow> errno + string list" where
  "kernel_resolve fs p = walk 40 fs [] (split_on slash p)"

definition eval_resolve :: "fs \<Rightarrow> string \<Rightarrow> errno + string list" where
  "eval_resolve fs p = walk 255 fs [] (split_on slash p)"

definition abs_path :: "string list \<Rightarrow> string" where
  "abs_path cs = slash # join_with slash cs"

declare walk.simps(2) [simp del]

definition plain_comp :: "string \<Rightarrow> bool" where
  "plain_comp c \<longleftrightarrow> c \<noteq> [] \<and> c \<noteq> dot \<and> c \<noteq> dotdot"

lemma walk_skip: "c = [] \<or> c = dot \<Longrightarrow> walk n fs cur (c # cs) = walk n fs cur cs"
  by (auto simp: walk.simps(2))

lemma walk_up: "walk n fs cur (dotdot # cs) = walk n fs (butlast cur) cs"
  by (simp add: walk.simps(2) dotdot_def dot_def)

lemma walk_dir: "plain_comp c \<Longrightarrow> fs (cur @ [c]) = Some Dir \<Longrightarrow> walk n fs cur (c # cs) = walk n fs (cur @ [c]) cs"
  by (simp add: walk.simps(2) plain_comp_def)

lemma walk_file: "plain_comp c \<Longrightarrow> fs (cur @ [c]) = Some (File b) \<Longrightarrow>
    walk n fs cur (c # cs) = (if cs = [] then Inr (cur @ [c]) else Inl ENOTDIR)"
  by (simp add: walk.simps(2) plain_comp_def)

lemma walk_link: "plain_comp c \<Longrightarrow> fs (cur @ [c]) = Some (Link t) \<Longrightarrow>
    walk (Suc m) fs cur (c # cs) = walk m fs (if path_is_abs t then [] else cur) (split_on slash t @ cs)"
  by (simp add: walk.simps(2) plain_comp_def)

lemma walk_missing: "plain_comp c \<Longrightarrow> fs (cur @ [c]) = None \<Longrightarrow> walk n fs cur (c # cs) = Inl ENOENT"
  by (simp add: walk.simps(2) plain_comp_def)

text \<open>Successful resolutions, as an induction principle: one case for each kind of step.\<close>

lemma walk_Inr_induct [consumes 1, case_names stop skip up dir leaf link]:
  assumes "walk n fs cur cs = Inr p"
    and stop: "\<And>n cur. Q n cur [] cur"
    and skip: "\<And>n cur c cs p. c = [] \<or> c = dot \<Longrightarrow> walk n fs cur cs = Inr p \<Longrightarrow> Q n cur cs p \<Longrightarrow> Q n cur (c # cs) p"
    and up: "\<And>n cur cs p. walk n fs (butlast cur) cs = Inr p \<Longrightarrow> Q n (butlast cur) cs p \<Longrightarrow> Q n cur (dotdot # cs) p"
    and dir: "\<And>n cur c cs p. plain_comp c \<Longrightarrow> fs (cur @ [c]) = Some Dir \<Longrightarrow> walk n fs (cur @ [c]) cs = Inr p \<Longrightarrow>
          Q n (cur @ [c]) cs p \<Longrightarrow> Q n cur (c # cs) p"
    and leaf: "\<And>n cur c b. plain_comp c \<Longrightarrow> fs (cur @ [c]) = Some (File b) \<Longrightarrow> Q n cur [c] (cur @ [c])"
    and link: "\<And>m cur c t cs p. plain_comp c \<Longrightarrow> fs (cur @ [c]) = Some (Link t) \<Longrightarrow>
          walk m fs (if path_is_abs t then [] else cur) (split_on slash t @ cs) = Inr p \<Longrightarrow>
          Q m (if path_is_abs t then [] else cur) (split_on slash t @ cs) p \<Longrightarrow> Q (Suc m) cur (c # cs) p"
  shows "Q n cur cs p"
  using assms(1)
proof (induction n fs\<equiv>fs cur cs rule: walk.induct)
  case (1 n cur)
  then show ?case using stop by simp
next
  case (2 n cur c cs)
  consider "c = [] \<or> c = dot" | "c = dotdot" | "plain_comp c"
    by (auto simp: plain_comp_def)
  then show ?case
  proof cases
    case 1
    with 2 show ?thesis by (auto simp: walk_skip intro: skip)
  next
    case c: 2
    then have n: "\<not> (c = [] \<or> c = dot)" by (simp add: dotdot_def dot_def)
    from c "2.prems" have "walk n fs (butlast cur) cs = Inr p" by (simp add: walk_up)
    with "2.hyps"(2) [OF n c] c show ?thesis by (auto intro: up)
  next
    case 3
    then have c: "\<not> (c = [] \<or> c = dot)" "c \<noteq> dotdot" by (auto simp: plain_comp_def)
    consider "fs (cur @ [c]) = None" | "fs (cur @ [c]) = Some Dir" | b where "fs (cur @ [c]) = Some (File b)"
      | t where "fs (cur @ [c]) = Some (Link t)"
      by (metis not_None_eq node.exhaust)
    then show ?thesis
    proof cases
      case 1
      with 3 2 show ?thesis by (simp add: walk_missing)
    next
      case d: 2
      with 3 "2.prems" have "walk n fs (cur @ [c]) cs = Inr p" by (simp add: walk_dir)
      with "2.hyps"(3) [OF c d] 3 d show ?thesis by (auto intro: dir)
    next
      case f: 3
      with 3 "2.prems" have "cs = []" "p = cur @ [c]" by (auto simp: walk_file split: if_splits)
      with leaf [OF 3 f] show ?thesis by simp
    next
      case l: 4
      with 3 "2.prems" obtain m where m: "n = Suc m"
        by (cases n) (auto simp: walk.simps(2) plain_comp_def)
      with 3 l "2.prems" have w: "walk m fs (if path_is_abs t then [] else cur) (split_on slash t @ cs) = Inr p"
        by (simp add: walk_link)
      with "2.hyps"(4) [OF c l _ m] 3 l m show ?thesis by (auto intro: link)
    qed
  qed
qed

lemma walk_mono: "walk n fs cur cs = Inr p \<Longrightarrow> n \<le> m \<Longrightarrow> walk m fs cur cs = Inr p"
proof (induction arbitrary: m rule: walk_Inr_induct)
  case (link k cur c t cs p)
  then obtain m' where "m = Suc m'" "k \<le> m'" by (cases m) auto
  with link show ?case by (simp add: walk_link)
qed (auto simp: walk_skip walk_up walk_dir walk_file)

text \<open>Putting something where nothing was does not change a resolution that succeeded.\<close>

lemma walk_fresh: "walk n fs cur cs = Inr p \<Longrightarrow> fs q = None \<Longrightarrow> walk n (fs(q := x)) cur cs = Inr p"
proof (induction rule: walk_Inr_induct)
  case (dir n cur c cs p)
  then have "cur @ [c] \<noteq> q" by auto
  with dir show ?case by (simp add: walk_dir)
next
  case (leaf n cur c b)
  then have "cur @ [c] \<noteq> q" by auto
  with leaf show ?case by (simp add: walk_file)
next
  case (link m cur c t cs p)
  then have "cur @ [c] \<noteq> q" by auto
  with link show ?case by (simp add: walk_link)
qed (auto simp: walk_skip walk_up)

text \<open>A directory all of whose parents are directories; walking down it stays on it.\<close>

definition dirpath :: "fs \<Rightarrow> string list \<Rightarrow> bool" where
  "dirpath fs p \<longleftrightarrow> (\<forall>k. 0 < k \<and> k \<le> length p \<longrightarrow> fs (take k p) = Some Dir) \<and> (\<forall>c \<in> set p. normal_comp c)"

lemma dirpath_Nil [simp]: "dirpath fs []"
  by (simp add: dirpath_def)

lemma dirpath_snoc: "dirpath fs (p @ [c]) \<longleftrightarrow> dirpath fs p \<and> fs (p @ [c]) = Some Dir \<and> normal_comp c"
  unfolding dirpath_def by (auto simp: le_Suc_eq)

lemma dirpath_butlast: "dirpath fs p \<Longrightarrow> dirpath fs (butlast p)"
  by (cases p rule: rev_cases) (auto simp: dirpath_snoc)

lemma dirpath_append: "dirpath fs (p @ q) \<Longrightarrow> dirpath fs p"
  by (induction q rule: rev_induct) (auto simp: dirpath_snoc simp flip: append_assoc)

lemma walk_dirpath:
  "dirpath fs (cur @ ds) \<Longrightarrow> walk n fs cur (ds @ cs) = walk n fs (cur @ ds) cs"
proof (induction ds arbitrary: cur)
  case Nil
  then show ?case by simp
next
  case (Cons d ds)
  from Cons.prems have "dirpath fs ((cur @ [d]) @ ds)" by simp
  note IH = Cons.IH [OF this]
  from Cons.prems have "dirpath fs (cur @ [d])"
    using dirpath_append [of fs "cur @ [d]" ds] by simp
  then have "fs (cur @ [d]) = Some Dir" "plain_comp d"
    by (simp_all add: dirpath_snoc normal_comp_def plain_comp_def)
  with IH show ?case by (simp add: walk_dir)
qed

lemma split_abs_path: "\<forall>c \<in> set cs. normal_comp c \<Longrightarrow>
    split_on slash (abs_path cs) = (if cs = [] then [[], []] else [] # cs)"
  by (simp add: abs_path_def split_join no_slash_normal)

lemma resolve_dirpath:
  assumes "dirpath fs p"
  shows "walk n fs [] (split_on slash (abs_path p)) = Inr p"
proof -
  from assms have "\<forall>c \<in> set p. normal_comp c" by (simp add: dirpath_def)
  moreover have "walk n fs [] (p @ []) = walk n fs ([] @ p) []"
    using assms by (intro walk_dirpath) simp
  ultimately show ?thesis by (simp add: split_abs_path walk_skip)
qed

text \<open>Resolution ends on a physical path: its proper prefixes are directories.\<close>

lemma walk_physical:
  "walk n fs cur cs = Inr p \<Longrightarrow> dirpath fs cur \<Longrightarrow> \<forall>c \<in> set cs. slash \<notin> set c \<Longrightarrow>
   dirpath fs p \<or> (\<exists>b. p \<noteq> [] \<and> fs p = Some (File b) \<and> dirpath fs (butlast p) \<and> normal_comp (last p))"
proof (induction rule: walk_Inr_induct)
  case (dir n cur c cs p)
  then have "normal_comp c" by (simp add: plain_comp_def normal_comp_def)
  with dir show ?case by (simp add: dirpath_snoc)
next
  case (leaf n cur c b)
  then have "normal_comp c" by (simp add: plain_comp_def normal_comp_def)
  with leaf show ?case by simp
next
  case (link m cur c t cs p)
  have "dirpath fs (if path_is_abs t then [] else cur)" using link.prems(1) by simp
  moreover have "\<forall>x \<in> set (split_on slash t @ cs). slash \<notin> set x"
    using link.prems(2) split_on_no_sep by auto
  ultimately show ?case by (rule link.IH)
qed (auto simp: dirpath_butlast)

subsection \<open>Calls\<close>

text \<open>
  The state around the adapter: the tree, the script of I/O errors (one entry per call), the
  context of the request and the random suffixes \<open>os.CreateTemp\<close> will try.
\<close>

record local_fs =
  lf_tree :: "(string list \<times> node) list"
  lf_faults :: "go_error option list"
  lf_ctx :: ctx
  lf_temps :: "string list"
  lf_dirsize :: int

definition lf_fs :: "local_fs \<Rightarrow> fs" where
  "lf_fs l = map_of (lf_tree l)"

text \<open>Setting and deleting an entry of the tree.\<close>

definition lf_put :: "string list \<Rightarrow> node \<Rightarrow> local_fs \<Rightarrow> local_fs" where
  "lf_put p nd l = l\<lparr>lf_tree := AList.update p nd (lf_tree l)\<rparr>"

definition lf_del :: "string list \<Rightarrow> local_fs \<Rightarrow> local_fs" where
  "lf_del p l = l\<lparr>lf_tree := AList.delete p (lf_tree l)\<rparr>"

lemma lf_fs_put [simp]: "lf_fs (lf_put p nd l) = (lf_fs l)(p \<mapsto> nd)"
  by (simp add: lf_fs_def lf_put_def update_conv')

lemma lf_fs_del [simp]: "lf_fs (lf_del p l) = (lf_fs l)(p := None)"
  by (simp add: lf_fs_def lf_del_def delete_conv')

lemma lf_fs_frame [simp]:
  "lf_fs (l\<lparr>lf_faults := fl\<rparr>) = lf_fs l" "lf_fs (l\<lparr>lf_ctx := c\<rparr>) = lf_fs l"
  by (simp_all add: lf_fs_def)

definition os_fault :: "local_fs \<Rightarrow> go_error option \<times> local_fs" where
  "os_fault l = (case lf_faults l of [] \<Rightarrow> (None, l) | e # es \<Rightarrow> (e, l\<lparr>lf_faults := es\<rparr>))"

definition ctx_check :: "local_fs \<Rightarrow> go_error option \<times> local_fs" where
  \<comment> \<open>\<open>ctx.Err()\<close>\<close>
  "ctx_check l = (case ctx_err (lf_ctx l) of (e, c) \<Rightarrow> (e, l\<lparr>lf_ctx := c\<rparr>))"

text \<open>\<open>os.MkdirAll\<close>: every missing directory of the path, from the top, through links.\<close>

fun mkdir_all :: "local_fs \<Rightarrow> string list \<Rightarrow> string list \<Rightarrow> errno option \<times> local_fs" where
  "mkdir_all l cur [] = (None, l)"
| "mkdir_all l cur (c # cs) =
     (if c = [] \<or> c = dot then mkdir_all l cur cs
      else if c = dotdot then mkdir_all l (butlast cur) cs
      else (case lf_fs l (cur @ [c]) of
             None \<Rightarrow> mkdir_all (lf_put (cur @ [c]) Dir l) (cur @ [c]) cs
           | Some Dir \<Rightarrow> mkdir_all l (cur @ [c]) cs
           | Some (File _) \<Rightarrow> (Some ENOTDIR, l)
           | Some (Link t) \<Rightarrow>
               (case walk 39 (lf_fs l) (if path_is_abs t then [] else cur) (split_on slash t) of
                  Inl ENOENT \<Rightarrow> (Some EEXIST, l)
                | Inl e \<Rightarrow> (Some e, l)
                | Inr p \<Rightarrow> if p = [] \<or> lf_fs l p = Some Dir then mkdir_all l p cs else (Some ENOTDIR, l))))"

definition os_MkdirAll :: "string \<Rightarrow> local_fs \<Rightarrow> go_error option \<times> local_fs" where
  "os_MkdirAll path l =
     (case os_fault l of
        (Some e, l') \<Rightarrow> (Some e, l')
      | (None, l') \<Rightarrow>
          (case mkdir_all l' [] (split_on slash path) of
             (e, l'') \<Rightarrow> (map_option (PathErr ''mkdir'' path) e, l'')))"

definition filepath_EvalSymlinks :: "string \<Rightarrow> (local_fs, go_error, string) call" where
  "filepath_EvalSymlinks path l =
     (case os_fault l of
        (Some e, l') \<Rightarrow> (Inl e, l')
      | (None, l') \<Rightarrow>
          (case eval_resolve (lf_fs l') path of
             Inl e \<Rightarrow> (Inl (PathErr ''lstat'' path e), l')
           | Inr p \<Rightarrow> (Inr (abs_path p), l')))"

text \<open>An open temporary file: the directory as it was named, the file's name, and where it is.\<close>

record temp_file =
  tf_dir :: string
  tf_name :: string
  tf_path :: "string list"

definition temp_prefix :: string where "temp_prefix = ''.upload-''"

definition os_CreateTemp :: "string \<Rightarrow> (local_fs, go_error, temp_file) call" where
  "os_CreateTemp dir l =
     (case os_fault l of
        (Some e, l') \<Rightarrow> (Inl e, l')
      | (None, l') \<Rightarrow>
          (case kernel_resolve (lf_fs l') dir of
             Inl e \<Rightarrow> (Inl (PathErr ''open'' dir e), l')
           | Inr p \<Rightarrow>
               (case find (\<lambda>r. lf_fs l' (p @ [temp_prefix @ r]) = None) (lf_temps l') of
                  None \<Rightarrow> (Inl (PathErr ''createtemp'' dir EEXIST), l')
                | Some r \<Rightarrow>
                    if p \<noteq> [] \<and> lf_fs l' p \<noteq> Some Dir then (Inl (PathErr ''open'' dir ENOTDIR), l')
                    else (Inr \<lparr>tf_dir = dir, tf_name = temp_prefix @ r, tf_path = p @ [temp_prefix @ r]\<rparr>,
                          lf_put (p @ [temp_prefix @ r]) (File []) l'))))"

definition file_data :: "string list \<Rightarrow> local_fs \<Rightarrow> bytes" where
  "file_data p l = (case lf_fs l p of Some (File b) \<Rightarrow> b | _ \<Rightarrow> [])"

definition file_write :: "string list \<Rightarrow> bytes \<Rightarrow> local_fs \<Rightarrow> go_error option \<times> local_fs" where
  "file_write p bs l =
     (case os_fault l of
        (Some e, l') \<Rightarrow> (Some e, l')
      | (None, l') \<Rightarrow> (None, lf_put p (File (file_data p l' @ bs)) l'))"

definition os_Close :: "local_fs \<Rightarrow> go_error option \<times> local_fs" where
  "os_Close l = os_fault l"

definition os_Rename :: "string \<Rightarrow> string \<Rightarrow> string \<Rightarrow> string \<Rightarrow> local_fs \<Rightarrow> go_error option \<times> local_fs" where
  \<comment> \<open>from name \<open>a\<close> in directory \<open>da\<close> to name \<open>c\<close> in directory \<open>dc\<close>; a final link is replaced, not followed\<close>
  "os_Rename da a dc c l =
     (case os_fault l of
        (Some e, l') \<Rightarrow> (Some e, l')
      | (None, l') \<Rightarrow>
          (case (kernel_resolve (lf_fs l') da, kernel_resolve (lf_fs l') dc) of
             (Inr p, Inr q) \<Rightarrow>
               (case lf_fs l' (p @ [a]) of
                  None \<Rightarrow> (Some (PathErr ''rename'' a ENOENT), l')
                | Some nd \<Rightarrow>
                    if lf_fs l' (q @ [c]) = Some Dir then (Some (PathErr ''rename'' c EEXIST), l')
                    else (None, lf_put (q @ [c]) nd (lf_del (p @ [a]) l')))
           | (Inl e, _) \<Rightarrow> (Some (PathErr ''rename'' da e), l')
           | (_, Inl e) \<Rightarrow> (Some (PathErr ''rename'' dc e), l')))"

definition empty_dir :: "(string list \<times> node) list \<Rightarrow> string list \<Rightarrow> bool" where
  "empty_dir t p \<longleftrightarrow> list_all (\<lambda>(q, nd). q = [] \<or> butlast q \<noteq> p) t"

definition os_Remove :: "string \<Rightarrow> string \<Rightarrow> local_fs \<Rightarrow> go_error option \<times> local_fs" where
  \<comment> \<open>the entry \<open>c\<close> of directory \<open>dir\<close>: a file, a link (not followed) or an empty directory\<close>
  "os_Remove dir c l =
     (case os_fault l of
        (Some e, l') \<Rightarrow> (Some e, l')
      | (None, l') \<Rightarrow>
          (case kernel_resolve (lf_fs l') dir of
             Inl e \<Rightarrow> (Some (PathErr ''remove'' dir e), l')
           | Inr p \<Rightarrow>
               if lf_fs l' (p @ [c]) = None then (Some (PathErr ''remove'' c ENOENT), l')
               else if lf_fs l' (p @ [c]) = Some Dir \<and> \<not> empty_dir (lf_tree l') (p @ [c])
               then (Some (PathErr ''remove'' c ENOTEMPTY), l')
               else (None, lf_del (p @ [c]) l')))"

text \<open>
  Opening for reading. A directory opens too, and fails when it is read; a file may fail while
  it is read, as the script says.
\<close>

definition os_Open :: "string \<Rightarrow> (local_fs, go_error, source \<times> int) call" where
  "os_Open path l =
     (case os_fault l of
        (Some e, l') \<Rightarrow> (Inl e, l')
      | (None, l') \<Rightarrow>
          (case kernel_resolve (lf_fs l') path of
             Inl e \<Rightarrow> (Inl (PathErr ''open'' path e), l')
           | Inr p \<Rightarrow>
               (case os_fault l' of
                  (re, l'') \<Rightarrow>
                    (case lf_fs l'' p of
                       Some (File b) \<Rightarrow>
                         (Inr ((case re of Some e \<Rightarrow> [([], Some e)] | None \<Rightarrow> (if b = [] then [] else [(b, None)])),
                               int (length b)), l'')
                     | _ \<Rightarrow> (Inr ([([], Some (PathErr ''read'' path EISDIR))], lf_dirsize l''), l'')))))"

end
