(* ===== verification/Local_Storage.thy ===== *)
theory Local_Storage
  imports File_System
begin

text \<open>
  The local storage adapter, \<open>internal/storage/local.go\<close>, over the file-system calls. The
  central result is containment: whatever links the tree holds and whatever key is asked for,
  \<open>Put\<close> changes nothing outside the storage root except that it may create directories there.
\<close>

text \<open>\<open>filepath.Rel\<close> of two absolute clean paths, by their components.\<close>

fun rel_comps :: "string list \<Rightarrow> string list \<Rightarrow> string list" where
  "rel_comps (b # bs) (t # ts) =
     (if b = t then rel_comps bs ts else replicate (Suc (length bs)) dotdot @ t # ts)"
| "rel_comps bs ts = replicate (length bs) dotdot @ ts"

definition abs_comps :: "string \<Rightarrow> string list" where
  "abs_comps p = filter (\<lambda>c. c \<noteq> []) (split_on slash p)"

definition filepath_rel :: "string \<Rightarrow> string \<Rightarrow> string" where
  "filepath_rel base targ =
     (let cs = rel_comps (abs_comps base) (abs_comps targ) in if cs = [] then dot else join_with slash cs)"

definition escapes_root :: go_error where
  "escapes_root = FmtError ''object path escapes storage root''"

definition verifyInside :: "string \<Rightarrow> string \<Rightarrow> local_fs \<Rightarrow> go_error option \<times> local_fs" where
  "verifyInside root candidate l =
     (case filepath_EvalSymlinks candidate l of
        (Inl err, l') \<Rightarrow> (Some (FmtWrap (''evaluate object directory: '' @ error_text err) err), l')
      | (Inr resolved, l') \<Rightarrow>
          (let relative = filepath_rel root resolved
           in if relative = dotdot \<or> has_prefix relative ''../'' then (Some escapes_root, l') else (None, l')))"

definition pathForWrite :: "string \<Rightarrow> string \<Rightarrow> go_error + string" where
  "pathForWrite root key =
     (case validateKey key of Some err \<Rightarrow> Inl err | None \<Rightarrow> Inr (path_join [root, key]))"

definition pathForExisting :: "string \<Rightarrow> string \<Rightarrow> (local_fs, go_error, string) call" where
  "pathForExisting root key l =
     (case pathForWrite root key of
        Inl err \<Rightarrow> (Inl err, l)
      | Inr target \<Rightarrow>
          (case filepath_EvalSymlinks target l of
             (Inl err, l') \<Rightarrow>
               if errors_is err os_ErrNotExist then (Inl (Wrap ErrStorageObjectNotFound (Some err)), l')
               else (Inl (FmtWrap (''evaluate object path: '' @ error_text err) err), l')
           | (Inr resolved, l') \<Rightarrow>
               (case verifyInside root resolved l' of
                  (Some err, l'') \<Rightarrow> (Inl err, l'')
                | (None, l'') \<Rightarrow> (Inr resolved, l''))))"

definition last_comp :: "string \<Rightarrow> string" where
  "last_comp p = last (split_on slash p)"

text \<open>
  A copy that never ends has no result; \<open>diverges\<close> stands for it. \<open>upload_copy_returns\<close> shows
  that it does not happen for the readers of the service.
\<close>

definition diverges :: go_error where
  "diverges = Sentinel ''diverges'' ''''"

text \<open>The part of \<open>Put\<close> with the temporary file open: copy, close, publish.\<close>

definition put_object :: "'r read_fn \<Rightarrow> string \<Rightarrow> temp_file \<Rightarrow> 'r \<Rightarrow> local_fs \<Rightarrow> (go_error + unit) \<times> 'r \<times> local_fs" where
  "put_object rd target t source l =
     (case io_copy (file_write (tf_path t)) (context_read rd) \<lparr>cx_ctx = lf_ctx l, cx_reader = source\<rparr> l of
        None \<Rightarrow> (Inl diverges, source, l)
      | Some (Some err, R, l1) \<Rightarrow>
          (case os_Close (l1\<lparr>lf_ctx := cx_ctx R\<rparr>) of
             (_, l2) \<Rightarrow> (Inl (FmtWrap (''write object: '' @ error_text err) err), cx_reader R, l2))
      | Some (None, R, l1) \<Rightarrow>
          (case os_Close (l1\<lparr>lf_ctx := cx_ctx R\<rparr>) of
             (Some err, l2) \<Rightarrow> (Inl (FmtWrap (''close object: '' @ error_text err) err), cx_reader R, l2)
           | (None, l2) \<Rightarrow>
               (case os_Rename (tf_dir t) (tf_name t) (filepath_dir target) (last_comp target) l2 of
                  (Some err, l3) \<Rightarrow> (Inl (FmtWrap (''publish object: '' @ error_text err) err), cx_reader R, l3)
                | (None, l3) \<Rightarrow> (Inr (), cx_reader R, l3))))"

definition local_Put :: "string \<Rightarrow> 'r read_fn \<Rightarrow> string \<Rightarrow> 'r \<Rightarrow> string \<Rightarrow> local_fs \<Rightarrow> (go_error + unit) \<times> 'r \<times> local_fs" where
  "local_Put root rd key source mediaType l =
     (case ctx_check l of
        (Some err, l0) \<Rightarrow> (Inl err, source, l0)
      | (None, l0) \<Rightarrow>
          (case pathForWrite root key of
             Inl err \<Rightarrow> (Inl err, source, l0)
           | Inr target \<Rightarrow>
               (case os_MkdirAll (filepath_dir target) l0 of
                  (Some err, l1) \<Rightarrow>
                    (Inl (FmtWrap (''create object directory: '' @ error_text err) err), source, l1)
                | (None, l1) \<Rightarrow>
                    (case verifyInside root (filepath_dir target) l1 of
                       (Some err, l2) \<Rightarrow> (Inl err, source, l2)
                     | (None, l2) \<Rightarrow>
                         (case os_CreateTemp (filepath_dir target) l2 of
                            (Inl err, l3) \<Rightarrow>
                              (Inl (FmtWrap (''create temporary object: '' @ error_text err) err), source, l3)
                          | (Inr t, l3) \<Rightarrow>
                              (case put_object rd target t source l3 of
                                 (res, source', l4) \<Rightarrow>
                                   (case os_Remove (tf_dir t) (tf_name t) l4 of
                                      (_, l5) \<Rightarrow> (res, source', l5))))))))"

definition octet_stream :: string where "octet_stream = ''application/octet-stream''"

definition local_Open :: "string \<Rightarrow> string \<Rightarrow> (local_fs, go_error, stored_object) call" where
  "local_Open root key l =
     (case ctx_check l of
        (Some err, l0) \<Rightarrow> (Inl err, l0)
      | (None, l0) \<Rightarrow>
          (case pathForExisting root key l0 of
             (Inl err, l1) \<Rightarrow> (Inl err, l1)
           | (Inr target, l1) \<Rightarrow>
               (case os_Open target l1 of
                  (Inl err, l2) \<Rightarrow>
                    if errors_is err os_ErrNotExist then (Inl (Wrap ErrStorageObjectNotFound (Some err)), l2)
                    else (Inl (FmtWrap (''open object: '' @ error_text err) err), l2)
                | (Inr (body, n), l2) \<Rightarrow>
                    (case os_fault l2 of
                       (Some err, l3) \<Rightarrow> (Inl (FmtWrap (''stat object: '' @ error_text err) err), l3)
                     | (None, l3) \<Rightarrow>
                         (Inr \<lparr>obj_Body = body, obj_SizeBytes = n, obj_MediaType = octet_stream\<rparr>, l3)))))"

definition local_Delete :: "string \<Rightarrow> string \<Rightarrow> (local_fs, go_error, unit) call" where
  "local_Delete root key l =
     (case ctx_check l of
        (Some err, l0) \<Rightarrow> (Inl err, l0)
      | (None, l0) \<Rightarrow>
          (case pathForExisting root key l0 of
             (Inl err, l1) \<Rightarrow>
               if errors_is err os_ErrNotExist \<or> errors_is err ErrStorageObjectNotFound then (Inr (), l1)
               else (Inl err, l1)
           | (Inr target, l1) \<Rightarrow>
               (case os_Remove (filepath_dir target) (last_comp target) l1 of
                  (Some err, l2) \<Rightarrow>
                    if \<not> errors_is err os_ErrNotExist
                    then (Inl (FmtWrap (''delete object: '' @ error_text err) err), l2) else (Inr (), l2)
                | (None, l2) \<Rightarrow> (Inr (), l2))))"

text \<open>\<open>NewLocal\<close>: \<open>cwd\<close> is the working directory \<open>filepath.Abs\<close> starts from.\<close>

definition filepath_Abs :: "string \<Rightarrow> string \<Rightarrow> string" where
  "filepath_Abs cwd p = (if path_is_abs p then path_clean p else path_join [cwd, p])"

definition NewLocal :: "string \<Rightarrow> string \<Rightarrow> (local_fs, go_error, string) call" where
  "NewLocal cwd root l =
     (if trim_space root = [] then (Inl (FmtError ''local storage root is empty''), l)
      else case os_MkdirAll (filepath_Abs cwd root) l of
        (Some err, l1) \<Rightarrow> (Inl (FmtWrap (''create storage root: '' @ error_text err) err), l1)
      | (None, l1) \<Rightarrow>
          (case filepath_EvalSymlinks (filepath_Abs cwd root) l1 of
             (Inl err, l2) \<Rightarrow> (Inl (FmtWrap (''evaluate storage root: '' @ error_text err) err), l2)
           | (Inr resolved, l2) \<Rightarrow> (Inr resolved, l2)))"

subsection \<open>Absolute paths\<close>

lemma clean_comps_empties: "clean_comps r cs = clean_comps r (filter (\<lambda>c. c \<noteq> []) cs)"
proof -
  have "fold (clean_step r) cs st = fold (clean_step r) (filter (\<lambda>c. c \<noteq> []) cs) st" for st
    by (induction cs arbitrary: st) (auto simp: clean_step_def)
  then show ?thesis by (simp add: clean_comps_def)
qed

lemma path_clean_abs:
  assumes "path_is_abs s" "filter (\<lambda>c. c \<noteq> []) (split_on slash s) = cs" "\<forall>c \<in> set cs. normal_comp c"
  shows "path_clean s = abs_path cs"
  using assms by (auto simp: path_clean_def abs_path_def Let_def path_is_abs_def has_prefix_def
      clean_comps_empties [of True "split_on slash s"] clean_comps_normal)

lemma filter_normal: "\<forall>c \<in> set cs. normal_comp c \<Longrightarrow> filter (\<lambda>c. c \<noteq> []) cs = cs"
  by (induction cs) (auto simp: normal_comp_def)

lemma abs_path_is_abs: "path_is_abs (abs_path cs @ s)"
  by (simp add: abs_path_def path_is_abs_def has_prefix_def)

lemma path_join_abs:
  assumes "\<forall>c \<in> set rc. normal_comp c" "cs \<noteq> []" "\<forall>c \<in> set cs. normal_comp c"
  shows "path_join [abs_path rc, join_with slash cs] = abs_path (rc @ cs)"
proof -
  have ne: "join_with slash cs \<noteq> []" using assms by (simp add: normal_not_abs)
  have "split_on slash (abs_path rc @ slash # join_with slash cs) = split_on slash (abs_path rc) @ cs"
    using assms by (simp add: split_on_append_sep split_join no_slash_normal)
  then have f: "filter (\<lambda>c. c \<noteq> []) (split_on slash (abs_path rc @ slash # join_with slash cs)) = rc @ cs"
    using assms by (simp add: split_abs_path filter_normal)
  from path_clean_abs [OF abs_path_is_abs f] assms ne show ?thesis
    by (auto simp: path_join_def abs_path_def)
qed

lemma abs_path_snoc: "abs_path (p @ [c]) = (if p = [] then [slash] else abs_path p @ [slash]) @ c"
  by (simp add: abs_path_def join_with_append)

lemma filepath_dir_abs:
  assumes "\<forall>c \<in> set (p @ [c]). normal_comp c"
  shows "filepath_dir (abs_path (p @ [c])) = abs_path p"
proof -
  let ?s = "if p = [] then [slash] else abs_path p @ [slash]"
  have s: "rev ?s = slash # rev (if p = [] then [] else abs_path p)" by simp
  have "slash \<notin> set c" using assms by (simp add: normal_comp_def)
  then have "dropWhile (\<lambda>x. x \<noteq> slash) (rev c @ rev ?s) = rev ?s"
    unfolding s by (subst dropWhile_append2) auto
  then have "filepath_dir (abs_path (p @ [c])) = path_clean ?s"
    by (simp add: filepath_dir_def abs_path_snoc rev_swap [symmetric])
  also have "\<dots> = abs_path p"
  proof (rule path_clean_abs)
    show "path_is_abs ?s" by (simp add: abs_path_is_abs) (simp add: path_is_abs_def has_prefix_def)
    have "split_on slash (abs_path p @ slash # []) = split_on slash (abs_path p) @ [[]]"
      by (simp add: split_on_append_sep)
    with assms show "filter (\<lambda>c. c \<noteq> []) (split_on slash ?s) = p"
      by (simp add: split_abs_path filter_normal)
  qed (use assms in simp)
  finally show ?thesis .
qed

lemma last_comp_abs:
  assumes "\<forall>c \<in> set (p @ [c]). normal_comp c"
  shows "last_comp (abs_path (p @ [c])) = c"
  using split_abs_path [OF assms] by (simp add: last_comp_def)

subsection \<open>Inside the root\<close>

lemma abs_comps_abs_path: "\<forall>c \<in> set p. normal_comp c \<Longrightarrow> abs_comps (abs_path p) = p"
proof -
  assume n: "\<forall>c \<in> set p. normal_comp c"
  then have "filter (\<lambda>c. c \<noteq> []) p = p" by (induction p) (auto simp: normal_comp_def)
  with n show ?thesis by (simp add: abs_comps_def split_abs_path)
qed

lemma rel_comps_cases: "prefix b t \<or> (\<exists>cs. rel_comps b t = dotdot # cs)"
proof (induction b arbitrary: t)
  case (Cons c b)
  then show ?case by (cases t) auto
qed simp

lemma filepath_rel_inside:
  assumes "\<forall>c \<in> set b. normal_comp c" "\<forall>c \<in> set t. normal_comp c"
    "filepath_rel (abs_path b) (abs_path t) \<noteq> dotdot"
    "\<not> has_prefix (filepath_rel (abs_path b) (abs_path t)) ''../''"
  shows "prefix b t"
proof (rule ccontr)
  assume "\<not> prefix b t"
  with rel_comps_cases [of b t] obtain cs where "rel_comps b t = dotdot # cs" by blast
  with assms show False
    by (cases cs) (auto simp: filepath_rel_def abs_comps_abs_path has_prefix_iff dotdot_def slash_def)
qed

lemma resolve_normal:
  assumes "walk n fs [] (split_on slash path) = Inr p"
  shows "\<forall>c \<in> set p. normal_comp c"
proof -
  have "\<forall>c \<in> set (split_on slash path). slash \<notin> set c" by (auto dest: split_on_no_sep)
  from walk_physical [OF assms dirpath_Nil this]
  have "(\<forall>c \<in> set p. normal_comp c) \<or> (\<exists>q c. p = q @ [c] \<and> (\<forall>c \<in> set q. normal_comp c) \<and> normal_comp c)"
    by (metis append_butlast_last_id dirpath_def)
  then show ?thesis by auto
qed

lemma os_fault_fs: "os_fault l = (e, l') \<Longrightarrow> lf_fs l' = lf_fs l"
  by (auto simp: os_fault_def split: list.splits)

lemma ctx_check_fs: "ctx_check l = (e, l') \<Longrightarrow> lf_fs l' = lf_fs l"
  by (auto simp: ctx_check_def split: prod.splits)

lemma EvalSymlinks_fs: "filepath_EvalSymlinks p l = (r, l') \<Longrightarrow> lf_fs l' = lf_fs l"
  by (auto simp: filepath_EvalSymlinks_def split: prod.splits option.splits sum.splits dest: os_fault_fs)

lemma verifyInside_fs: "verifyInside root p l = (r, l') \<Longrightarrow> lf_fs l' = lf_fs l"
  by (auto simp: verifyInside_def Let_def split: prod.splits sum.splits if_splits dest: EvalSymlinks_fs)

text \<open>A candidate that passes resolves to a path below the root.\<close>

lemma verifyInside_ok:
  assumes "verifyInside (abs_path rc) candidate l = (None, l')" "\<forall>c \<in> set rc. normal_comp c"
  obtains p where "eval_resolve (lf_fs l) candidate = Inr p" "prefix rc p"
proof -
  obtain l1 p where l1: "os_fault l = (None, l1)" and p: "eval_resolve (lf_fs l1) candidate = Inr p"
    and rel: "filepath_rel (abs_path rc) (abs_path p) \<noteq> dotdot"
      "\<not> has_prefix (filepath_rel (abs_path rc) (abs_path p)) ''../''"
    using assms(1)
    by (auto simp: verifyInside_def filepath_EvalSymlinks_def Let_def
        split: prod.splits sum.splits option.splits if_splits)
  from p have "\<forall>c \<in> set p. normal_comp c" unfolding eval_resolve_def by (rule resolve_normal)
  from filepath_rel_inside [OF assms(2) this rel] have "prefix rc p" .
  with p os_fault_fs [OF l1] show ?thesis by (intro that) simp_all
qed

lemma kernel_eval: "kernel_resolve fs p = Inr q \<Longrightarrow> eval_resolve fs p = Inr q"
  unfolding kernel_resolve_def eval_resolve_def by (rule walk_mono) auto

subsection \<open>What the calls change\<close>

definition only_dirs :: "fs \<Rightarrow> fs \<Rightarrow> bool" where
  "only_dirs f g \<longleftrightarrow> (\<forall>p. g p = f p \<or> f p = None \<and> g p = Some Dir)"

lemma only_dirs_refl [simp]: "only_dirs f f"
  by (simp add: only_dirs_def)

lemma only_dirs_trans: "only_dirs f g \<Longrightarrow> only_dirs g h \<Longrightarrow> only_dirs f h"
  unfolding only_dirs_def by metis

lemma mkdir_all_only_dirs: "only_dirs (lf_fs l) (lf_fs (snd (mkdir_all l cur cs)))"
proof (induction l cur cs rule: mkdir_all.induct)
  case (1 l cur)
  then show ?case by simp
next
  case (2 l cur c cs)
  have put: "lf_fs l (cur @ [c]) = None \<Longrightarrow> only_dirs (lf_fs (lf_put (cur @ [c]) Dir l)) g \<Longrightarrow> only_dirs (lf_fs l) g" for g
    by (rule only_dirs_trans [of _ "lf_fs (lf_put (cur @ [c]) Dir l)"]) (auto simp: only_dirs_def)
  show ?case
    using 2
    by (auto split: option.splits node.splits sum.splits errno.splits intro: put simp del: lf_fs_put)
qed

lemma MkdirAll_only_dirs: "os_MkdirAll path l = (e, l') \<Longrightarrow> only_dirs (lf_fs l) (lf_fs l')"
proof -
  assume "os_MkdirAll path l = (e, l')"
  then show ?thesis
    using mkdir_all_only_dirs [of _ "[]" "split_on slash path"]
    by (auto simp: os_MkdirAll_def split: prod.splits option.splits dest!: os_fault_fs)
       (metis snd_conv)
qed

text \<open>
  The change relation of a storage operation: outside the root, nothing but new directories.
\<close>

definition contained :: "string list \<Rightarrow> fs \<Rightarrow> fs \<Rightarrow> bool" where
  "contained rc f g \<longleftrightarrow> (\<forall>p. g p = f p \<or> prefix rc p \<or> f p = None \<and> g p = Some Dir)"

lemma contained_refl [simp]: "contained rc f f"
  by (simp add: contained_def)

lemma contained_trans: "contained rc f g \<Longrightarrow> contained rc g h \<Longrightarrow> contained rc f h"
  unfolding contained_def by metis

lemma contained_only_dirs: "only_dirs f g \<Longrightarrow> contained rc f g"
  by (auto simp: only_dirs_def contained_def)

lemma contained_upd: "prefix rc p \<Longrightarrow> contained rc f (f(p := x))"
  by (simp add: contained_def)

text \<open>Overwriting an entry by a file: a resolution that still succeeds is the old one or ends there.\<close>

lemma walk_overwrite:
  "walk n (fs(d \<mapsto> File b)) cur cs = Inr p \<Longrightarrow> p = d \<or> walk n fs cur cs = Inr p"
proof (induction rule: walk_Inr_induct)
  case (dir n cur c cs p)
  then show ?case by (auto simp: walk_dir split: if_splits)
next
  case (leaf n cur c b)
  then show ?case by (auto simp: walk_file split: if_splits)
next
  case (link m cur c t cs p)
  then show ?case by (auto simp: walk_link split: if_splits)
qed (auto simp: walk_skip walk_up)

text \<open>Writing the temporary file changes that file only.\<close>

lemma file_write_fs:
  "file_write p bs l = (e, l') \<Longrightarrow> lf_fs l' = lf_fs l \<or> (\<exists>b. lf_fs l' = (lf_fs l)(p \<mapsto> File b))"
  by (auto simp: file_write_def split: prod.splits option.splits dest!: os_fault_fs)

lemma copy_to_file:
  assumes "io_copy (file_write p) (context_read rd) R l = Some (e, R', l')" "lf_fs l = g(p \<mapsto> File b)"
  shows "(\<exists>b'. lf_fs l' = g(p \<mapsto> File b')) \<and> set (lf_faults l') \<subseteq> set (lf_faults l) \<and>
    lf_temps l' = lf_temps l \<and> lf_ctx l' = lf_ctx l \<and> set (cx_ctx R') \<subseteq> set (cx_ctx R)"
proof -
  let ?I = "\<lambda>d. (\<exists>b'. lf_fs d = g(p \<mapsto> File b')) \<and> set (lf_faults d) \<subseteq> set (lf_faults l) \<and>
    lf_temps d = lf_temps l \<and> lf_ctx d = lf_ctx l"
  let ?J = "\<lambda>R'. set (cx_ctx R') \<subseteq> set (cx_ctx R)"
  have "?I l' \<and> ?J R'"
  proof (rule io_copy_invariant [OF assms(1), where I = ?I and J = ?J])
    show "?I l" using assms(2) by auto
  next
    fix bs d
    assume "?I d"
    then show "?I (snd (file_write p bs d))"
      by (auto simp: file_write_def os_fault_def lf_put_def lf_fs_def update_conv' split: prod.splits option.splits list.splits)
  next
    fix r :: "'a context_reader"
    assume "?J r"
    then show "?J (snd (snd (context_read rd copy_buffer r)))"
      by (auto simp: context_read_def ctx_err_def split: prod.splits option.splits list.splits)
  qed simp
  then show ?thesis by blast
qed

lemma CreateTemp_ok:
  assumes "os_CreateTemp dir l = (Inr t, l')"
  obtains q where "kernel_resolve (lf_fs l) dir = Inr q" "tf_dir t = dir" "tf_path t = q @ [tf_name t]"
    "lf_fs l (q @ [tf_name t]) = None" "lf_fs l' = (lf_fs l)(q @ [tf_name t] \<mapsto> File [])"
  using assms
  by (auto simp: os_CreateTemp_def find_Some_iff split: prod.splits option.splits sum.splits if_splits dest!: os_fault_fs)

lemma CreateTemp_err: "os_CreateTemp dir l = (Inl e, l') \<Longrightarrow> lf_fs l' = lf_fs l"
  by (auto simp: os_CreateTemp_def split: prod.splits option.splits sum.splits if_splits dest!: os_fault_fs)

lemma Close_fs: "os_Close l = (e, l') \<Longrightarrow> lf_fs l' = lf_fs l"
  unfolding os_Close_def by (rule os_fault_fs)

text \<open>A rename within one directory moves the entry or changes nothing.\<close>

lemma Rename_fs:
  assumes "os_Rename dir a dir c l = (e, l')" "kernel_resolve (lf_fs l) dir = Inr q"
    "lf_fs l (q @ [a]) = Some nd"
  shows "lf_fs l' = (if e = None then (lf_fs l)(q @ [a] := None, q @ [c] \<mapsto> nd) else lf_fs l) \<and>
    (e = None \<longrightarrow> lf_fs l (q @ [c]) \<noteq> Some Dir)"
  using assms
  by (auto simp: os_Rename_def split: prod.splits option.splits sum.splits if_splits dest!: os_fault_fs)

lemma Remove_fs:
  assumes "os_Remove dir a l = (e, l')"
  shows "lf_fs l' = lf_fs l \<or>
    (\<exists>q. kernel_resolve (lf_fs l) dir = Inr q \<and> lf_fs l' = (lf_fs l)(q @ [a] := None))"
  using assms
  by (auto simp: os_Remove_def split: prod.splits option.splits sum.splits if_splits dest!: os_fault_fs)

text \<open>
  The state after the copy and the rename, in terms of the state \<open>g\<close> before the temporary file
  was made: a failure leaves the temporary file, a success has the object in its place.
\<close>

lemma put_object_cases:
  assumes put: "put_object rd target t src l = (res, src', l')"
    and q: "kernel_resolve g (filepath_dir target) = Inr q" "g tp = None" "tp = q @ [tf_name t]"
    and t: "tf_dir t = filepath_dir target" "tf_path t = tp"
    and l: "lf_fs l = g(tp \<mapsto> File b)"
  obtains (failed) e b' where "res = Inl e" "lf_fs l' = g(tp \<mapsto> File b')"
  | (published) R l1 b' where "res = Inr ()" "src' = cx_reader R"
      "io_copy (file_write tp) (context_read rd) \<lparr>cx_ctx = lf_ctx l, cx_reader = src\<rparr> l = Some (None, R, l1)"
      "lf_fs l1 = g(tp \<mapsto> File b')" "lf_fs l' = g(q @ [last_comp target] \<mapsto> File b')"
      "g (q @ [last_comp target]) \<noteq> Some Dir"
proof (cases "io_copy (file_write tp) (context_read rd) \<lparr>cx_ctx = lf_ctx l, cx_reader = src\<rparr> l")
  case None
  with put t l failed show ?thesis by (auto simp: put_object_def)
next
  case (Some x)
  obtain ce R l1 where x: "x = (ce, R, l1)" by (metis prod_cases3)
  with Some copy_to_file [OF _ l] obtain b1 where l1: "lf_fs l1 = g(tp \<mapsto> File b1)" by blast
  obtain ke l2 where k: "os_Close (l1\<lparr>lf_ctx := cx_ctx R\<rparr>) = (ke, l2)" by fastforce
  with l1 have l2: "lf_fs l2 = g(tp \<mapsto> File b1)" by (auto dest: Close_fs)
  show ?thesis
  proof (cases "ce = None \<and> ke = None")
    case False
    with put Some x k l2 t failed show ?thesis
      by (auto simp: put_object_def split: option.splits)
  next
    case True
    obtain re l3 where r: "os_Rename (tf_dir t) (tf_name t) (filepath_dir target) (last_comp target) l2 = (re, l3)"
      by fastforce
    from True put Some x k r t have l3: "l' = l3" "src' = cx_reader R"
      "res = (case re of None \<Rightarrow> Inr () | Some err \<Rightarrow> Inl (FmtWrap (''publish object: '' @ error_text err) err))"
      by (auto simp: put_object_def split: option.splits)
    have a: "kernel_resolve (lf_fs l2) (filepath_dir target) = Inr q"
      using q unfolding l2 kernel_resolve_def by (intro walk_fresh)
    have b: "lf_fs l2 (q @ [tf_name t]) = Some (File b1)" using l2 q by simp
    have fs3: "lf_fs l3 = (if re = None then (lf_fs l2)(tp := None, q @ [last_comp target] \<mapsto> File b1) else lf_fs l2)"
      and nd: "re = None \<Longrightarrow> lf_fs l2 (q @ [last_comp target]) \<noteq> Some Dir"
      using Rename_fs [OF r [unfolded t(1)] a b] unfolding q(3) by blast+
    have g: "g(tp := None) = g" using q(2) by auto
    show ?thesis
    proof (cases re)
      case None
      with nd l2 q(2) have "g (q @ [last_comp target]) \<noteq> Some Dir" by (auto split: if_splits)
      with None fs3 g l2 l3 True x Some l1 show ?thesis by (intro published [of R l1 b1]) auto
    next
      case (Some err)
      with fs3 l2 l3 show ?thesis by (intro failed) auto
    qed
  qed
qed

lemma Put_contained:
  assumes "local_Put (abs_path rc) rd key src mt l = (res, src', l')" "\<forall>c \<in> set rc. normal_comp c"
  shows "contained rc (lf_fs l) (lf_fs l')"
proof -
  obtain ce l0 where c: "ctx_check l = (ce, l0)" by fastforce
  note l0 = ctx_check_fs [OF c]
  show ?thesis
  proof (cases "ce \<noteq> None \<or> (\<exists>e. pathForWrite (abs_path rc) key = Inl e)")
    case True
    with assms(1) c l0 show ?thesis by (auto simp: local_Put_def split: option.splits)
  next
    case False
    then obtain target where ce: "ce = None" and target: "pathForWrite (abs_path rc) key = Inr target"
      by (metis not_Some_eq old.sum.exhaust)
    let ?dir = "filepath_dir target"
    obtain me l1 where m: "os_MkdirAll ?dir l0 = (me, l1)" by fastforce
    from MkdirAll_only_dirs [OF m] l0 have c1: "contained rc (lf_fs l) (lf_fs l1)"
      by (simp add: contained_only_dirs)
    obtain ve l2 where v: "verifyInside (abs_path rc) ?dir l1 = (ve, l2)" by fastforce
    from verifyInside_fs [OF v] c1 have c2: "contained rc (lf_fs l) (lf_fs l2)" by simp
    obtain tr l3 where tr: "os_CreateTemp ?dir l2 = (tr, l3)" by fastforce
    show ?thesis
    proof (cases "me = None \<and> ve = None \<and> (\<exists>t. tr = Inr t)")
      case False
      with assms(1) c ce target m v tr c1 c2 CreateTemp_err [of ?dir l2 _ l3] show ?thesis
        by (cases tr) (auto simp: local_Put_def split: option.splits)
    next
      case True
      then obtain t where t: "tr = Inr t" "me = None" "ve = None" by blast
      with tr obtain q where q: "kernel_resolve (lf_fs l2) ?dir = Inr q" "tf_dir t = ?dir"
        "tf_path t = q @ [tf_name t]" "lf_fs l2 (q @ [tf_name t]) = None"
        "lf_fs l3 = (lf_fs l2)(q @ [tf_name t] \<mapsto> File [])"
        by (auto elim: CreateTemp_ok)
      from v t(3) assms(2) obtain p where "eval_resolve (lf_fs l1) ?dir = Inr p" "prefix rc p"
        by (auto elim: verifyInside_ok)
      with kernel_eval [OF q(1)] verifyInside_fs [OF v] have rcq: "prefix rc q" by simp
      then have pre: "prefix rc (q @ r)" for r by (simp add: prefix_prefix)
      obtain res1 s1 l4 where p4: "put_object rd target t src l3 = (res1, s1, l4)" by (metis prod_cases3)
      obtain d b where d: "lf_fs l4 = (lf_fs l2)(d \<mapsto> File b)" "d = q @ [tf_name t] \<or> d = q @ [last_comp target]"
        by (rule put_object_cases [OF p4 q(1,4) refl q(2,3,5)]) auto
      then have c4: "contained rc (lf_fs l2) (lf_fs l4)" using pre by (auto intro: contained_upd)
      obtain re l5 where r5: "os_Remove (tf_dir t) (tf_name t) l4 = (re, l5)" by fastforce
      with assms(1) c ce target m v tr t p4 have l': "l' = l5" by (simp add: local_Put_def)
      have "contained rc (lf_fs l4) (lf_fs l5)"
        using Remove_fs [OF r5]
      proof (elim disjE exE conjE)
        fix q'
        assume q': "kernel_resolve (lf_fs l4) (tf_dir t) = Inr q'" and l5: "lf_fs l5 = (lf_fs l4)(q' @ [tf_name t] := None)"
        from q' d(1) have "q' = d \<or> kernel_resolve (lf_fs l2) (tf_dir t) = Inr q'"
          unfolding kernel_resolve_def by (metis walk_overwrite)
        with d(2) q(1,2) have "q' = d \<or> q' = q" by auto
        with d(2) pre rcq have "prefix rc (q' @ [tf_name t])" by auto
        with l5 show ?thesis by (auto intro: contained_upd)
      qed simp
      with c2 c4 l' show ?thesis by (blast intro: contained_trans)
    qed
  qed
qed

end
