(* ===== verification/Local_Contract.thy ===== *)
theory Local_Contract
  imports Local_Storage Storage_Contract
begin

text \<open>
  The local adapter keeps the storage contract. The state: the root is a directory, no links
  below it, every entry below it lies in a directory, the errors and suffixes the environment
  will produce are sane. The objects: the files below the root whose names are not those of
  temporary files.
\<close>

definition tree_ok :: "string list \<Rightarrow> fs \<Rightarrow> bool" where
  "tree_ok rc fs \<longleftrightarrow> dirpath fs rc \<and> (\<forall>p t. prefix rc p \<longrightarrow> fs p \<noteq> Some (Link t)) \<and>
     (\<forall>p c. prefix rc p \<longrightarrow> fs (p @ [c]) \<noteq> None \<longrightarrow> p = [] \<or> fs p = Some Dir)"

definition sane_error :: "go_error \<Rightarrow> bool" where
  "sane_error e \<longleftrightarrow> e \<noteq> io_EOF \<and> \<not> errors_is e os_ErrNotExist \<and> \<not> errors_is e ErrStorageObjectNotFound"

definition env_ok :: "local_fs \<Rightarrow> bool" where
  "env_ok l \<longleftrightarrow> (\<forall>e. Some e \<in> set (lf_faults l) \<union> set (lf_ctx l) \<longrightarrow> sane_error e) \<and>
     (\<forall>r \<in> set (lf_temps l). slash \<notin> set r)"

definition store_ok :: "string list \<Rightarrow> local_fs \<Rightarrow> bool" where
  "store_ok rc l \<longleftrightarrow> tree_ok rc (lf_fs l) \<and> env_ok l"

definition file_at :: "fs \<Rightarrow> string list \<Rightarrow> bytes option" where
  "file_at fs p = (case fs p of Some (File b) \<Rightarrow> Some b | _ \<Rightarrow> None)"

definition tree_objects :: "string list \<Rightarrow> fs \<Rightarrow> string \<Rightarrow> bytes option" where
  "tree_objects rc fs k = (if storable k then file_at fs (rc @ key_comps k) else None)"

definition local_objects :: "string list \<Rightarrow> local_fs \<Rightarrow> string \<Rightarrow> bytes option" where
  "local_objects rc l = tree_objects rc (lf_fs l)"

subsection \<open>Resolution below the root\<close>

lemma normal_plain: "normal_comp c \<Longrightarrow> plain_comp c"
  by (simp add: normal_comp_def plain_comp_def)

lemma tree_ok_parent:
  assumes "tree_ok rc fs" "prefix rc p" "fs (p @ q) \<noteq> None" "q \<noteq> []"
  shows "p = [] \<or> fs p = Some Dir"
  using assms(3,4)
proof (induction q rule: rev_induct)
  case (snoc c q)
  have "prefix rc (p @ q)" using assms(2) by (simp add: prefix_prefix)
  with snoc.prems assms(1) have d: "p @ q = [] \<or> fs (p @ q) = Some Dir"
    unfolding tree_ok_def by (metis append_assoc)
  show ?case
  proof (cases "q = []")
    case True
    with d show ?thesis by simp
  next
    case False
    with d snoc.IH show ?thesis by auto
  qed
qed simp

lemma walk_present:
  assumes "tree_ok rc fs" "prefix rc cur" "cs = [] \<or> fs (cur @ cs) \<noteq> None" "\<forall>c \<in> set cs. normal_comp c"
  shows "walk n fs cur cs = Inr (cur @ cs)"
  using assms(2-)
proof (induction cs arbitrary: cur)
  case (Cons c cs)
  have pc: "plain_comp c" using Cons.prems by (simp add: normal_plain)
  have pre: "prefix rc (cur @ [c])" using Cons.prems by (simp add: prefix_prefix)
  have nl: "fs (cur @ [c]) \<noteq> Some (Link t)" for t
    using assms(1) pre by (simp add: tree_ok_def)
  show ?case
  proof (cases "cs = []")
    case True
    with Cons.prems obtain nd where nd: "fs (cur @ [c]) = Some nd" by auto
    with nl True pc show ?thesis by (cases nd) (auto simp: walk_dir walk_file)
  next
    case False
    with tree_ok_parent [OF assms(1) pre, of cs] Cons.prems have "fs (cur @ [c]) = Some Dir" by simp
    with Cons.IH [OF pre] Cons.prems False pc show ?thesis by (simp add: walk_dir)
  qed
qed simp

lemma walk_absent:
  assumes "tree_ok rc fs" "prefix rc cur" "walk n fs cur cs = Inr p" "\<forall>c \<in> set cs. normal_comp c"
  shows "p = cur @ cs \<and> (cs = [] \<or> fs p \<noteq> None)"
  using assms(2-)
proof (induction cs arbitrary: cur)
  case (Cons c cs)
  have pc: "plain_comp c" using Cons.prems by (simp add: normal_plain)
  have pre: "prefix rc (cur @ [c])" using Cons.prems by (simp add: prefix_prefix)
  have nl: "fs (cur @ [c]) \<noteq> Some (Link t)" for t
    using assms(1) pre by (simp add: tree_ok_def)
  show ?case
  proof (cases "fs (cur @ [c])")
    case None
    with Cons.prems pc show ?thesis by (simp add: walk_missing)
  next
    case (Some nd)
    show ?thesis
    proof (cases nd)
      case Dir
      with Cons.IH [OF pre] Cons.prems Some pc show ?thesis by (auto simp: walk_dir)
    next
      case (File b)
      with Some pc Cons.prems show ?thesis by (auto simp: walk_file split: if_splits)
    next
      case (Link t)
      with nl [of t] Some show ?thesis by simp
    qed
  qed
qed simp

lemma tree_ok_rc: "tree_ok rc fs \<Longrightarrow> \<forall>c \<in> set rc. normal_comp c"
  by (simp add: tree_ok_def dirpath_def)

lemma walk_abs_path:
  assumes "tree_ok rc fs" "\<forall>c \<in> set cs. normal_comp c"
  shows "walk n fs [] (split_on slash (abs_path (rc @ cs))) = walk n fs rc cs"
proof -
  have "\<forall>c \<in> set (rc @ cs). normal_comp c" using assms tree_ok_rc by auto
  moreover have "walk n fs [] (rc @ cs) = walk n fs ([] @ rc) cs"
    using assms(1) by (intro walk_dirpath) (simp add: tree_ok_def)
  ultimately show ?thesis by (auto simp: split_abs_path walk_skip)
qed

lemma walk_Inl:
  assumes "tree_ok rc fs" "\<forall>c \<in> set cs. normal_comp c" "walk n fs rc cs = Inl e"
  shows "fs (rc @ cs) = None"
  using walk_present [OF assms(1) prefix_order.refl _ assms(2), of n] assms(3) by (cases "fs (rc @ cs)") auto

lemma resolve_store:
  assumes "tree_ok rc fs" "\<forall>c \<in> set cs. normal_comp c"
  shows kernel_store: "kernel_resolve fs (abs_path (rc @ cs)) = Inr p \<Longrightarrow> p = rc @ cs \<and> (cs = [] \<or> fs p \<noteq> None)"
    and eval_store: "eval_resolve fs (abs_path (rc @ cs)) = Inr p \<Longrightarrow> p = rc @ cs \<and> (cs = [] \<or> fs p \<noteq> None)"
    and kernel_store_Inl: "kernel_resolve fs (abs_path (rc @ cs)) = Inl e \<Longrightarrow> fs (rc @ cs) = None"
    and eval_store_Inl: "eval_resolve fs (abs_path (rc @ cs)) = Inl e \<Longrightarrow> fs (rc @ cs) = None"
  unfolding kernel_resolve_def eval_resolve_def walk_abs_path [OF assms]
  using walk_absent [OF assms(1) prefix_order.refl _ assms(2)] walk_Inl [OF assms]
  by simp_all

subsection \<open>Changes that keep the tree\<close>

lemma dirpath_upd:
  assumes "dirpath fs p" "\<forall>k. 0 < k \<and> k \<le> length p \<longrightarrow> take k p \<noteq> q"
  shows "dirpath (fs(q := x)) p"
  using assms by (simp add: dirpath_def)

lemma dirpath_self: "dirpath fs p \<Longrightarrow> p = [] \<or> fs p = Some Dir"
  by (cases p rule: rev_cases) (auto simp: dirpath_snoc)

lemma prefix_take: "prefix rc (take k p) \<Longrightarrow> prefix rc p"
  by (metis append_take_drop_id prefix_prefix)

text \<open>Below the root, the root itself excluded, only directories matter to the rest.\<close>

lemma tree_ok_put:
  assumes "tree_ok rc fs" "prefix rc p" "p = [] \<or> fs p = Some Dir" "fs (p @ [c]) = None \<or> fs (p @ [c]) = Some (File b)"
    "nd = Dir \<or> nd = File b'"
  shows "tree_ok rc (fs(p @ [c] \<mapsto> nd))"
proof -
  have d: "dirpath fs rc" using assms(1) by (simp add: tree_ok_def)
  have "take k rc \<noteq> p @ [c]" if "0 < k" "k \<le> length rc" for k
  proof
    assume t: "take k rc = p @ [c]"
    with that d have "fs (p @ [c]) = Some Dir" by (auto simp: dirpath_def)
    with assms(4) show False by simp
  qed
  then have "dirpath (fs(p @ [c] \<mapsto> nd)) rc" using d by (intro dirpath_upd) auto
  moreover have "q = [] \<or> (fs(p @ [c] \<mapsto> nd)) q = Some Dir"
    if q: "prefix rc q" "(fs(p @ [c] \<mapsto> nd)) (q @ [x]) \<noteq> None" for q x
  proof (cases "q @ [x] = p @ [c]")
    case True
    with assms(3) show ?thesis by auto
  next
    case False
    with q have "fs (q @ [x]) \<noteq> None" by (simp split: if_splits)
    with assms(1) q(1) have "q = [] \<or> fs q = Some Dir" by (auto simp: tree_ok_def)
    with assms(4) show ?thesis by (cases "q = p @ [c]") auto
  qed
  ultimately show ?thesis using assms(1,5) unfolding tree_ok_def by auto
qed

lemma tree_ok_del:
  assumes "tree_ok rc fs" "prefix rc p" "\<And>x. fs (p @ [c] @ [x]) = None"
    "fs (p @ [c]) \<noteq> Some Dir \<or> \<not> prefix (p @ [c]) rc"
  shows "tree_ok rc (fs(p @ [c] := None))"
proof -
  have d: "dirpath fs rc" using assms(1) by (simp add: tree_ok_def)
  have "take k rc \<noteq> p @ [c]" if "0 < k" "k \<le> length rc" for k
  proof
    assume t: "take k rc = p @ [c]"
    with that d have "fs (p @ [c]) = Some Dir" by (auto simp: dirpath_def)
    with assms(4) t show False by (metis take_is_prefix)
  qed
  then have "dirpath (fs(p @ [c] := None)) rc" using d by (intro dirpath_upd) auto
  moreover have "q = [] \<or> (fs(p @ [c] := None)) q = Some Dir"
    if q: "prefix rc q" "(fs(p @ [c] := None)) (q @ [x]) \<noteq> None" for q x
  proof -
    from q have "fs (q @ [x]) \<noteq> None" by (simp split: if_splits)
    moreover from this assms(3) [of x] have "q \<noteq> p @ [c]" by auto
    ultimately show ?thesis using assms(1) q(1) by (auto simp: tree_ok_def)
  qed
  ultimately show ?thesis using assms(1) unfolding tree_ok_def by auto
qed

subsection \<open>What the calls keep\<close>

text \<open>No call adds to the errors, cancellations and suffixes the environment will produce.\<close>

definition env_le :: "local_fs \<Rightarrow> local_fs \<Rightarrow> bool" where
  "env_le l l' \<longleftrightarrow> set (lf_faults l') \<subseteq> set (lf_faults l) \<and> set (lf_ctx l') \<subseteq> set (lf_ctx l) \<and>
     lf_temps l' = lf_temps l"

lemma env_le_refl [simp]: "env_le l l"
  by (simp add: env_le_def)

lemma env_le_trans: "env_le a b \<Longrightarrow> env_le b c \<Longrightarrow> env_le a c"
  by (auto simp: env_le_def)

lemma env_le_ok: "env_le l l' \<Longrightarrow> env_ok l \<Longrightarrow> env_ok l'"
  unfolding env_le_def env_ok_def by (metis UnE UnI1 UnI2 subsetD)

lemma env_le_tree [simp]: "env_le l (lf_put p nd l') = env_le l l'" "env_le l (lf_del p l') = env_le l l'"
  by (simp_all add: env_le_def lf_put_def lf_del_def)

lemma os_fault_env: "os_fault l = (e, l') \<Longrightarrow> env_le l l'"
  by (auto simp: os_fault_def env_le_def split: list.splits)

lemma os_fault_error: "os_fault l = (Some e, l') \<Longrightarrow> env_ok l \<Longrightarrow> sane_error e"
  by (auto simp: os_fault_def env_ok_def split: list.splits)

lemma ctx_check_env: "ctx_check l = (e, l') \<Longrightarrow> env_le l l'"
  by (auto simp: ctx_check_def ctx_err_def env_le_def split: prod.splits list.splits)

lemma ctx_check_error: "ctx_check l = (Some e, l') \<Longrightarrow> env_ok l \<Longrightarrow> sane_error e"
  by (auto simp: ctx_check_def ctx_err_def env_ok_def split: prod.splits list.splits)

lemma EvalSymlinks_env: "filepath_EvalSymlinks p l = (r, l') \<Longrightarrow> env_le l l'"
  by (auto simp: filepath_EvalSymlinks_def split: prod.splits option.splits sum.splits dest: os_fault_env)

lemma verifyInside_env: "verifyInside root p l = (r, l') \<Longrightarrow> env_le l l'"
  by (auto simp: verifyInside_def Let_def split: prod.splits sum.splits if_splits dest: EvalSymlinks_env)

lemma mkdir_all_env: "env_le l (snd (mkdir_all l cur cs))"
proof (induction l cur cs rule: mkdir_all.induct)
  case (2 l cur c cs)
  have put: "env_le (lf_put (cur @ [c]) Dir l) g \<Longrightarrow> env_le l g" for g
    by (simp add: env_le_def lf_put_def)
  show ?case
    using 2 by (auto split: option.splits node.splits sum.splits errno.splits intro: put)
qed simp

lemma MkdirAll_env: "os_MkdirAll path l = (e, l') \<Longrightarrow> env_le l l'"
proof -
  assume m: "os_MkdirAll path l = (e, l')"
  obtain fe l0 where f: "os_fault l = (fe, l0)" by fastforce
  with m mkdir_all_env [of l0 "[]" "split_on slash path"] os_fault_env [OF f] show ?thesis
    by (auto simp: os_MkdirAll_def split: prod.splits option.splits intro: env_le_trans)
qed

lemma CreateTemp_env: "os_CreateTemp dir l = (r, l') \<Longrightarrow> env_le l l'"
  by (auto simp: os_CreateTemp_def split: prod.splits option.splits sum.splits if_splits dest: os_fault_env)

lemma find_in_set: "find P xs = Some x \<Longrightarrow> x \<in> set xs"
  by (induction xs) (auto split: if_splits)

lemma CreateTemp_name:
  assumes "os_CreateTemp dir l = (Inr t, l')" "env_ok l"
  shows "normal_comp (tf_name t) \<and> has_prefix (tf_name t) ''.upload-''"
proof -
  obtain r where r: "r \<in> set (lf_temps l)" "tf_name t = temp_prefix @ r"
    using assms(1)
    by (auto simp: os_CreateTemp_def os_fault_def dest!: find_in_set
        split: prod.splits option.splits sum.splits if_splits list.splits)
  with assms(2) have "slash \<notin> set r" by (simp add: env_ok_def)
  with r(2) show ?thesis
    by (simp add: normal_comp_def temp_prefix_def dot_def dotdot_def slash_def has_prefix_def)
qed

lemma Rename_env: "os_Rename da a dc c l = (e, l') \<Longrightarrow> env_le l l'"
  by (auto simp: os_Rename_def split: prod.splits option.splits sum.splits if_splits dest: os_fault_env)

lemma Remove_env: "os_Remove d c l = (e, l') \<Longrightarrow> env_le l l'"
  by (auto simp: os_Remove_def split: prod.splits option.splits sum.splits if_splits dest: os_fault_env)

lemma put_object_env:
  assumes "put_object rd target t src l = (res, src', l')"
    "lf_fs l = g(tf_path t \<mapsto> File b)"
  shows "env_le l l'"
proof (cases "io_copy (file_write (tf_path t)) (context_read rd) \<lparr>cx_ctx = lf_ctx l, cx_reader = src\<rparr> l")
  case None
  with assms show ?thesis by (simp add: put_object_def)
next
  case (Some x)
  obtain ce R l1 where x: "x = (ce, R, l1)" by (metis prod_cases3)
  from copy_to_file [OF Some [unfolded x] assms(2)]
  have e1: "env_le l (l1\<lparr>lf_ctx := cx_ctx R\<rparr>)" by (simp add: env_le_def)
  obtain ke l2 where k: "os_Close (l1\<lparr>lf_ctx := cx_ctx R\<rparr>) = (ke, l2)" by fastforce
  with e1 have e2: "env_le l l2" unfolding os_Close_def by (blast intro: env_le_trans os_fault_env)
  from assms(1) Some x k e2 show ?thesis
    by (auto simp: put_object_def split: option.splits prod.splits dest!: Rename_env intro: env_le_trans)
qed

text \<open>Making the directories of a path below the root.\<close>

lemma mkdir_dirpath:
  "dirpath (lf_fs l) (cur @ ds) \<Longrightarrow> mkdir_all l cur (ds @ cs) = mkdir_all l (cur @ ds) cs"
proof (induction ds arbitrary: cur)
  case (Cons d ds)
  have "dirpath (lf_fs l) ((cur @ [d]) @ ds)" using Cons.prems by simp
  note IH = Cons.IH [OF this]
  from Cons.prems have "dirpath (lf_fs l) (cur @ [d])"
    using dirpath_append [of "lf_fs l" "cur @ [d]" ds] by simp
  with IH show ?case by (simp add: dirpath_snoc normal_comp_def)
qed simp

lemma mkdir_store:
  assumes "tree_ok rc (lf_fs l)" "prefix rc cur" "dirpath (lf_fs l) cur" "\<forall>c \<in> set cs. normal_comp c"
    "mkdir_all l cur cs = (e, l')"
  shows "tree_ok rc (lf_fs l') \<and> (e = None \<longrightarrow> dirpath (lf_fs l') (cur @ cs))"
  using assms
proof (induction cs arbitrary: l cur)
  case (Cons c cs)
  have c: "c \<noteq> []" "c \<noteq> dot" "c \<noteq> dotdot" "normal_comp c" using Cons.prems by (auto simp: normal_comp_def)
  have pre: "prefix rc (cur @ [c])" using Cons.prems by (simp add: prefix_prefix)
  have n: "\<forall>c \<in> set cs. normal_comp c" using Cons.prems by simp
  show ?case
  proof (cases "lf_fs l (cur @ [c])")
    case None
    let ?l = "lf_put (cur @ [c]) Dir l"
    have t: "tree_ok rc (lf_fs ?l)"
      using tree_ok_put [OF Cons.prems(1,2) dirpath_self [OF Cons.prems(3)], of c undefined Dir] None by simp
    have d: "dirpath (lf_fs ?l) (cur @ [c])"
    proof -
      have "take k cur \<noteq> cur @ [c]" for k by (auto dest: arg_cong [where f = length])
      then have "dirpath (lf_fs ?l) cur" using Cons.prems(3) unfolding lf_fs_put by (intro dirpath_upd) auto
      then show ?thesis using c by (simp add: dirpath_snoc)
    qed
    have "mkdir_all ?l (cur @ [c]) cs = (e, l')" using Cons.prems(5) c None by simp
    from Cons.IH [OF t pre d n this] show ?thesis by simp
  next
    case (Some nd)
    show ?thesis
    proof (cases nd)
      case Dir
      with Some c Cons.prems have "dirpath (lf_fs l) (cur @ [c])" by (simp add: dirpath_snoc)
      then have "tree_ok rc (lf_fs l') \<and> (e = None \<longrightarrow> dirpath (lf_fs l') ((cur @ [c]) @ cs))"
        using Cons.IH [OF Cons.prems(1) pre _ n] Cons.prems(5) c Some Dir by simp
      then show ?thesis by simp
    next
      case (File b)
      with Some c Cons.prems show ?thesis by auto
    next
      case (Link t)
      with Some pre Cons.prems(1) show ?thesis by (auto simp: tree_ok_def)
    qed
  qed
qed simp

lemma MkdirAll_store:
  assumes "tree_ok rc (lf_fs l)" "\<forall>c \<in> set cs. normal_comp c" "os_MkdirAll (abs_path (rc @ cs)) l = (e, l')"
  shows "tree_ok rc (lf_fs l') \<and> (e = None \<longrightarrow> dirpath (lf_fs l') (rc @ cs))"
proof -
  obtain fe l0 where f: "os_fault l = (fe, l0)" by fastforce
  note fs = os_fault_fs [OF f]
  have n: "\<forall>c \<in> set (rc @ cs). normal_comp c" using assms tree_ok_rc by auto
  have d: "dirpath (lf_fs l0) rc" using assms(1) fs by (simp add: tree_ok_def)
  have "mkdir_all l0 [] (split_on slash (abs_path (rc @ cs))) = mkdir_all l0 [] (rc @ cs)"
    using n by (auto simp: split_abs_path)
  also have "\<dots> = mkdir_all l0 rc cs" using mkdir_dirpath [of l0 "[]" rc cs] d by simp
  finally have m: "mkdir_all l0 [] (split_on slash (abs_path (rc @ cs))) = mkdir_all l0 rc cs" .
  obtain me lm where r: "mkdir_all l0 rc cs = (me, lm)" by fastforce
  from mkdir_store [OF _ prefix_order.refl d assms(2) r] assms(1) fs
  have "tree_ok rc (lf_fs lm) \<and> (me = None \<longrightarrow> dirpath (lf_fs lm) (rc @ cs))" by simp
  with assms m r f fs show ?thesis by (cases fe) (auto simp: os_MkdirAll_def)
qed

subsection \<open>Objects and tree updates\<close>

lemma storable_comps:
  assumes "storable k"
  shows "key_comps k \<noteq> []" "\<forall>c \<in> set (key_comps k). normal_comp c"
    "\<not> has_prefix (last (key_comps k)) ''.upload-''" "join_with slash (key_comps k) = k"
  using assms validateKey_cases [of k]
  by (auto simp: storable_def key_comps_def join_split)

lemma key_comps_inj: "key_comps j = key_comps k \<Longrightarrow> j = k"
  by (metis join_split key_comps_def)

lemma pathForWrite_storable:
  assumes "storable k" "\<forall>c \<in> set rc. normal_comp c"
  shows "pathForWrite (abs_path rc) k = Inr (abs_path (rc @ key_comps k))"
  using path_join_abs [OF assms(2) storable_comps(1,2) [OF assms(1)]] storable_comps(4) [OF assms(1)] assms(1)
  by (simp add: pathForWrite_def storable_def)

lemma tree_objects_dirs: "only_dirs f g \<Longrightarrow> tree_objects rc g = tree_objects rc f"
proof (rule ext)
  fix k
  assume "only_dirs f g"
  then have "g p = f p \<or> f p = None \<and> g p = Some Dir" for p by (simp add: only_dirs_def)
  from this [of "rc @ key_comps k"] show "tree_objects rc g k = tree_objects rc f k"
    by (auto simp: tree_objects_def file_at_def)
qed

lemma tree_objects_temp:
  assumes "has_prefix c ''.upload-''"
  shows "tree_objects rc (f(rc @ ds @ [c] := x)) = tree_objects rc f"
proof (rule ext)
  fix k
  have "rc @ ds @ [c] \<noteq> rc @ key_comps k" if "storable k"
    using storable_comps(3) [OF that] assms by (metis last_snoc same_append_eq)
  then show "tree_objects rc (f(rc @ ds @ [c] := x)) k = tree_objects rc f k"
    by (auto simp: tree_objects_def file_at_def)
qed

lemma tree_objects_put:
  assumes "storable k"
  shows "tree_objects rc (f(rc @ key_comps k \<mapsto> File b)) = (tree_objects rc f)(k \<mapsto> b)"
proof (rule ext)
  fix j
  show "tree_objects rc (f(rc @ key_comps k \<mapsto> File b)) j = ((tree_objects rc f)(k \<mapsto> b)) j"
    using assms key_comps_inj [of j k] by (auto simp: tree_objects_def file_at_def)
qed

lemma tree_objects_del:
  assumes "storable k"
  shows "tree_objects rc (f(rc @ key_comps k := None)) = (tree_objects rc f)(k := None)"
proof (rule ext)
  fix j
  show "tree_objects rc (f(rc @ key_comps k := None)) j = ((tree_objects rc f)(k := None)) j"
    using assms key_comps_inj [of j k] by (auto simp: tree_objects_def file_at_def)
qed

lemma key_split:
  assumes "storable k"
  obtains ds c where "key_comps k = ds @ [c]" "\<not> has_prefix c ''.upload-''" "\<forall>d \<in> set ds. normal_comp d" "normal_comp c"
  using storable_comps [OF assms] by (cases "key_comps k" rule: rev_cases) auto

text \<open>A temporary file comes and goes without a trace in the objects.\<close>

lemma tree_temp:
  assumes "tree_ok rc g" "dirpath g (rc @ ds)" "g (rc @ ds @ [n]) = None"
  shows "tree_ok rc (g(rc @ ds @ [n] \<mapsto> File b))"
  using tree_ok_put [OF assms(1), of "rc @ ds" n _ "File b" b] dirpath_self [OF assms(2)] assms(3) by simp

lemma good_file_write: "plain.good_write (file_data p) (file_write p)"
  by (auto simp: plain.good_write_def file_write_def file_data_def os_fault_def
      split: prod.splits option.splits list.splits)

text \<open>
  \<open>Put\<close> once its directory is made: the temporary file is created, filled, renamed, removed.
\<close>

lemma Put_publish:
  assumes ok: "tree_ok rc (lf_fs l2)" "dirpath (lf_fs l2) (rc @ ds)" "env_ok l2"
    and k: "key_comps k = ds @ [c]" "storable k"
    and r: "upload_inv tot r"
    and t: "os_CreateTemp (abs_path (rc @ ds)) l2 = (Inr t, l3)"
    and p: "put_object upload_read (abs_path (rc @ ds @ [c])) t r l3 = (res, r', l4)"
    and rm: "os_Remove (tf_dir t) (tf_name t) l4 = (re, l5)"
  shows "tree_ok rc (lf_fs l5) \<and> env_le l2 l5 \<and>
    (res = Inr () \<longrightarrow> tree_objects rc (lf_fs l5) = (tree_objects rc (lf_fs l2))(k \<mapsto> upload_content r) \<and>
       upload_fin r = io_EOF \<and> upload_fini tot r') \<and>
    (\<forall>e. res = Inl e \<longrightarrow> tree_objects rc (lf_fs l5) = tree_objects rc (lf_fs l2))"
proof -
  let ?g = "lf_fs l2" and ?q = "rc @ ds" and ?n = "tf_name t"
  have nc: "\<forall>x \<in> set (rc @ ds @ [c]). normal_comp x"
    using tree_ok_rc [OF ok(1)] storable_comps(2) [OF k(2)] k(1) by auto
  have dir: "filepath_dir (abs_path (rc @ ds @ [c])) = abs_path ?q"
    and lc: "last_comp (abs_path (rc @ ds @ [c])) = c"
    using filepath_dir_abs [of "rc @ ds" c] last_comp_abs [of "rc @ ds" c] nc by simp_all
  have res_q: "kernel_resolve g (abs_path ?q) = Inr ?q" if "dirpath g ?q" for g
    unfolding kernel_resolve_def by (rule resolve_dirpath [OF that])
  from t res_q [OF ok(2)] have t': "tf_dir t = abs_path ?q" "tf_path t = ?q @ [?n]" "?g (?q @ [?n]) = None"
    "lf_fs l3 = ?g(?q @ [?n] \<mapsto> File [])"
    by (auto elim!: CreateTemp_ok)
  have up: "has_prefix ?n ''.upload-''" using CreateTemp_name [OF t ok(3)] by simp
  have e23: "env_le l2 l3" by (rule CreateTemp_env [OF t])
  have e24: "env_le l2 l4" using put_object_env [OF p] t'(2,4) e23 by (auto intro: env_le_trans)
  have e25: "env_le l2 l5" using Remove_env [OF rm] e24 by (auto intro: env_le_trans)
  have keep: "dirpath (?g(?q @ [x] \<mapsto> File b)) ?q" if "?g (?q @ [x]) \<noteq> Some Dir" for x b
    using ok(2) by (intro dirpath_upd) (auto dest!: arg_cong [where f = length])
  have rmfs: "lf_fs l5 = lf_fs l4 \<or> lf_fs l5 = (lf_fs l4)(?q @ [?n] := None)" if "dirpath (lf_fs l4) ?q"
    using Remove_fs [OF rm] res_q [OF that] t'(1) by auto
  have cne: "c \<noteq> ?n" using up storable_comps(3) [OF k(2)] k(1) by auto
  from put_object_cases [OF p, of ?g ?q "?q @ [?n]" "[]"] res_q [OF ok(2)] t' dir lc
  consider (failed) e b where "res = Inl e" "lf_fs l4 = ?g(?q @ [?n] \<mapsto> File b)"
    | (published) R l1 b where "res = Inr ()" "r' = cx_reader R"
        "io_copy (file_write (?q @ [?n])) (context_read upload_read) \<lparr>cx_ctx = lf_ctx l3, cx_reader = r\<rparr> l3 = Some (None, R, l1)"
        "lf_fs l1 = ?g(?q @ [?n] \<mapsto> File b)" "lf_fs l4 = ?g(?q @ [c] \<mapsto> File b)"
        "?g (?q @ [c]) \<noteq> Some Dir"
    by (metis (no_types, opaque_lifting))
  then show ?thesis
  proof cases
    case failed
    have t4: "tree_ok rc (lf_fs l4)"
      using tree_temp [OF ok(1,2)] t'(3) failed(2) by simp
    have "lf_fs l5 = lf_fs l4 \<or> lf_fs l5 = ?g"
      using rmfs keep [of ?n b] failed(2) t'(3) by auto
    with t4 ok(1) have t5: "tree_ok rc (lf_fs l5)" by auto
    have "tree_objects rc (lf_fs l4) = tree_objects rc ?g"
      using tree_objects_temp [OF up, of rc ?g ds] failed(2) by simp
    with \<open>lf_fs l5 = lf_fs l4 \<or> lf_fs l5 = ?g\<close> failed(1) t5 e25 show ?thesis by auto
  next
    case published
    have pre: "prefix rc ?q" by simp
    have nd: "?g (?q @ [c]) = None \<or> ?g (?q @ [c]) = Some (File (the (file_at ?g (?q @ [c]))))"
    proof (cases "?g (?q @ [c])")
      case (Some nd)
      have "prefix rc (?q @ [c])" by simp
      then have "?g (?q @ [c]) \<noteq> Some (Link x)" for x using ok(1) by (simp add: tree_ok_def)
      with Some published(6) show ?thesis by (cases nd) (auto simp: file_at_def)
    qed simp
    have fs: "lf_fs l5 = ?g(?q @ [c] \<mapsto> File b)"
      using rmfs keep [of c b] published(5,6) t'(3) cne by (auto simp: fun_eq_iff)
    have "tree_ok rc (lf_fs l5)"
      using tree_ok_put [OF ok(1) pre dirpath_self [OF ok(2)] nd, of "File b" b] fs by simp
    moreover have "tree_objects rc (lf_fs l5) = (tree_objects rc ?g)(k \<mapsto> b)"
      using tree_objects_put [OF k(2), of rc ?g b] fs k(1) by simp
    moreover have "upload_fin r = io_EOF \<and> b = upload_content r \<and> upload_fini tot r'"
    proof -
      have "\<forall>e. Some e \<in> set (lf_ctx l3) \<longrightarrow> e \<noteq> io_EOF"
        using env_le_ok [OF e23 ok(3)] by (auto simp: env_ok_def sane_error_def)
      from upload.copy_context [OF good_file_write this r, of "?q @ [?n]" l3] published(2,3,4) t'(4)
      show ?thesis by (auto simp: file_data_def)
    qed
    ultimately show ?thesis using e25 published(1) by simp
  qed
qed

lemma Put_store:
  assumes ok: "store_ok rc l" and k: "storable k" and r: "upload_inv tot r"
    and put: "local_Put (abs_path rc) upload_read k r mt l = (res, r', l')"
  shows "store_ok rc l' \<and>
    (res = Inr () \<longrightarrow> local_objects rc l' = (local_objects rc l)(k \<mapsto> upload_content r) \<and>
       upload_fin r = io_EOF \<and> upload_fini tot r') \<and>
    (\<forall>e. res = Inl e \<longrightarrow> local_objects rc l' = local_objects rc l)"
proof -
  let ?out = "\<lambda>l'. tree_ok rc (lf_fs l') \<and> env_le l l'"
  from ok have t0: "tree_ok rc (lf_fs l)" and e0: "env_ok l" by (auto simp: store_ok_def)
  obtain ds c where dc: "key_comps k = ds @ [c]" "\<forall>d \<in> set ds. normal_comp d" "normal_comp c"
    by (rule key_split [OF k])
  have nc: "\<forall>x \<in> set (rc @ ds @ [c]). normal_comp x" using tree_ok_rc [OF t0] dc by auto
  have path: "pathForWrite (abs_path rc) k = Inr (abs_path (rc @ ds @ [c]))"
    using pathForWrite_storable [OF k tree_ok_rc [OF t0]] dc(1) by simp
  have dir: "filepath_dir (abs_path (rc @ ds @ [c])) = abs_path (rc @ ds)"
    using filepath_dir_abs [of "rc @ ds" c] nc by simp
  obtain ce l0 where c0: "ctx_check l = (ce, l0)" by fastforce
  note fs0 = ctx_check_fs [OF c0] and env0 = ctx_check_env [OF c0]
  obtain me l1 where m: "os_MkdirAll (abs_path (rc @ ds)) l0 = (me, l1)" by fastforce
  from MkdirAll_store [OF _ dc(2) m] t0 fs0
  have t1: "tree_ok rc (lf_fs l1)" and d1: "me = None \<Longrightarrow> dirpath (lf_fs l1) (rc @ ds)" by auto
  from MkdirAll_only_dirs [OF m] fs0 have o1: "tree_objects rc (lf_fs l1) = tree_objects rc (lf_fs l)"
    by (simp add: tree_objects_dirs)
  have env1: "env_le l l1" using env0 MkdirAll_env [OF m] by (rule env_le_trans)
  obtain ve l2 where v: "verifyInside (abs_path rc) (abs_path (rc @ ds)) l1 = (ve, l2)" by fastforce
  note fs2 = verifyInside_fs [OF v]
  have env2: "env_le l l2" using env1 verifyInside_env [OF v] by (rule env_le_trans)
  obtain tr l3 where tr: "os_CreateTemp (abs_path (rc @ ds)) l2 = (tr, l3)" by fastforce
  have env3: "env_le l l3" using env2 CreateTemp_env [OF tr] by (rule env_le_trans)
  have out: "store_ok rc x" if "?out x" for x
    using that env_le_ok [OF _ e0] by (simp add: store_ok_def)
  note unf = local_Put_def c0 path dir m v tr
  show ?thesis
  proof (cases "ce = None \<and> me = None \<and> ve = None \<and> (\<exists>t. tr = Inr t)")
    case False
    consider (a) e where "ce = Some e" | (b) e where "ce = None" "me = Some e"
      | (c) e where "ce = None" "me = None" "ve = Some e" | (d) e where "ce = None" "me = None" "ve = None" "tr = Inl e"
      using False by (cases ce; cases me; cases ve; cases tr) auto
    then show ?thesis
    proof cases
      case a
      with put have "l' = l0" "\<exists>e. res = Inl e" by (auto simp: unf)
      with t0 fs0 env0 out show ?thesis by (auto simp: local_objects_def)
    next
      case b
      with put have "l' = l1" "\<exists>e. res = Inl e" by (auto simp: unf)
      with t1 o1 env1 out show ?thesis by (auto simp: local_objects_def)
    next
      case c
      with put have "l' = l2" "\<exists>e. res = Inl e" by (auto simp: unf)
      with t1 o1 fs2 env2 out show ?thesis by (auto simp: local_objects_def)
    next
      case d
      with put have "l' = l3" "\<exists>e. res = Inl e" by (auto simp: unf)
      with t1 o1 fs2 env3 out CreateTemp_err [of _ l2 e l3] tr d(4) show ?thesis
        by (auto simp: local_objects_def)
    qed
  next
    case True
    then obtain t where t: "tr = Inr t" "ce = None" "me = None" "ve = None" by blast
    obtain res1 s1 l4 where p4: "put_object upload_read (abs_path (rc @ ds @ [c])) t r l3 = (res1, s1, l4)"
      by (metis prod_cases3)
    obtain re l5 where r5: "os_Remove (tf_dir t) (tf_name t) l4 = (re, l5)" by fastforce
    from put t p4 r5 have l': "l' = l5" "res = res1" "r' = s1" by (simp_all add: unf)
    have "tree_ok rc (lf_fs l2)" "dirpath (lf_fs l2) (rc @ ds)" "env_ok l2"
      using t1 d1 t(3) fs2 env_le_ok [OF env2 e0] by simp_all
    from Put_publish [OF this dc(1) k r tr [unfolded t(1)] p4 r5] l' fs2 o1 out [of l5] env_le_trans [OF env2]
    show ?thesis by (simp add: local_objects_def)
  qed
qed

lemma verifyInside_present:
  assumes "tree_ok rc (lf_fs l)" "env_ok l" "\<forall>c \<in> set cs. normal_comp c" "lf_fs l (rc @ cs) \<noteq> None"
    "verifyInside root (abs_path (rc @ cs)) l = (Some e, l')"
  shows "\<not> errors_is e os_ErrNotExist \<and> \<not> errors_is e ErrStorageObjectNotFound"
proof -
  obtain fe lf where f: "os_fault l = (fe, lf)" by fastforce
  note fsf = os_fault_fs [OF f]
  show ?thesis
  proof (cases fe)
    case None
    with assms(4) eval_store_Inl [OF assms(1,3)] obtain p where "eval_resolve (lf_fs l) (abs_path (rc @ cs)) = Inr p"
      by (metis old.sum.exhaust)
    with assms(5) None f fsf show ?thesis
      by (auto simp: verifyInside_def filepath_EvalSymlinks_def Let_def escapes_root_def split: if_splits)
  next
    case (Some err)
    with assms(5) f os_fault_error [of l err lf] assms(2) show ?thesis
      by (auto simp: verifyInside_def filepath_EvalSymlinks_def sane_error_def)
  qed
qed

text \<open>Opening and deleting: the key resolves to its own path below the root.\<close>

lemma Existing_store:
  assumes ok: "store_ok rc l" and k: "storable k"
    and p: "pathForExisting (abs_path rc) k l = (res, l')"
  shows "lf_fs l' = lf_fs l \<and> env_le l l' \<and>
    (\<forall>t. res = Inr t \<longrightarrow> t = abs_path (rc @ key_comps k) \<and> lf_fs l (rc @ key_comps k) \<noteq> None) \<and>
    (\<forall>e. res = Inl e \<longrightarrow> errors_is e os_ErrNotExist \<or> errors_is e ErrStorageObjectNotFound \<longrightarrow>
       lf_fs l (rc @ key_comps k) = None)"
proof -
  from ok have t0: "tree_ok rc (lf_fs l)" and e0: "env_ok l" by (auto simp: store_ok_def)
  note n = storable_comps(1,2) [OF k]
  note path = pathForWrite_storable [OF k tree_ok_rc [OF t0]]
  let ?p = "abs_path (rc @ key_comps k)"
  obtain er l1 where ev: "filepath_EvalSymlinks ?p l = (er, l1)" by fastforce
  note fs1 = EvalSymlinks_fs [OF ev] and env1 = EvalSymlinks_env [OF ev]
  obtain fe lf where f: "os_fault l = (fe, lf)" by fastforce
  note fsf = os_fault_fs [OF f]
  show ?thesis
  proof (cases er)
    case (Inl err)
    have "errors_is err os_ErrNotExist \<or> errors_is err ErrStorageObjectNotFound \<Longrightarrow> lf_fs l (rc @ key_comps k) = None"
      using ev Inl f os_fault_error [OF _ e0, of err lf] eval_store_Inl [OF t0 n(2)] fsf
      by (auto simp: filepath_EvalSymlinks_def sane_error_def split: option.splits sum.splits)
    with p path ev Inl fs1 env1 show ?thesis
      by (auto simp: pathForExisting_def errors_is.simps split: if_splits)
  next
    case (Inr t)
    have t: "t = ?p \<and> lf_fs l (rc @ key_comps k) \<noteq> None"
      using ev Inr f fsf eval_store [OF t0 n(2)] n(1)
      by (auto simp: filepath_EvalSymlinks_def split: option.splits sum.splits)
    obtain ve l2 where v: "verifyInside (abs_path rc) t l1 = (ve, l2)" by fastforce
    have e2: "env_le l l2" using env1 verifyInside_env [OF v] by (rule env_le_trans)
    have "env_ok l1" using env1 e0 by (rule env_le_ok)
    show ?thesis
    proof (cases ve)
      case None
      with t v e2 p path ev Inr fs1 verifyInside_fs [OF v] show ?thesis
        by (auto simp: pathForExisting_def)
    next
      case (Some e)
      with t v verifyInside_present [of rc l1 "key_comps k" "abs_path rc" e l2] fs1 t0 \<open>env_ok l1\<close> n(2)
      have "\<not> errors_is e os_ErrNotExist \<and> \<not> errors_is e ErrStorageObjectNotFound" by simp
      with Some t v e2 p path ev Inr fs1 verifyInside_fs [OF v] show ?thesis by (auto simp: pathForExisting_def)
    qed
  qed
qed

lemma Open_body:
  assumes "os_fault l1 = (None, l2)" "kernel_resolve (lf_fs l2) path = Inr p" "os_fault l2 = (re, l3)" "env_ok l2"
  obtains body n where "os_Open path l1 = (Inr (body, n), l3)"
    "source_fin body = io_EOF \<longrightarrow> file_at (lf_fs l3) p = Some (source_bytes body)"
proof (cases "file_at (lf_fs l3) p")
  case None
  with assms have "os_Open path l1 = (Inr ([([], Some (PathErr ''read'' path EISDIR))], lf_dirsize l3), l3)"
    by (auto simp: os_Open_def file_at_def split: option.splits node.splits)
  then show ?thesis by (rule that) (simp add: io_EOF_def)
next
  case (Some b)
  then have b: "lf_fs l3 p = Some (File b)" by (auto simp: file_at_def split: option.splits node.splits)
  have "re = Some e \<Longrightarrow> e \<noteq> io_EOF" for e
    using os_fault_error [of l2 e l3] assms(3,4) by (simp add: sane_error_def)
  with assms b Some show ?thesis
    by (intro that [of "case re of Some e \<Rightarrow> [([], Some e)] | None \<Rightarrow> (if b = [] then [] else [(b, None)])" "int (length b)"])
       (auto simp: os_Open_def split: option.splits)
qed

lemma Open_store:
  assumes ok: "store_ok rc l" and k: "storable k"
    and opn: "local_Open (abs_path rc) k l = (res, l')"
  shows "store_ok rc l' \<and> local_objects rc l' = local_objects rc l \<and>
    (\<forall>ob. res = Inr ob \<longrightarrow> source_fin (obj_Body ob) = io_EOF \<longrightarrow>
       local_objects rc l k = Some (source_bytes (obj_Body ob))) \<and>
    (\<forall>e. res = Inl e \<longrightarrow> errors_is e ErrStorageObjectNotFound \<longrightarrow> local_objects rc l k = None)"
proof -
  from ok have t0: "tree_ok rc (lf_fs l)" and e0: "env_ok l" by (auto simp: store_ok_def)
  let ?p = "rc @ key_comps k"
  obtain ce l0 where c0: "ctx_check l = (ce, l0)" by fastforce
  note fs0 = ctx_check_fs [OF c0] and env0 = ctx_check_env [OF c0]
  have ok0: "store_ok rc l0" using t0 fs0 env_le_ok [OF env0 e0] by (simp add: store_ok_def)
  have out: "store_ok rc x \<and> local_objects rc x = local_objects rc l" if "lf_fs x = lf_fs l" "env_le l x" for x
    using that t0 env_le_ok [OF _ e0] by (simp add: store_ok_def local_objects_def)
  have absent: "lf_fs l ?p = None \<Longrightarrow> local_objects rc l k = None"
    by (simp add: local_objects_def tree_objects_def file_at_def)
  show ?thesis
  proof (cases ce)
    case (Some e)
    with opn c0 out [OF fs0 env0] ctx_check_error [of l e l0] e0 show ?thesis
      by (auto simp: local_Open_def sane_error_def)
  next
    case ce: None
    obtain pr l1 where pe: "pathForExisting (abs_path rc) k l0 = (pr, l1)" by fastforce
    note ex = Existing_store [OF ok0 k pe]
    have fs1: "lf_fs l1 = lf_fs l" and env1: "env_le l l1" using ex fs0 env_le_trans [OF env0] by auto
    show ?thesis
    proof (cases pr)
      case (Inl e)
      with opn c0 ce pe ex fs0 absent out [OF fs1 env1] show ?thesis by (auto simp: local_Open_def)
    next
      case (Inr t)
      with ex fs0 have t: "t = abs_path ?p" "lf_fs l ?p \<noteq> None" by auto
      have e1: "env_ok l1" using env1 e0 by (rule env_le_ok)
      obtain fe l2 where f: "os_fault l1 = (fe, l2)" by fastforce
      note fs2 = os_fault_fs [OF f] and env2 = env_le_trans [OF env1 os_fault_env [OF f]]
      have kr: "kernel_resolve (lf_fs l2) (abs_path ?p) = Inr ?p"
        using kernel_store_Inl [OF t0 storable_comps(2) [OF k]] kernel_store [OF t0 storable_comps(2) [OF k]]
          t(2) fs1 fs2 by (cases "kernel_resolve (lf_fs l2) (abs_path ?p)") auto
      show ?thesis
      proof (cases fe)
        case (Some e)
        with opn c0 ce pe Inr f out [of l2] fs1 fs2 env2 os_fault_error [of l1 e l2] e1 show ?thesis
          by (auto simp: local_Open_def os_Open_def sane_error_def)
      next
        case fe: None
        obtain re l3 where g: "os_fault l2 = (re, l3)" by fastforce
        note fs3 = os_fault_fs [OF g] and env3 = env_le_trans [OF env2 os_fault_env [OF g]]
        have e2: "env_ok l2" and e3: "env_ok l3" using env2 env3 e0 by (auto intro: env_le_ok)
        obtain se l4 where h: "os_fault l3 = (se, l4)" by fastforce
        note fs4 = os_fault_fs [OF h] and env4 = env_le_trans [OF env3 os_fault_env [OF h]]
        have out4: "store_ok rc l4 \<and> local_objects rc l4 = local_objects rc l"
          using out [of l4] fs1 fs2 fs3 fs4 env4 by simp
        note run = local_Open_def os_Open_def c0 ce pe Inr f fe kr g h t(1)
        obtain body n where o: "os_Open t l1 = (Inr (body, n), l3)"
          and body: "source_fin body = io_EOF \<longrightarrow> file_at (lf_fs l) ?p = Some (source_bytes body)"
          using Open_body [OF f [unfolded fe] kr [folded t(1)] g e2] fs1 fs2 fs3 by auto
        show ?thesis
        proof (cases se)
          case None
          with opn c0 ce pe Inr o h body out4 k show ?thesis
            by (auto simp: local_Open_def local_objects_def tree_objects_def)
        next
          case (Some e)
          with opn c0 ce pe Inr o h out4 os_fault_error [of l3 e l4] e3 show ?thesis
            by (auto simp: local_Open_def sane_error_def)
        qed
      qed
    qed
  qed
qed

lemma Delete_store:
  assumes ok: "store_ok rc l" and k: "storable k"
    and del: "local_Delete (abs_path rc) k l = (res, l')"
  shows "store_ok rc l' \<and>
    (res = Inr () \<longrightarrow> local_objects rc l' = (local_objects rc l)(k := None)) \<and>
    (\<forall>e. res = Inl e \<longrightarrow> local_objects rc l' = local_objects rc l)"
proof -
  from ok have t0: "tree_ok rc (lf_fs l)" and e0: "env_ok l" by (auto simp: store_ok_def)
  obtain ds c where dc: "key_comps k = ds @ [c]" "\<forall>d \<in> set ds. normal_comp d" "normal_comp c"
    by (rule key_split [OF k])
  let ?p = "rc @ ds @ [c]"
  have nc: "\<forall>x \<in> set ?p. normal_comp x" using tree_ok_rc [OF t0] dc by auto
  obtain ce l0 where c0: "ctx_check l = (ce, l0)" by fastforce
  note fs0 = ctx_check_fs [OF c0] and env0 = ctx_check_env [OF c0]
  have ok0: "store_ok rc l0" using t0 fs0 env_le_ok [OF env0 e0] by (simp add: store_ok_def)
  have out: "store_ok rc x \<and> local_objects rc x = local_objects rc l" if "lf_fs x = lf_fs l" "env_le l x" for x
    using that t0 env_le_ok [OF _ e0] by (simp add: store_ok_def local_objects_def)
  have absent: "(local_objects rc l)(k := None) = local_objects rc l" if "lf_fs l ?p = None"
    using that dc(1) by (auto simp: local_objects_def tree_objects_def file_at_def fun_eq_iff)
  show ?thesis
  proof (cases ce)
    case (Some e)
    with del c0 out [OF fs0 env0] show ?thesis by (auto simp: local_Delete_def)
  next
    case ce: None
    obtain pr l1 where pe: "pathForExisting (abs_path rc) k l0 = (pr, l1)" by fastforce
    note ex = Existing_store [OF ok0 k pe]
    have fs1: "lf_fs l1 = lf_fs l" and env1: "env_le l l1" using ex fs0 env_le_trans [OF env0] by auto
    show ?thesis
    proof (cases pr)
      case (Inl e)
      with del c0 ce pe ex fs0 absent out [OF fs1 env1] dc(1) show ?thesis
        by (auto simp: local_Delete_def split: if_splits)
    next
      case (Inr t)
      with ex fs0 dc(1) have t: "t = abs_path ?p" "lf_fs l ?p \<noteq> None" by auto
      have e1: "env_ok l1" using env1 e0 by (rule env_le_ok)
      obtain re l2 where r: "os_Remove (abs_path (rc @ ds)) c l1 = (re, l2)" by fastforce
      have run: "local_Delete (abs_path rc) k l =
          (case re of Some err \<Rightarrow> if \<not> errors_is err os_ErrNotExist
             then (Inl (FmtWrap (''delete object: '' @ error_text err) err), l2) else (Inr (), l2)
           | None \<Rightarrow> (Inr (), l2))"
        using filepath_dir_abs [of "rc @ ds" c] last_comp_abs [of "rc @ ds" c] nc c0 ce pe Inr t(1) r
        by (simp add: local_Delete_def)
      note env2 = env_le_trans [OF env1 Remove_env [OF r]]
      obtain fe lf where f: "os_fault l1 = (fe, lf)" by fastforce
      note fsf = os_fault_fs [OF f]
      have kr: "kernel_resolve (lf_fs lf) (abs_path (rc @ ds)) = Inr (rc @ ds)"
      proof -
        have "ds = [] \<or> lf_fs l (rc @ ds) \<noteq> None"
          using tree_ok_parent [OF t0, of "rc @ ds" "[c]"] t(2) by auto
        then show ?thesis
          unfolding kernel_resolve_def fsf fs1 walk_abs_path [OF t0 dc(2)]
          by (intro walk_present [OF t0]) (use dc(2) in auto)
      qed
      show ?thesis
      proof (cases re)
        case (Some e)
        have "\<not> errors_is e os_ErrNotExist \<and> lf_fs l2 = lf_fs l"
          using r Some f kr fsf fs1 t(2) os_fault_error [of l1 _ lf] e1
          by (auto simp: os_Remove_def sane_error_def error_matches_def split: option.splits if_splits)
        with out [of l2] env2 run del Some show ?thesis by auto
      next
        case None
        with r f kr fsf fs1 have fs2: "lf_fs l2 = (lf_fs l)(?p := None)"
          and ne: "lf_fs l ?p = Some Dir \<Longrightarrow> empty_dir (lf_tree lf) ?p"
          by (auto simp: os_Remove_def split: option.splits if_splits)
        have kids: "lf_fs l ((rc @ ds) @ [c] @ [x]) = None" for x
        proof (cases "lf_fs l ?p = Some Dir")
          case True
          have "map_of (lf_tree lf) (?p @ [x]) = None"
            using ne [OF True] by (fastforce simp: empty_dir_def list_all_iff map_of_eq_None_iff butlast_append)
          then show ?thesis using fsf fs1 by (simp add: lf_fs_def)
        next
          case False
          have "prefix rc ?p" by simp
          from tree_ok_parent [OF t0 this, of "[x]"] False show ?thesis by (cases "lf_fs l (rc @ ds @ [c, x])") auto
        qed
        have "\<not> prefix ((rc @ ds) @ [c]) rc" by (auto dest: prefix_length_le)
        then have "tree_ok rc (lf_fs l2)"
          using tree_ok_del [OF t0, of "rc @ ds" c] kids fs2 by simp
        moreover have "local_objects rc l2 = (local_objects rc l)(k := None)"
          using tree_objects_del [OF k, of rc "lf_fs l"] fs2 dc(1) by (simp add: local_objects_def)
        ultimately show ?thesis
          using run del None env_le_ok [OF env2 e0] by (simp add: store_ok_def)
      qed
    qed
  qed
qed

text \<open>The local adapter as an instance of the storage contract.\<close>

definition local_storage :: "string list \<Rightarrow> (local_fs, upload_reader) object_storage" where
  "local_storage rc =
     \<lparr>st_Put = local_Put (abs_path rc) upload_read, st_Open = local_Open (abs_path rc),
      st_Delete = local_Delete (abs_path rc)\<rparr>"

interpretation local_store: object_store "local_Put (abs_path rc) upload_read" "local_Open (abs_path rc)"
    "local_Delete (abs_path rc)" "local_objects rc" "store_ok rc"
  for rc
proof (unfold_locales, goal_cases)
  case (1 w k tot r mt r' w')
  from Put_store [OF this] show ?case by simp
next
  case (2 w k tot r mt e r' w')
  from Put_store [OF this] show ?case by simp
next
  case (3 w k ob w')
  from Open_store [OF this] show ?case by simp
next
  case (4 w k e w')
  from Open_store [OF this] show ?case by simp
next
  case (5 w k w')
  from Delete_store [OF this] show ?case by simp
next
  case (6 w k e w')
  from Delete_store [OF this] show ?case by simp
qed

end
