(* ===== verification/Deployment.thy ===== *)
theory Deployment
  imports Document_Worker Local_Contract
begin

text \<open>
  The wiring of \<open>internal/app/resources.go\<close>: the services over the PostgreSQL repository, the
  local storage and the Redis queue. Here the contracts of the ports meet their adapters, so
  the client lemmas of the services become statements about the whole program.
\<close>

definition redis_queue_port :: "redis redis_queue \<Rightarrow> (redis, claimed_job) document_queue" where
  "redis_queue_port q = \<lparr>dq_Enqueue = q_Enqueue q, dq_Consume = q_Consume q\<rparr>"

definition redis_claims :: "redis redis_queue \<Rightarrow> (redis, claimed_job) claimed_document_job" where
  "redis_claims q = \<lparr>cj_Job = q_Job, cj_Ack = q_Ack q, cj_Retry = q_Retry q\<rparr>"

type_synonym program_state = "(pg, local_fs, redis) surroundings"

definition app_service :: "(string \<Rightarrow> string) \<Rightarrow> string list \<Rightarrow> redis redis_queue \<Rightarrow> int \<Rightarrow> string list \<Rightarrow> string
    \<Rightarrow> (pg, local_fs, redis, claimed_job) document_service" where
  \<comment> \<open>the document service \<open>Build\<close> makes for the local driver, whose key prefix is empty\<close>
  "app_service unicode_lower root q maxUploadBytes mediaTypes cdnURL =
     NewDocumentService unicode_lower pg_repository (local_storage root) (redis_queue_port q)
       maxUploadBytes mediaTypes cdnURL ''''"

definition app_worker :: "string list \<Rightarrow> (pg, local_fs) document_worker" where
  "app_worker root = NewDocumentWorker pg_repository (local_storage root)"

lemma app_service_simps [simp]:
  "sv_repository (app_service ul rc q m mts cdn) = pg_repository"
  "sv_storage (app_service ul rc q m mts cdn) = local_storage rc"
  "sv_queue (app_service ul rc q m mts cdn) = redis_queue_port q"
  "sv_maxUploadBytes (app_service ul rc q m mts cdn) = m"
  "sv_storageKeyPrefix (app_service ul rc q m mts cdn) = ''''"
  "sv_keyGenerator (app_service ul rc q m mts cdn) = randomObjectID"
  by (simp_all add: app_service_def NewDocumentService_def trim_byte_def trim_left_byte_def trim_right_byte_def
      trim_space_def)

lemma app_worker_simps [simp]:
  "wk_repository (app_worker rc) = pg_repository" "wk_storage (app_worker rc) = local_storage rc"
  by (simp_all add: app_worker_def NewDocumentWorker_def)

lemma local_storage_simps [simp]:
  "st_Put (local_storage rc) = local_Put (abs_path rc) upload_read"
  "st_Open (local_storage rc) = local_Open (abs_path rc)"
  "st_Delete (local_storage rc) = local_Delete (abs_path rc)"
  by (simp_all add: local_storage_def)

definition queue_of :: "string \<Rightarrow> string \<Rightarrow> string \<Rightarrow> int \<Rightarrow> redis redis_queue" where
  "queue_of main processing dead n = newRedisQueue redis_backend main processing dead n"

lemma queue_port_simps [simp]:
  "dq_Enqueue (redis_queue_port q) = q_Enqueue q" "dq_Consume (redis_queue_port q) = q_Consume q"
  by (simp_all add: redis_queue_port_def)

lemma redis_claims_simps [simp]:
  "cj_Job (redis_claims q) = q_Job" "cj_Ack (redis_claims q) = q_Ack q" "cj_Retry (redis_claims q) = q_Retry q"
  by (simp_all add: redis_claims_def)

interpretation app: document_ports "app_service ul rc (queue_of main processing dead n) m mts cdn"
    pg_documents pg_inv "local_objects rc" "store_ok rc" "\<lambda>r. waiting_jobs (rd_lists r main)"
  for ul rc main processing dead n m mts cdn
proof (intro document_ports.intro document_ports_axioms.intro)
  show "doc_repository (sv_repository (app_service ul rc (queue_of main processing dead n) m mts cdn)) pg_documents pg_inv"
    by simp (rule pg_docs.doc_repository_axioms)
  show "object_store (st_Put (sv_storage (app_service ul rc (queue_of main processing dead n) m mts cdn)))
      (st_Open (sv_storage (app_service ul rc (queue_of main processing dead n) m mts cdn)))
      (st_Delete (sv_storage (app_service ul rc (queue_of main processing dead n) m mts cdn)))
      (local_objects rc) (store_ok rc)"
    by simp (rule local_store.object_store_axioms)
  show "job_queue (dq_Enqueue (sv_queue (app_service ul rc (queue_of main processing dead n) m mts cdn)))
      (\<lambda>r. waiting_jobs (rd_lists r main))"
    unfolding app_service_simps queue_port_simps queue_of_def by (rule redis_jobs.job_queue_axioms)
qed (simp add: randomObjectID_key)

interpretation app_wk: worker_ports "app_worker rc" pg_documents pg_inv "local_objects rc" "store_ok rc"
  for rc
proof (intro worker_ports.intro)
  show "doc_repository (wk_repository (app_worker rc)) pg_documents pg_inv"
    by simp (rule pg_docs.doc_repository_axioms)
  show "object_store (st_Put (wk_storage (app_worker rc))) (st_Open (wk_storage (app_worker rc)))
      (st_Delete (wk_storage (app_worker rc))) (local_objects rc) (store_ok rc)"
    by simp (rule local_store.object_store_axioms)
qed

text \<open>The invariant of the program's surroundings, and views of its three parts.\<close>

definition program_ok :: "string list \<Rightarrow> program_state \<Rightarrow> bool" where
  "program_ok rc w \<longleftrightarrow> pg_inv (sur_repository w) \<and> store_ok rc (sur_storage w)"

abbreviation documents :: "program_state \<Rightarrow> doc_map" where
  "documents w \<equiv> pg_documents (sur_repository w)"

abbreviation objects :: "string list \<Rightarrow> program_state \<Rightarrow> string \<Rightarrow> bytes option" where
  "objects rc w \<equiv> local_objects rc (sur_storage w)"

abbreviation jobs_in :: "string \<Rightarrow> program_state \<Rightarrow> document_job list" where
  "jobs_in name w \<equiv> waiting_jobs (rd_lists (sur_queue w) name)"

definition proper_upload :: "upload_input \<Rightarrow> bool" where
  \<comment> \<open>the body never answers a read with no bytes and no error\<close>
  "proper_upload input \<longleftrightarrow> (case in_Body input of None \<Rightarrow> True | Some body \<Rightarrow> proper_source body)"

lemma proper_uploadD: "proper_upload input \<Longrightarrow> in_Body input = Some body \<Longrightarrow> proper_source body"
  by (simp add: proper_upload_def)

text \<open>
  Invariants that tie the parts together: every live document has a key the storage accepts;
  every ready document's checksum is that of the object under its key.
\<close>

definition keys_ok :: "doc_map \<Rightarrow> bool" where
  "keys_ok m \<longleftrightarrow> (\<forall>did d. m did = Some d \<longrightarrow> storable (doc_StorageKey d))"

definition intact :: "(bytes \<Rightarrow> bytes) \<Rightarrow> doc_map \<Rightarrow> (string \<Rightarrow> bytes option) \<Rightarrow> bool" where
  "intact sha256 m obj \<longleftrightarrow> (\<forall>did d. m did = Some d \<longrightarrow> doc_Status d = DocumentReady \<longrightarrow>
     (\<exists>b. obj (doc_StorageKey d) = Some b \<and> doc_SizeBytes d = int (length b) \<and>
        doc_ChecksumSHA256 d = Some (hex_encode (sha256 b))))"

lemma worker_step_fields:
  "worker_step sha256 obj d d' \<Longrightarrow> doc_StorageKey d' = doc_StorageKey d \<and> doc_OwnerID d' = doc_OwnerID d \<and> doc_ID d' = doc_ID d"
  by (auto simp: worker_step_def doc_claim_def doc_fail_def doc_ready_def)

lemma worker_change_keys:
  assumes "worker_change sha256 obj did m m'" "keys_ok m"
  shows "keys_ok m'"
  using assms worker_step_fields unfolding worker_change_def keys_ok_def
  by (metis fun_upd_apply option.inject)

lemma worker_step_intact:
  "worker_step sha256 obj d d' \<Longrightarrow> doc_Status d' = DocumentReady \<Longrightarrow>
     \<exists>b. obj (doc_StorageKey d') = Some b \<and> doc_SizeBytes d' = int (length b) \<and>
        doc_ChecksumSHA256 d' = Some (hex_encode (sha256 b))"
  by (auto simp: worker_step_def doc_claim_def doc_fail_def doc_ready_def status_defs)

lemma worker_change_intact:
  assumes "worker_change sha256 obj did m m'" "intact sha256 m obj"
  shows "intact sha256 m' obj"
  using assms worker_step_intact unfolding worker_change_def intact_def
  by (metis fun_upd_apply option.inject)

lemma doc_created_keys: "doc_created nd d m m' \<Longrightarrow> storable (nd_StorageKey nd) \<Longrightarrow> keys_ok m \<Longrightarrow> keys_ok m'"
  by (auto simp: doc_created_def keys_ok_def fresh_document_def)

lemma doc_created_intact: "doc_created nd d m m' \<Longrightarrow> intact sha256 m obj \<Longrightarrow> intact sha256 m' obj"
  by (auto simp: doc_created_def intact_def fresh_document_def status_defs)

lemma configured_local: "configured (app_service ul rc q m mts cdn) \<longleftrightarrow> 0 < m \<and> m < 2 ^ 63"
  by (auto simp: configured_def validS3Prefix_def dotdot_def path_is_abs_def has_prefix_def)

lemma program_ok_app: "app.sur_ok rc w \<longleftrightarrow> program_ok rc w" "app_wk.sur_ok rc w \<longleftrightarrow> program_ok rc w"
  by (simp_all add: app.sur_ok_def app_wk.sur_ok_def program_ok_def)

end
