(* ===== verification/Program_Steps.thy ===== *)
theory Program_Steps
  imports Deployment
begin

text \<open>
  The whole program as a transition system: one step is one operation of the document service,
  or the processing of one job, or anything that happens to the queue, under arbitrary failures
  of the database, the file system and the queue. The invariant ties the three parts together:
  every ready document's checksum and size are those of the object under its key.
\<close>

text \<open>The next object id is not in use, which 128 random bits make practically certain.\<close>

definition fresh_object :: "(pg, local_fs, redis, claimed_job) document_service \<Rightarrow> string list \<Rightarrow> program_state \<Rightarrow> bool" where
  "fresh_object s rc w \<longleftrightarrow> (\<forall>oid uid. generated s w oid \<longrightarrow> objects rc w (object_key (sv_storageKeyPrefix s) uid oid) = None)"

inductive program_step :: "(bytes \<Rightarrow> bytes) \<Rightarrow> (string \<Rightarrow> string) \<Rightarrow> (pg, local_fs, redis, claimed_job) document_service
    \<Rightarrow> string list \<Rightarrow> program_state \<Rightarrow> program_state \<Rightarrow> bool" for sha256 ul s rc where
  upload: "proper_upload input \<Longrightarrow> fresh_object s rc w \<Longrightarrow> ds_Create ul s actor input w = (r, w') \<Longrightarrow>
    program_step sha256 ul s rc w w'"
| get: "ds_Get s actor did w = (rg, w') \<Longrightarrow> program_step sha256 ul s rc w w'"
| list: "ds_List s actor pgn w = (rl, w') \<Longrightarrow> program_step sha256 ul s rc w w'"
| download: "ds_Download s actor did w = (ro, w') \<Longrightarrow> program_step sha256 ul s rc w w'"
| delete: "ds_Delete s actor did w = (ru, w') \<Longrightarrow> program_step sha256 ul s rc w w'"
| process: "wk_Process sha256 (app_worker rc) job w = (ru, w') \<Longrightarrow> program_step sha256 ul s rc w w'"
| queue: "program_step sha256 ul s rc w (w\<lparr>sur_queue := q\<rparr>)"

definition program_inv :: "(bytes \<Rightarrow> bytes) \<Rightarrow> string list \<Rightarrow> program_state \<Rightarrow> bool" where
  "program_inv sha256 rc w \<longleftrightarrow> program_ok rc w \<and> keys_ok (documents w) \<and> intact sha256 (documents w) (objects rc w)"

lemma program_invD:
  assumes "program_inv sha256 rc w"
  shows "program_ok rc w" "keys_ok (documents w)" "intact sha256 (documents w) (objects rc w)"
  using assms by (simp_all add: program_inv_def)

text \<open>An object no document has yet may change without harm.\<close>

lemma intact_same_except:
  assumes "intact sha256 m obj" "same_except k obj obj'" "obj k = None"
  shows "intact sha256 m obj'"
  using assms unfolding intact_def same_except_def by (metis option.distinct(1))

lemma intact_del: "intact sha256 m obj \<Longrightarrow> intact sha256 (m(did := None)) obj"
  by (auto simp: intact_def)

lemma keys_ok_del: "keys_ok m \<Longrightarrow> keys_ok (m(did := None))"
  by (auto simp: keys_ok_def)

text \<open>The service as \<open>Build\<close> wires it, whatever its queues and settings.\<close>

definition deployed :: "(string \<Rightarrow> string) \<Rightarrow> string list \<Rightarrow> int \<Rightarrow> (pg, local_fs, redis, claimed_job) document_service \<Rightarrow> bool" where
  "deployed ul rc m s \<longleftrightarrow>
     (\<exists>main processing dead n mts cdn. s = app_service ul rc (queue_of main processing dead n) m mts cdn)"

lemma upload_inv:
  assumes "program_inv sha256 rc w" "proper_upload input" "fresh_object s rc w" "0 < m" "m < 2 ^ 63"
    "ds_Create ul s actor input w = (r, w')" "deployed ul rc m s"
  shows "program_inv sha256 rc w'"
proof -
  obtain main processing dead n mts cdn where
    s: "s = app_service ul rc (queue_of main processing dead n) m mts cdn"
    using assms(7) by (auto simp: deployed_def)
  note i = program_invD [OF assms(1)]
  have ok: "app.sur_ok rc w" using i(1) by (simp add: program_ok_app)
  have conf: "configured s" using assms(4,5) by (simp add: s configured_local)
  have fresh: "objects rc w (object_key (sv_storageKeyPrefix s) uid oid) = None" if "generated s w oid" for oid uid
    using that assms(3) by (auto simp: fresh_object_def)
  have acc: "storable (nd_StorageKey nd) \<and> objects rc w (nd_StorageKey nd) = None"
    if "accepted_upload ul s actor input oid body nd" "generated s w oid" for oid body nd
    using that fresh [OF that(2)] conf object_key_storable [of "sv_storageKeyPrefix s" oid]
    by (auto simp: accepted_upload_def configured_def)
  have created: "program_inv sha256 rc w'"
    if "app.sur_ok rc w'" "doc_created nd d (documents w) (documents w')" "storable (nd_StorageKey nd)"
      "intact sha256 (documents w) (objects rc w')" for nd d
    using that i doc_created_keys doc_created_intact by (auto simp: program_inv_def program_ok_app)
  show ?thesis
  proof (rule app.create_cases [OF ok proper_uploadD [OF assms(2)] assms(6) [unfolded s] conf [unfolded s], folded s], goal_cases)
    case (1 body)
    then show ?case .
  next
    case (2 oid body nd d)
    with acc have "storable (nd_StorageKey nd)" "intact sha256 (documents w) (objects rc w')"
      using intact_same_except [OF i(3), of "nd_StorageKey nd" "objects rc w'"] by auto
    with 2 created show ?case by blast
  next
    case (3 oid body nd d e)
    with acc have "storable (nd_StorageKey nd)" "intact sha256 (documents w) (objects rc w')"
      using intact_same_except [OF i(3), of "nd_StorageKey nd" "objects rc w'"] by auto
    with 3 created show ?case by blast
  next
    case (4 oid body nd e)
    with acc have a: "storable (nd_StorageKey nd)" "intact sha256 (documents w) (objects rc w')"
      using intact_same_except [OF i(3), of "nd_StorageKey nd" "objects rc w'"] by auto
    from 4(5) show ?case
    proof
      assume "documents w' = documents w"
      with a 4(4) i show ?case by (simp add: program_inv_def program_ok_app)
    next
      assume "\<exists>d. doc_created nd d (documents w) (documents w')"
      with a 4(4) created show ?case by blast
    qed
  next
    case (5 oid e)
    from intact_same_except [OF i(3) 5(7)] fresh [OF 5(1)] have "intact sha256 (documents w) (objects rc w')" by simp
    with 5 i show ?case by (simp add: program_inv_def program_ok_app)
  next
    case (6 e)
    with i show ?case by (simp add: program_inv_def program_ok_app)
  qed
qed

lemma delete_inv:
  assumes "program_inv sha256 rc w" "ds_Delete s actor did w = (r, w')" "deployed ul rc m s"
  shows "program_inv sha256 rc w'"
proof -
  obtain main processing dead n mts cdn where
    s: "s = app_service ul rc (queue_of main processing dead n) m mts cdn"
    using assms(3) by (auto simp: deployed_def)
  note i = program_invD [OF assms(1)]
  have ok: "app.sur_ok rc w" using i(1) by (simp add: program_ok_app)
  from app.delete_frame [OF ok assms(2) [unfolded s]] i show ?thesis
    by (auto simp: program_inv_def program_ok_app keys_ok_del intact_del)
qed

lemma read_inv:
  assumes "program_inv sha256 rc w" "deployed ul rc m s"
  shows "ds_Get s actor did w = (rg, w') \<Longrightarrow> program_inv sha256 rc w'"
    and "ds_List s actor pgn w = (rl, w') \<Longrightarrow> program_inv sha256 rc w'"
    and "ds_Download s actor did w = (ro, w') \<Longrightarrow> program_inv sha256 rc w'"
proof -
  obtain main processing dead n mts cdn where
    s: "s = app_service ul rc (queue_of main processing dead n) m mts cdn"
    using assms(2) by (auto simp: deployed_def)
  note i = program_invD [OF assms(1)]
  have ok: "app.sur_ok rc w" using i(1) by (simp add: program_ok_app)
  have k: "storable (doc_StorageKey d)" if "documents w did = Some d" for d
    using that i(2) by (auto simp: keys_ok_def)
  show "ds_Get s actor did w = (rg, w') \<Longrightarrow> program_inv sha256 rc w'"
    unfolding s using app.get_frame [OF ok] i by (fastforce simp: program_inv_def program_ok_app)
  show "ds_List s actor pgn w = (rl, w') \<Longrightarrow> program_inv sha256 rc w'"
    unfolding s using app.list_frame [OF ok] i by (fastforce simp: program_inv_def program_ok_app)
  show "ds_Download s actor did w = (ro, w') \<Longrightarrow> program_inv sha256 rc w'"
    unfolding s using app.download_frame [OF ok _ k] i by (fastforce simp: program_inv_def program_ok_app)
qed

lemma process_inv:
  assumes "program_inv sha256 rc w" "\<And>b. length (sha256 b) = 32" "wk_Process sha256 (app_worker rc) job w = (r, w')"
  shows "program_inv sha256 rc w'"
proof -
  note i = program_invD [OF assms(1)]
  have ok: "app_wk.sur_ok rc w" using i(1) by (simp add: program_ok_app)
  have k: "storable (doc_StorageKey d)" if "documents w (job_DocumentID job) = Some d" for d
    using that i(2) by (auto simp: keys_ok_def)
  from app_wk.process_step [OF ok k assms(2,3)] i show ?thesis
    by (auto simp: program_inv_def program_ok_app dest: worker_change_keys worker_change_intact)
qed

lemma step_inv:
  assumes "program_step sha256 ul s rc w w'" "program_inv sha256 rc w" "\<And>b. length (sha256 b) = 32"
    "deployed ul rc m s" "0 < m" "m < 2 ^ 63"
  shows "program_inv sha256 rc w'"
  using assms(1)
proof cases
  case (upload input actor r)
  with assms show ?thesis using upload_inv by blast
next
  case (process job ru)
  with assms show ?thesis using process_inv by blast
next
  case (delete actor did ru)
  with assms show ?thesis using delete_inv by blast
next
  case (queue q)
  with assms(2) show ?thesis by (simp add: program_inv_def program_ok_def)
qed (use read_inv [OF assms(2,4)] in blast)+

end
