(* ===== verification/Worker_Loop.thy ===== *)
theory Worker_Loop
  imports Program_Steps
begin

text \<open>
  The worker's loop over the Redis queue. Each round takes a payload out of the main list and
  puts back at most one with a higher attempt, so the loop over a queue nobody else feeds comes
  to an end, and all it does are steps of the program.
\<close>

subsection \<open>Decoded jobs are in range\<close>

lemma store_int_range: "store_int old v = Some x \<Longrightarrow> in_int64 old \<Longrightarrow> in_int64 x"
  by (auto simp: store_int_def split: json.splits sum.splits dest: parse_int_range)

lemma store_members_range:
  "store_members j bad ms = (j', bad') \<Longrightarrow> in_int64 (job_DocumentID j) \<Longrightarrow> in_int64 (job_Attempt j) \<Longrightarrow>
   in_int64 (job_DocumentID j') \<and> in_int64 (job_Attempt j')"
  by (induction j bad ms rule: store_members.induct)
     (auto split: if_splits option.splits dest: store_int_range)

lemma unmarshal_range:
  assumes "json_unmarshal_job s = Inr j"
  shows "in_int64 (job_DocumentID j) \<and> in_int64 (job_Attempt j)"
proof -
  have z: "in_int64 0" by (simp add: in_int64_def)
  from assms z show ?thesis
    by (auto simp: json_unmarshal_job_def Let_def split: option.splits json.splits prod.splits if_splits
        dest!: store_members_range)
qed

lemma decode_job_ok: "decode_job p = Some j \<Longrightarrow> job_ok j"
  using unmarshal_range [of p j]
  by (auto simp: decode_job_Some validateJob_def job_ok_def in_int64_def split: if_splits)

subsection \<open>The measure\<close>

definition payload_weight :: "int \<Rightarrow> string \<Rightarrow> nat" where
  \<comment> \<open>how often a payload can still be taken from the main list\<close>
  "payload_weight n p = (case decode_job p of None \<Rightarrow> 1 | Some j \<Rightarrow> 1 + nat (n - job_Attempt j))"

definition list_weight :: "int \<Rightarrow> string list \<Rightarrow> nat" where
  "list_weight n ps = sum_list (map (payload_weight n) ps)"

lemma payload_weight_pos: "0 < payload_weight n p"
  by (simp add: payload_weight_def split: option.split)

lemma list_weight_butlast:
  assumes "ps \<noteq> []"
  shows "list_weight n ps = list_weight n (butlast ps) + payload_weight n (last ps)"
  using arg_cong [OF append_butlast_last_id [OF assms], of "list_weight n"] by (simp add: list_weight_def)

lemma retry_weight:
  assumes "job_ok j" "job_Attempt j < n" "n < 2 ^ 63"
  shows "payload_weight n (json_marshal_job (j\<lparr>job_Attempt := wrap_signed 64 (job_Attempt j + 1)\<rparr>)) < 1 + nat (n - job_Attempt j)"
proof -
  have "wrap_signed 64 (job_Attempt j + 1) = job_Attempt j + 1"
    using assms by (intro wrap_signed_id) (auto simp: job_ok_def)
  moreover have "job_ok (j\<lparr>job_Attempt := job_Attempt j + 1\<rparr>)" using assms by (auto simp: job_ok_def)
  ultimately show ?thesis using assms by (simp add: payload_weight_def decode_marshal)
qed

definition queue_names_ok :: "redis redis_queue \<Rightarrow> bool" where
  "queue_names_ok q \<longleftrightarrow> rq_main q \<noteq> rq_processing q \<and> rq_main q \<noteq> rq_deadLetter q \<and>
     rq_backend q = redis_backend \<and> rq_maxAttempts q < 2 ^ 63"

lemma queue_names_ok_queue_of: "queue_names_ok (queue_of main processing dead n) \<longleftrightarrow>
    main \<noteq> processing \<and> main \<noteq> dead \<and> n < 2 ^ 63"
  by (simp add: queue_names_ok_def queue_of_def newRedisQueue_def)

definition main_weight :: "redis redis_queue \<Rightarrow> redis \<Rightarrow> nat" where
  "main_weight q r = list_weight (rq_maxAttempts q) (rd_lists r (rq_main q))"

lemma consume_weight:
  assumes "queue_names_ok q" "q_Consume q r = (Inr c, r')"
  shows "main_weight q r = main_weight q r' + payload_weight (rq_maxAttempts q) (clj_payload c)"
    "decode_job (clj_payload c) = Some (clj_job c)"
proof -
  note b = assms(1) [unfolded queue_names_ok_def]
  note c = redis.consume_ok [of q, OF _ assms(2)]
  have "rd_lists r' (rq_main q) = butlast (rd_lists r (rq_main q))"
    using c b by (simp add: move_lists_def Let_def)
  with c b show "main_weight q r = main_weight q r' + payload_weight (rq_maxAttempts q) (clj_payload c)"
    by (simp add: main_weight_def list_weight_butlast)
  from c b show "decode_job (clj_payload c) = Some (clj_job c)" by simp
qed

lemma ack_weight:
  assumes "queue_names_ok q" "q_Ack q c r = (Inr u, r')"
  shows "main_weight q r' = main_weight q r"
  using assms redis.ack_ok [of q c r u r']
  by (simp add: queue_names_ok_def main_weight_def remove_lists_def)

lemma retry_queue_weight:
  assumes "queue_names_ok q" "job_ok (clj_job c)" "q_Retry q c e r = (Inr u, r')"
  shows "main_weight q r' < main_weight q r + (1 + nat (rq_maxAttempts q - job_Attempt (clj_job c)))"
proof -
  note b = assms(1) [unfolded queue_names_ok_def]
  have l: "rd_lists r' = (case retry_target q (clj_job c) of (dest, nxt) \<Rightarrow>
       push_lists dest (json_marshal_job nxt) (remove_lists (rq_processing q) (clj_payload c) (rd_lists r)))"
    by (rule redis.retry_ok [OF _ assms(3)]) (use b in simp)
  show ?thesis
  proof (cases "rq_maxAttempts q \<le> job_Attempt (clj_job c)")
    case True
    with l b show ?thesis by (simp add: retry_target_def push_lists_def remove_lists_def main_weight_def)
  next
    case False
    with l b retry_weight [OF assms(2), of "rq_maxAttempts q"] show ?thesis
      by (simp add: retry_target_def push_lists_def remove_lists_def main_weight_def list_weight_def)
  qed
qed

subsection \<open>The loop\<close>

lemma fail_queue: "wk_fail k did e w = (r, w') \<Longrightarrow> sur_queue w' = sur_queue w"
  by (auto simp: wk_fail_def on_repository_def split: prod.splits sum.splits)

lemma finish_queue: "wk_finish sha256 k d ob w = (r, w') \<Longrightarrow> sur_queue w' = sur_queue w"
  by (auto simp: wk_finish_def on_repository_def Let_def split: prod.splits option.splits if_splits dest: fail_queue)

lemma process_queue: "wk_Process sha256 k job w = (r, w') \<Longrightarrow> sur_queue w' = sur_queue w"
  by (auto simp: wk_Process_def on_repository_def on_storage_def split: prod.splits sum.splits if_splits
      dest!: finish_queue fail_queue)

text \<open>
  The loop ends whatever the worker's ports do; \<open>step\<close> is any relation its rounds stay in.
\<close>

lemma loop_terminates:
  assumes "queue_names_ok q" and process_rel: "\<And>job w r w'. wk_Process sha256 k job w = (r, w') \<Longrightarrow> step w w'"
    and queue_rel: "\<And>w x. step w (w\<lparr>sur_queue := x\<rparr>)"
  shows "\<exists>e w'. wk_Run sha256 k (redis_queue_port q) (redis_claims q) c w = Some (e, w') \<and> step\<^sup>*\<^sup>* w w'"
proof (induction "main_weight q (sur_queue w)" arbitrary: c w rule: less_induct)
  case less
  let ?run = "wk_Run sha256 k (redis_queue_port q) (redis_claims q)"
  have queue_step: "step v v'" if "on_queue f v = (x, v')" for f :: "redis \<Rightarrow> 'x \<times> redis" and v v' x
  proof -
    from that have "v' = v\<lparr>sur_queue := snd (f (sur_queue v))\<rparr>" by (auto simp: on_queue_def split: prod.splits)
    with queue_rel show ?thesis by simp
  qed
  note unf = wk_Run.simps [of _ _ _ _ c w]
  obtain ce c' where ce: "ctx_err c = (ce, c')" by fastforce
  obtain x w1 where x: "on_queue (q_Consume q) w = (x, w1)" by fastforce
  note s1 = queue_step [OF x]
  consider (ctx) e where "ce = Some e" | (empty) e where "ce = None" "x = Inl e"
    | (job) cl where "ce = None" "x = Inr cl"
    by (cases ce; cases x) auto
  then show ?case
  proof cases
    case ctx
    with ce show ?thesis by (simp add: unf)
  next
    case empty
    with ce x s1 show ?thesis by (simp add: unf)
  next
    case job
    obtain q1 where q1: "q_Consume q (sur_queue w) = (Inr cl, q1)" "sur_queue w1 = q1"
      using x job by (auto simp: on_queue_def split: prod.splits)
    note cw = consume_weight [OF assms(1) q1(1)]
    have jk: "job_ok (clj_job cl)" using decode_job_ok cw(2) by blast
    obtain pr w2 where p: "wk_Process sha256 k (clj_job cl) w1 = (pr, w2)" by fastforce
    note s2 = process_rel [OF p]
    from process_queue [OF p] q1(2) have q2: "sur_queue w2 = q1" by simp
    obtain fin w3 where f: "on_queue (case pr of Inl e \<Rightarrow> q_Retry q cl e | Inr u \<Rightarrow> q_Ack q cl) w2 = (fin, w3)" by fastforce
    note s3 = queue_step [OF f]
    have steps: "step\<^sup>*\<^sup>* w w3"
      by (rule rtranclp.rtrancl_into_rtrancl [OF rtranclp.rtrancl_into_rtrancl [OF r_into_rtranclp [of step, OF s1] s2] s3])
    have run: "?run c w = (case fin of
        Inl e \<Rightarrow> Some (case pr of Inl err \<Rightarrow> FmtWrap (''process job: '' @ error_text err @ ''; retry: '' @ error_text e) e | Inr u \<Rightarrow> e, w3)
      | Inr u \<Rightarrow> ?run c' w3)"
      using ce job x p f
      by (cases pr; cases fin) (simp_all add: wk_Run.simps [of sha256 k "redis_queue_port q" "redis_claims q" c w]
          q_Job_def)
    show ?thesis
    proof (cases fin)
      case (Inl e)
      with run steps show ?thesis by auto
    next
      case (Inr u)
      obtain q3 where q3: "(case pr of Inl e \<Rightarrow> q_Retry q cl e | Inr u \<Rightarrow> q_Ack q cl) q1 = (Inr u, q3)" "sur_queue w3 = q3"
        using f Inr q2 by (auto simp: on_queue_def split: prod.splits)
      have "main_weight q q3 < main_weight q (sur_queue w)"
      proof (cases pr)
        case (Inl e)
        with q3 retry_queue_weight [OF assms(1) jk, of e q1 u q3] cw show ?thesis by (simp add: payload_weight_def)
      next
        case (Inr v)
        with q3 ack_weight [OF assms(1), of cl q1 u q3] cw payload_weight_pos show ?thesis by simp
      qed
      with less [of w3 c'] q3(2) obtain e w' where "?run c' w3 = Some (e, w')" "step\<^sup>*\<^sup>* w3 w'" by blast
      with run Inr steps show ?thesis by (auto intro: rtranclp_trans)
    qed
  qed
qed

lemma run_terminates:
  assumes "queue_names_ok q"
  shows "\<exists>e w'. wk_Run sha256 (app_worker rc) (redis_queue_port q) (redis_claims q) c w = Some (e, w') \<and>
    (program_step sha256 ul s rc)\<^sup>*\<^sup>* w w'"
  by (rule loop_terminates [OF assms]) (rule program_step.process program_step.queue, assumption?)+

end
