(* ===== verification/Demo_World.thy ===== *)
theory Demo_World
  imports Deployment
begin

text \<open>
  A concrete state of the whole program, at which the witnesses evaluate the definitions: two
  users, an empty document table, an empty storage root \<open>/data\<close>, empty queues, no faults.
\<close>

definition demo_user :: "int \<Rightarrow> string \<Rightarrow> db_user" where
  "demo_user uid email = \<lparr>dbu_ID = uid, dbu_RoleID = 1, dbu_Email = email, dbu_PasswordHash = ''hash'',
     dbu_IsActive = True, dbu_CreatedAt = ts_at 0, dbu_UpdatedAt = ts_at 0, dbu_DeletedAt = ts_null\<rparr>"

definition demo_tables :: tables where
  "demo_tables = \<lparr>t_roles = [\<lparr>dbr_ID = 1, dbr_Name = ''user'', dbr_CreatedAt = ts_at 0\<rparr>],
     t_roles_seq = 2, t_users = [demo_user 7 ''u@x.org'', demo_user 8 ''v@x.org''], t_users_seq = 9,
     t_refresh_sessions = [], t_refresh_sessions_seq = 1, t_documents = [], t_documents_seq = 1\<rparr>"

definition demo_pg :: pg where
  "demo_pg = \<lparr>pg_tables = demo_tables, pg_faults = [], pg_now = 1000\<rparr>"

definition demo_root :: "string list" where "demo_root = [''data'']"

definition demo_fs :: local_fs where
  "demo_fs = \<lparr>lf_tree = [([''data''], Dir)], lf_faults = [], lf_ctx = [], lf_temps = [''1'', ''2''], lf_dirsize = 4096\<rparr>"

definition demo_redis :: redis where
  "demo_redis = \<lparr>rd_lists = (\<lambda>_. []), rd_faults = [], rd_unblock = context_Canceled\<rparr>"

definition demo_state :: program_state where
  "demo_state = \<lparr>sur_repository = demo_pg, sur_storage = demo_fs, sur_queue = demo_redis,
     sur_random = [Inr (\<lambda>i. CHR 0x5A), Inr (\<lambda>i. CHR 0x5B)]\<rparr>"

definition demo_queue :: "redis redis_queue" where
  "demo_queue = queue_of ''main'' ''processing'' ''dead'' 3"

definition demo_service :: "(pg, local_fs, redis, claimed_job) document_service" where
  "demo_service = app_service (\<lambda>s. s) demo_root demo_queue 16 [''text/plain''] '''' "

definition demo_actor :: actor where
  "demo_actor = \<lparr>act_UserID = 7, act_Role = ''user''\<rparr>"

definition demo_upload :: upload_input where
  "demo_upload = \<lparr>in_OriginalName = ''a.txt'', in_MediaType = ''text/plain'', in_SizeBytes = 5,
     in_Body = Some [(''hel'', None), (''lo'', None)]\<rparr>"

lemma demo_program_ok: "program_ok demo_root demo_state"
proof -
  have fs: "lf_fs demo_fs p = (if p = [''data''] then Some Dir else None)" for p
    by (simp add: demo_fs_def lf_fs_def)
  have "tree_ok demo_root (lf_fs demo_fs)"
    by (auto simp: tree_ok_def dirpath_def demo_root_def fs normal_comp_def dot_def dotdot_def slash_def prefix_Cons)
  moreover have "env_ok demo_fs" by (simp add: env_ok_def demo_fs_def slash_def)
  moreover have "pg_inv demo_pg" by (simp add: pg_inv_def docs_inv_def demo_pg_def demo_tables_def)
  ultimately show ?thesis by (simp add: program_ok_def store_ok_def demo_state_def)
qed

lemma demo_upload_proper: "proper_upload demo_upload"
  by (simp add: proper_upload_def demo_upload_def proper_source_def)

end
