(* ===== verification/Demo_Run.thy ===== *)
theory Demo_Run
  imports Worker_Loop Demo_World
begin

text \<open>
  A run of the program from the concrete state: an upload, then the processing of its job. The
  witnesses of the properties about ready documents evaluate the definitions along it.
\<close>

definition demo_sha256 :: "bytes \<Rightarrow> bytes" where
  "demo_sha256 b = replicate 32 (CHR 0x0A)"

definition demo_uploaded :: program_state where
  "demo_uploaded = snd (ds_Create (\<lambda>s. s) demo_service demo_actor demo_upload demo_state)"

definition demo_processed :: program_state where
  "demo_processed = snd (wk_Process demo_sha256 (app_worker demo_root) \<lparr>job_DocumentID = 1, job_Attempt = 1\<rparr> demo_uploaded)"

definition demo_stranger :: actor where
  "demo_stranger = \<lparr>act_UserID = 8, act_Role = ''user''\<rparr>"

lemma demo_sha256_length: "length (demo_sha256 b) = 32"
  by (simp add: demo_sha256_def)

lemma demo_service_app: "demo_service =
    app_service (\<lambda>s. s) demo_root (queue_of ''main'' ''processing'' ''dead'' 3) 16 [''text/plain''] ''''"
  by (simp add: demo_service_def demo_queue_def)

lemma demo_deployed: "deployed (\<lambda>s. s) demo_root 16 demo_service"
  unfolding deployed_def demo_service_app by blast

lemma demo_no_documents: "documents demo_state = Map.empty"
  by (rule ext) (simp add: demo_state_def pg_documents_def docs_of_def demo_pg_def demo_tables_def row_by_def)

lemma demo_no_objects: "objects demo_root demo_state k = None"
proof -
  have "map_of (lf_tree demo_fs) p = Some n \<Longrightarrow> n = Dir" for p n
    by (simp add: demo_fs_def split: if_splits)
  then show ?thesis
    by (auto simp: demo_state_def local_objects_def tree_objects_def file_at_def lf_fs_def split: option.splits node.splits)
qed

lemma demo_state_inv: "program_inv demo_sha256 demo_root demo_state"
  by (simp add: program_inv_def demo_program_ok demo_no_documents keys_ok_def intact_def)

lemma demo_fresh: "fresh_object demo_service demo_root demo_state"
  by (simp add: fresh_object_def demo_no_objects)

lemma demo_upload_run: "ds_Create (\<lambda>s. s) demo_service demo_actor demo_upload demo_state =
    (fst (ds_Create (\<lambda>s. s) demo_service demo_actor demo_upload demo_state), demo_uploaded)"
  by (simp add: demo_uploaded_def)

lemma demo_process_run: "wk_Process demo_sha256 (app_worker demo_root) \<lparr>job_DocumentID = 1, job_Attempt = 1\<rparr> demo_uploaded =
    (fst (wk_Process demo_sha256 (app_worker demo_root) \<lparr>job_DocumentID = 1, job_Attempt = 1\<rparr> demo_uploaded), demo_processed)"
  by (simp add: demo_processed_def)

lemma demo_uploaded_inv: "program_inv demo_sha256 demo_root demo_uploaded"
  by (rule upload_inv [OF demo_state_inv demo_upload_proper demo_fresh _ _ demo_upload_run demo_deployed]) simp_all

lemma demo_processed_inv: "program_inv demo_sha256 demo_root demo_processed"
  by (rule process_inv [OF demo_uploaded_inv demo_sha256_length demo_process_run])

end
