(* ===== verification/Auth_Repository.thy ===== *)
theory Auth_Repository
  imports Document_Repository
begin

text \<open>
  The user and session tables: the statements of \<open>internal/repository/db/auth.sql.go\<close>,
  translated from their SQL text, and the adapter \<open>internal/repository/auth_repository.go\<close>
  over them, with the transaction that rotates a refresh session.

  SQL's \<open>LOWER\<close> depends on the collation of the database: it is the parameter \<open>lower\<close>.
\<close>

subsection \<open>Rows of the queries\<close>

record create_user_row =
  cur_ID :: int
  cur_Email :: string
  cur_PasswordHash :: string
  cur_RoleName :: string
  cur_IsActive :: bool
  cur_CreatedAt :: timestamptz
  cur_UpdatedAt :: timestamptz
  cur_DeletedAt :: timestamptz

text \<open>The rows of the two lookups have the same columns.\<close>

type_synonym get_user_by_email_row = create_user_row
type_synonym get_user_by_id_row = create_user_row

definition live_user :: "db_user \<Rightarrow> bool" where
  "live_user u \<longleftrightarrow> \<not> ts_Valid (dbu_DeletedAt u)"

text \<open>\<open>JOIN roles ON roles.id = users.role_id\<close>, for one user.\<close>

definition join_role :: "tables \<Rightarrow> db_user \<Rightarrow> create_user_row option" where
  "join_role t u = map_option (\<lambda>r.
     \<lparr>cur_ID = dbu_ID u, cur_Email = dbu_Email u, cur_PasswordHash = dbu_PasswordHash u,
      cur_RoleName = dbr_Name r, cur_IsActive = dbu_IsActive u, cur_CreatedAt = dbu_CreatedAt u,
      cur_UpdatedAt = dbu_UpdatedAt u, cur_DeletedAt = dbu_DeletedAt u\<rparr>)
     (row_by dbr_ID (t_roles t) (dbu_RoleID u))"

subsection \<open>Statements\<close>

record create_refresh_session_params =
  crp_UserID :: int
  crp_TokenID :: string
  crp_TokenHash :: string
  crp_ExpiresAt :: timestamptz

definition sql_CreateRefreshSession :: "create_refresh_session_params \<Rightarrow> unit statement" where
  "sql_CreateRefreshSession p now t =
     (if \<not> utf8_valid (crp_TokenID p) \<or> \<not> utf8_valid (crp_TokenHash p) then (Inl pg_bad_text, t)
      else if t_refresh_sessions_seq t \<ge> 2 ^ 63 then (Inl pg_sequence_exhausted, t)
      else
        let sid = t_refresh_sessions_seq t; t' = t\<lparr>t_refresh_sessions_seq := sid + 1\<rparr>
        in case varchar 64 (crp_TokenID p) of
             Inl e \<Rightarrow> (Inl e, t')
           | Inr tid \<Rightarrow>
               (case char_column 64 (crp_TokenHash p) of
                  Inl e \<Rightarrow> (Inl e, t')
                | Inr hash \<Rightarrow>
                    if tid \<in> dbs_TokenID ` set (t_refresh_sessions t) then (Inl pg_unique_violation, t')
                    else if hash \<in> dbs_TokenHash ` set (t_refresh_sessions t) then (Inl pg_unique_violation, t')
                    else if crp_UserID p \<notin> dbu_ID ` set (t_users t) then (Inl pg_foreign_key_violation, t')
                    else (Inr (), t'\<lparr>t_refresh_sessions := t_refresh_sessions t @
                      [\<lparr>dbs_ID = sid, dbs_UserID = crp_UserID p, dbs_TokenID = tid, dbs_TokenHash = hash,
                        dbs_ExpiresAt = crp_ExpiresAt p, dbs_RevokedAt = ts_null, dbs_ReplacedByTokenID = None,
                        dbs_CreatedAt = ts_at now\<rparr>]\<rparr>)))"

definition sql_CreateUser :: "(string \<Rightarrow> string) \<Rightarrow> string \<Rightarrow> string \<Rightarrow> string \<Rightarrow> create_user_row statement" where
  \<comment> \<open>an unknown role selects no row, so nothing is inserted and nothing is returned\<close>
  "sql_CreateUser lower email passwordHash roleName now t =
     (if \<not> utf8_valid email \<or> \<not> utf8_valid passwordHash \<or> \<not> utf8_valid roleName then (Inl pg_bad_text, t)
      else case find (\<lambda>r. dbr_Name r = roleName) (t_roles t) of
        None \<Rightarrow> (Inl pgx_ErrNoRows, t)
      | Some role \<Rightarrow>
          if t_users_seq t \<ge> 2 ^ 63 then (Inl pg_sequence_exhausted, t)
          else
            let uid = t_users_seq t; t' = t\<lparr>t_users_seq := uid + 1\<rparr>
            in case varchar 320 email of
                 Inl e \<Rightarrow> (Inl e, t')
               | Inr address \<Rightarrow>
                   if \<exists>u \<in> set (t_users t). live_user u \<and> lower (dbu_Email u) = lower address
                   then (Inl pg_unique_violation, t')
                   else
                     let row = \<lparr>dbu_ID = uid, dbu_RoleID = dbr_ID role, dbu_Email = address,
                           dbu_PasswordHash = passwordHash, dbu_IsActive = True,
                           dbu_CreatedAt = ts_at now, dbu_UpdatedAt = ts_at now, dbu_DeletedAt = ts_null\<rparr>
                     in (case join_role t row of None \<Rightarrow> Inl pgx_ErrNoRows | Some r \<Rightarrow> Inr r,
                         t'\<lparr>t_users := t_users t @ [row]\<rparr>))"

definition sql_GetRefreshSessionByTokenID :: "string \<Rightarrow> db_refresh_session statement" where
  "sql_GetRefreshSessionByTokenID tokenID now t =
     (if \<not> utf8_valid tokenID then (Inl pg_bad_text, t)
      else case row_by dbs_TokenID (t_refresh_sessions t) tokenID of
        None \<Rightarrow> (Inl pgx_ErrNoRows, t)
      | Some r \<Rightarrow> (Inr r, t))"

definition sql_GetUserByEmail :: "(string \<Rightarrow> string) \<Rightarrow> string \<Rightarrow> get_user_by_email_row statement" where
  "sql_GetUserByEmail lower email now t =
     (if \<not> utf8_valid email then (Inl pg_bad_text, t)
      else case List.map_filter (join_role t)
                  (filter (\<lambda>u. lower (dbu_Email u) = lower email \<and> live_user u) (t_users t)) of
        [] \<Rightarrow> (Inl pgx_ErrNoRows, t)
      | r # _ \<Rightarrow> (Inr r, t))"

definition sql_GetUserByID :: "int \<Rightarrow> get_user_by_id_row statement" where
  "sql_GetUserByID uid now t =
     (case List.map_filter (join_role t) (filter (\<lambda>u. dbu_ID u = uid \<and> live_user u) (t_users t)) of
        [] \<Rightarrow> (Inl pgx_ErrNoRows, t)
      | r # _ \<Rightarrow> (Inr r, t))"

definition sql_RevokeRefreshSession :: "string \<Rightarrow> int statement" where
  "sql_RevokeRefreshSession tokenID now t =
     (if \<not> utf8_valid tokenID then (Inl pg_bad_text, t)
      else
        let P = (\<lambda>r. dbs_TokenID r = tokenID);
            f = (\<lambda>r. r\<lparr>dbs_RevokedAt := (if ts_Valid (dbs_RevokedAt r) then dbs_RevokedAt r else ts_at now)\<rparr>)
        in (Inr (count_where P (t_refresh_sessions t)),
            t\<lparr>t_refresh_sessions := update_where P f (t_refresh_sessions t)\<rparr>))"

definition sql_RotateRefreshSession :: "string \<Rightarrow> string \<Rightarrow> int statement" where
  "sql_RotateRefreshSession replacedByTokenID tokenID now t =
     (if \<not> utf8_valid replacedByTokenID \<or> \<not> utf8_valid tokenID then (Inl pg_bad_text, t)
      else case varchar 64 replacedByTokenID of
        Inl e \<Rightarrow> (Inl e, t)
      | Inr replacement \<Rightarrow>
          let P = (\<lambda>r. dbs_TokenID r = tokenID \<and> \<not> ts_Valid (dbs_RevokedAt r) \<and>
                       ts_Valid (dbs_ExpiresAt r) \<and> now < ts_Time (dbs_ExpiresAt r));
              f = (\<lambda>r. r\<lparr>dbs_RevokedAt := ts_at now, dbs_ReplacedByTokenID := Some replacement\<rparr>)
          in (Inr (count_where P (t_refresh_sessions t)),
              t\<lparr>t_refresh_sessions := update_where P f (t_refresh_sessions t)\<rparr>))"

subsection \<open>Transactions\<close>

text \<open>
  A transaction works on the tables and keeps the earlier tables. Rolling back restores
  them, except for the sequences, which are never taken back. A lost \<open>ROLLBACK\<close> closes the
  connection, and the server rolls back by itself. \<open>COMMIT\<close> may fail before or after it took
  effect; after it, in either case, the deferred \<open>Rollback\<close> finds the transaction closed.
\<close>

definition rolled_back :: "tables \<Rightarrow> tables \<Rightarrow> tables" where
  "rolled_back earlier t = earlier\<lparr>t_roles_seq := t_roles_seq t, t_users_seq := t_users_seq t,
     t_refresh_sessions_seq := t_refresh_sessions_seq t, t_documents_seq := t_documents_seq t\<rparr>"

definition tx_begin :: "(pg, go_error, unit) call" where
  "tx_begin = pg_call (\<lambda>now t. (Inr (), t))"

definition tx_rollback :: "tables \<Rightarrow> pg \<Rightarrow> pg" where
  "tx_rollback earlier db =
     (case faulty (pg_faults db) (\<lambda>t. (Inr (), t)) (pg_tables db) of
        (r, t, fs) \<Rightarrow> db\<lparr>pg_tables := rolled_back earlier (pg_tables db), pg_faults := fs\<rparr>)"

definition tx_commit :: "tables \<Rightarrow> (pg, go_error, unit) call" where
  "tx_commit earlier db =
     (case faulty (pg_faults db) (\<lambda>committed. (Inr (), True)) False of
        (r, committed, fs) \<Rightarrow>
          (r, db\<lparr>pg_tables := (if committed then pg_tables db else rolled_back earlier (pg_tables db)),
                 pg_faults := fs\<rparr>))"

subsection \<open>The adapter\<close>

definition userFromCreateRow :: "create_user_row \<Rightarrow> user" where
  "userFromCreateRow row =
     \<lparr>usr_ID = cur_ID row, usr_Email = cur_Email row, usr_PasswordHash = cur_PasswordHash row,
      usr_Role = cur_RoleName row, usr_IsActive = cur_IsActive row,
      usr_CreatedAt = timestamp (cur_CreatedAt row), usr_UpdatedAt = timestamp (cur_UpdatedAt row),
      usr_DeletedAt = timestampPtr (cur_DeletedAt row)\<rparr>"

definition userFromGetByEmailRow :: "get_user_by_email_row \<Rightarrow> user" where
  "userFromGetByEmailRow row =
     \<lparr>usr_ID = cur_ID row, usr_Email = cur_Email row, usr_PasswordHash = cur_PasswordHash row,
      usr_Role = cur_RoleName row, usr_IsActive = cur_IsActive row,
      usr_CreatedAt = timestamp (cur_CreatedAt row), usr_UpdatedAt = timestamp (cur_UpdatedAt row),
      usr_DeletedAt = timestampPtr (cur_DeletedAt row)\<rparr>"

definition userFromGetByIDRow :: "get_user_by_id_row \<Rightarrow> user" where
  "userFromGetByIDRow row =
     \<lparr>usr_ID = cur_ID row, usr_Email = cur_Email row, usr_PasswordHash = cur_PasswordHash row,
      usr_Role = cur_RoleName row, usr_IsActive = cur_IsActive row,
      usr_CreatedAt = timestamp (cur_CreatedAt row), usr_UpdatedAt = timestamp (cur_UpdatedAt row),
      usr_DeletedAt = timestampPtr (cur_DeletedAt row)\<rparr>"

definition refreshSessionFromDB :: "db_refresh_session \<Rightarrow> refresh_session" where
  "refreshSessionFromDB row =
     \<lparr>ses_ID = dbs_ID row, ses_UserID = dbs_UserID row, ses_TokenID = dbs_TokenID row,
      ses_TokenHash = dbs_TokenHash row, ses_ExpiresAt = timestamp (dbs_ExpiresAt row),
      ses_RevokedAt = timestampPtr (dbs_RevokedAt row), ses_ReplacedByTokenID = dbs_ReplacedByTokenID row,
      ses_CreatedAt = timestamp (dbs_CreatedAt row)\<rparr>"

definition refreshSessionParams :: "refresh_session \<Rightarrow> create_refresh_session_params" where
  "refreshSessionParams session =
     \<lparr>crp_UserID = ses_UserID session, crp_TokenID = ses_TokenID session,
      crp_TokenHash = ses_TokenHash session, crp_ExpiresAt = ts_at (ses_ExpiresAt session)\<rparr>"

definition au_CreateUser :: "(string \<Rightarrow> string) \<Rightarrow> string \<Rightarrow> string \<Rightarrow> string \<Rightarrow> (pg, go_error, user) call" where
  "au_CreateUser lower email passwordHash role db =
     (case pg_call (sql_CreateUser lower email passwordHash role) db of
        (Inl err, db') \<Rightarrow> (Inl (mapRepositoryError err ErrAuthEmailConflict), db')
      | (Inr row, db') \<Rightarrow> (Inr (userFromCreateRow row), db'))"

definition au_GetUserByEmail :: "(string \<Rightarrow> string) \<Rightarrow> string \<Rightarrow> (pg, go_error, user) call" where
  "au_GetUserByEmail lower email db =
     (case pg_call (sql_GetUserByEmail lower email) db of
        (Inl err, db') \<Rightarrow> (Inl (mapRepositoryError err ErrAuthUserNotFound), db')
      | (Inr row, db') \<Rightarrow> (Inr (userFromGetByEmailRow row), db'))"

definition au_GetUserByID :: "int \<Rightarrow> (pg, go_error, user) call" where
  "au_GetUserByID uid db =
     (case pg_call (sql_GetUserByID uid) db of
        (Inl err, db') \<Rightarrow> (Inl (mapRepositoryError err ErrAuthUserNotFound), db')
      | (Inr row, db') \<Rightarrow> (Inr (userFromGetByIDRow row), db'))"

definition au_CreateRefreshSession :: "refresh_session \<Rightarrow> (pg, go_error, unit) call" where
  "au_CreateRefreshSession session = pg_call (sql_CreateRefreshSession (refreshSessionParams session))"

definition au_GetRefreshSessionByTokenID :: "string \<Rightarrow> (pg, go_error, refresh_session) call" where
  "au_GetRefreshSessionByTokenID tokenID db =
     (case pg_call (sql_GetRefreshSessionByTokenID tokenID) db of
        (Inl err, db') \<Rightarrow> (Inl (mapRepositoryError err ErrAuthInvalidRefresh), db')
      | (Inr row, db') \<Rightarrow> (Inr (refreshSessionFromDB row), db'))"

definition au_RotateRefreshSession :: "string \<Rightarrow> refresh_session \<Rightarrow> (pg, go_error, unit) call" where
  "au_RotateRefreshSession oldTokenID replacement db =
     (case tx_begin db of
        (Inl err, db1) \<Rightarrow> (Inl (FmtWrap (''begin refresh rotation: '' @ error_text err) err), db1)
      | (Inr _, db1) \<Rightarrow>
          (let earlier = pg_tables db1
           in case pg_call (sql_RotateRefreshSession (ses_TokenID replacement) oldTokenID) db1 of
                (Inl err, db2) \<Rightarrow>
                  (Inl (FmtWrap (''revoke refresh session: '' @ error_text err) err), tx_rollback earlier db2)
              | (Inr rows, db2) \<Rightarrow>
                  if rows \<noteq> 1 then (Inl ErrAuthInvalidRefresh, tx_rollback earlier db2)
                  else (case pg_call (sql_CreateRefreshSession (refreshSessionParams replacement)) db2 of
                          (Inl err, db3) \<Rightarrow>
                            (Inl (FmtWrap (''create replacement refresh session: '' @ error_text err) err),
                             tx_rollback earlier db3)
                        | (Inr _, db3) \<Rightarrow> tx_commit earlier db3)))"

definition au_RevokeRefreshSession :: "string \<Rightarrow> (pg, go_error, unit) call" where
  "au_RevokeRefreshSession tokenID db =
     (case pg_call (sql_RevokeRefreshSession tokenID) db of
        (Inl err, db') \<Rightarrow> (Inl err, db')
      | (Inr _, db') \<Rightarrow> (Inr (), db'))"

definition pg_auth_repository :: "(string \<Rightarrow> string) \<Rightarrow> pg auth_repository" where
  \<comment> \<open>\<open>NewAuthRepository\<close>\<close>
  "pg_auth_repository lower =
     \<lparr>ar_CreateUser = au_CreateUser lower, ar_GetUserByEmail = au_GetUserByEmail lower,
      ar_GetUserByID = au_GetUserByID, ar_CreateRefreshSession = au_CreateRefreshSession,
      ar_GetRefreshSessionByTokenID = au_GetRefreshSessionByTokenID,
      ar_RotateRefreshSession = au_RotateRefreshSession,
      ar_RevokeRefreshSession = au_RevokeRefreshSession\<rparr>"

end
