(* ===== verification/Auth_Contract.thy ===== *)
theory Auth_Contract
  imports Auth_Repository Repository_Contract
begin

text \<open>
  What the authentication service relies on of its repository, as a locale over the live users
  by id and the refresh sessions by token id, and the proof that the PostgreSQL adapter keeps
  these promises under connection failures.
\<close>

subsection \<open>Changes of users and sessions\<close>

type_synonym user_map = "int \<Rightarrow> user option"
type_synonym session_map = "string \<Rightarrow> refresh_session option"

definition user_created :: "(string \<Rightarrow> string \<Rightarrow> bool) \<Rightarrow> string \<Rightarrow> string \<Rightarrow> string \<Rightarrow> user \<Rightarrow> user_map \<Rightarrow> user_map \<Rightarrow> bool" where
  "user_created same_email email hash role u m m' \<longleftrightarrow> m (usr_ID u) = None \<and> m' = m(usr_ID u \<mapsto> u) \<and>
     usr_Role u = role \<and> usr_PasswordHash u = hash \<and> usr_IsActive u \<and> usr_DeletedAt u = None \<and>
     (length email \<le> 320 \<longrightarrow> usr_Email u = email) \<and>
     (\<forall>uid v. m uid = Some v \<longrightarrow> \<not> same_email (usr_Email v) (usr_Email u))"

text \<open>A stored session; ids and hashes that fit their columns are kept as they are.\<close>

definition fresh_session :: "refresh_session \<Rightarrow> string \<Rightarrow> refresh_session \<Rightarrow> bool" where
  "fresh_session s tid s' \<longleftrightarrow> ses_TokenID s' = tid \<and> ses_UserID s' = ses_UserID s \<and>
     ses_ExpiresAt s' = ses_ExpiresAt s \<and> ses_RevokedAt s' = None \<and> ses_ReplacedByTokenID s' = None \<and>
     (length (ses_TokenID s) \<le> 64 \<longrightarrow> tid = ses_TokenID s) \<and>
     (valid_checksum (ses_TokenHash s) \<longrightarrow> ses_TokenHash s' = ses_TokenHash s)"

definition session_created :: "refresh_session \<Rightarrow> session_map \<Rightarrow> session_map \<Rightarrow> bool" where
  "session_created s m m' \<longleftrightarrow> (\<exists>tid s'. m tid = None \<and> m' = m(tid \<mapsto> s') \<and> fresh_session s tid s')"

definition session_rotated :: "string \<Rightarrow> refresh_session \<Rightarrow> session_map \<Rightarrow> session_map \<Rightarrow> bool" where
  "session_rotated old s m m' \<longleftrightarrow> (\<exists>so now r. m old = Some so \<and> ses_RevokedAt so = None \<and> now < ses_ExpiresAt so \<and>
     (length (ses_TokenID s) \<le> 64 \<longrightarrow> r = ses_TokenID s) \<and>
     session_created s (m(old \<mapsto> so\<lparr>ses_RevokedAt := Some now, ses_ReplacedByTokenID := Some r\<rparr>)) m')"

definition session_revoked :: "string \<Rightarrow> session_map \<Rightarrow> session_map \<Rightarrow> bool" where
  "session_revoked tid m m' \<longleftrightarrow> (case m tid of
     None \<Rightarrow> m' = m
   | Some s \<Rightarrow> (\<exists>now. m' = m(tid \<mapsto> s\<lparr>ses_RevokedAt := Some now\<rparr>) \<and>
       (ses_RevokedAt s \<noteq> None \<longrightarrow> ses_RevokedAt s = Some now)))"

text \<open>A token id whose session is revoked.\<close>

definition spent :: "session_map \<Rightarrow> string \<Rightarrow> bool" where
  "spent m tid \<longleftrightarrow> (\<exists>s. m tid = Some s \<and> ses_RevokedAt s \<noteq> None)"

lemma spent_created: "session_created s m m' \<Longrightarrow> spent m tid \<Longrightarrow> spent m' tid"
  by (auto simp: session_created_def spent_def)

lemma spent_rotated: "session_rotated old s m m' \<Longrightarrow> spent m tid \<or> tid = old \<Longrightarrow> spent m' tid"
  unfolding session_rotated_def by (elim exE conjE, erule spent_created) (auto simp: spent_def)

lemma not_spent_rotated: "session_rotated old s m m' \<Longrightarrow> \<not> spent m old"
  by (auto simp: session_rotated_def spent_def)

lemma spent_revoked: "session_revoked old m m' \<Longrightarrow> spent m tid \<or> tid = old \<and> m old \<noteq> None \<Longrightarrow> spent m' tid"
  by (auto simp: session_revoked_def spent_def split: option.splits)

locale auth_store =
  fixes repo :: "'p auth_repository"
    and users :: "'p \<Rightarrow> user_map"
    and sessions :: "'p \<Rightarrow> session_map"
    and same_email :: "string \<Rightarrow> string \<Rightarrow> bool"
    and inv :: "'p \<Rightarrow> bool"
  assumes create_user_ok: "inv w \<Longrightarrow> ar_CreateUser repo e h r w = (Inr u, w') \<Longrightarrow>
          inv w' \<and> sessions w' = sessions w \<and> user_created same_email e h r u (users w) (users w')"
    and create_user_err: "inv w \<Longrightarrow> ar_CreateUser repo e h r w = (Inl err, w') \<Longrightarrow>
          inv w' \<and> sessions w' = sessions w \<and>
          (users w' = users w \<or> (\<exists>u. user_created same_email e h r u (users w) (users w')))"
    and by_email_ok: "inv w \<Longrightarrow> ar_GetUserByEmail repo e w = (Inr u, w') \<Longrightarrow>
          inv w' \<and> sessions w' = sessions w \<and> users w' = users w \<and>
          users w (usr_ID u) = Some u \<and> same_email (usr_Email u) e"
    and by_email_err: "inv w \<Longrightarrow> ar_GetUserByEmail repo e w = (Inl err, w') \<Longrightarrow>
          inv w' \<and> sessions w' = sessions w \<and> users w' = users w"
    and by_id_ok: "inv w \<Longrightarrow> ar_GetUserByID repo uid w = (Inr u, w') \<Longrightarrow>
          inv w' \<and> sessions w' = sessions w \<and> users w' = users w \<and> users w uid = Some u \<and> usr_ID u = uid"
    and by_id_err: "inv w \<Longrightarrow> ar_GetUserByID repo uid w = (Inl err, w') \<Longrightarrow>
          inv w' \<and> sessions w' = sessions w \<and> users w' = users w"
    and new_session_ok: "inv w \<Longrightarrow> ar_CreateRefreshSession repo s w = (Inr (), w') \<Longrightarrow>
          inv w' \<and> users w' = users w \<and> session_created s (sessions w) (sessions w')"
    and new_session_err: "inv w \<Longrightarrow> ar_CreateRefreshSession repo s w = (Inl err, w') \<Longrightarrow>
          inv w' \<and> users w' = users w \<and> (sessions w' = sessions w \<or> session_created s (sessions w) (sessions w'))"
    and get_session_ok: "inv w \<Longrightarrow> ar_GetRefreshSessionByTokenID repo tid w = (Inr s, w') \<Longrightarrow>
          inv w' \<and> sessions w' = sessions w \<and> users w' = users w \<and> sessions w tid = Some s"
    and get_session_err: "inv w \<Longrightarrow> ar_GetRefreshSessionByTokenID repo tid w = (Inl err, w') \<Longrightarrow>
          inv w' \<and> sessions w' = sessions w \<and> users w' = users w"
    and rotate_ok: "inv w \<Longrightarrow> ar_RotateRefreshSession repo old s w = (Inr (), w') \<Longrightarrow>
          inv w' \<and> users w' = users w \<and> session_rotated old s (sessions w) (sessions w')"
    and rotate_err: "inv w \<Longrightarrow> ar_RotateRefreshSession repo old s w = (Inl err, w') \<Longrightarrow>
          inv w' \<and> users w' = users w \<and> (sessions w' = sessions w \<or> session_rotated old s (sessions w) (sessions w'))"
    and revoke_ok: "inv w \<Longrightarrow> ar_RevokeRefreshSession repo tid w = (Inr (), w') \<Longrightarrow>
          inv w' \<and> users w' = users w \<and> session_revoked tid (sessions w) (sessions w')"
    and revoke_err: "inv w \<Longrightarrow> ar_RevokeRefreshSession repo tid w = (Inl err, w') \<Longrightarrow>
          inv w' \<and> users w' = users w \<and> (sessions w' = sessions w \<or> session_revoked tid (sessions w) (sessions w'))"
begin

text \<open>A rotation takes the old session out of use for good: it cannot be rotated again.\<close>

lemma rotate_once:
  assumes "inv w" "ar_RotateRefreshSession repo old s w = (Inr (), w1)" "ar_RotateRefreshSession repo old s' w1 = (r, w2)"
  shows "\<exists>err. r = Inl err \<and> sessions w2 = sessions w1"
proof -
  from rotate_ok [OF assms(1,2)] have i: "inv w1" and sp: "spent (sessions w1) old"
    using spent_rotated by blast+
  from sp have n: "\<not> session_rotated old s' (sessions w1) m" for m using not_spent_rotated by blast
  from rotate_ok [OF i, of old s' w2] rotate_err [OF i, of old s' _ w2] assms(3) n show ?thesis by (cases r) auto
qed

end

subsection \<open>The tables of the adapter\<close>

definition users_of :: "tables \<Rightarrow> user_map" where
  "users_of t uid = (case row_by dbu_ID (t_users t) uid of
     None \<Rightarrow> None
   | Some u \<Rightarrow> if live_user u then map_option userFromGetByIDRow (join_role t u) else None)"

definition sessions_of :: "tables \<Rightarrow> session_map" where
  "sessions_of t tid = map_option refreshSessionFromDB (row_by dbs_TokenID (t_refresh_sessions t) tid)"

definition auth_inv :: "(string \<Rightarrow> string) \<Rightarrow> tables \<Rightarrow> bool" where
  "auth_inv lower t \<longleftrightarrow> distinct (map dbr_ID (t_roles t)) \<and> distinct (map dbu_ID (t_users t)) \<and>
     distinct (map (\<lambda>u. lower (dbu_Email u)) (filter live_user (t_users t))) \<and>
     distinct (map dbs_TokenID (t_refresh_sessions t)) \<and> distinct (map dbs_TokenHash (t_refresh_sessions t)) \<and>
     (\<forall>u \<in> set (t_users t). dbu_ID u < t_users_seq t \<and> dbu_RoleID u \<in> dbr_ID ` set (t_roles t)) \<and>
     (\<forall>s \<in> set (t_refresh_sessions t). dbs_UserID s \<in> dbu_ID ` set (t_users t) \<and> ts_Valid (dbs_ExpiresAt s) \<and>
        (dbs_ReplacedByTokenID s \<noteq> None \<longrightarrow> ts_Valid (dbs_RevokedAt s)))"

lemma auth_inv_seq:
  "auth_inv lower t \<Longrightarrow> t_users_seq t \<le> t_users_seq t' \<Longrightarrow> t_roles t' = t_roles t \<Longrightarrow> t_users t' = t_users t \<Longrightarrow>
   t_refresh_sessions t' = t_refresh_sessions t \<Longrightarrow> auth_inv lower t'"
  by (fastforce simp: auth_inv_def)

lemma same_views:
  "t_users t' = t_users t \<Longrightarrow> t_roles t' = t_roles t \<Longrightarrow> users_of t' = users_of t"
  "t_refresh_sessions t' = t_refresh_sessions t \<Longrightarrow> sessions_of t' = sessions_of t"
  by (auto simp: users_of_def sessions_of_def fun_eq_iff join_role_def split: option.split)

text \<open>The views after an insert.\<close>

lemma sessions_of_insert:
  assumes "dbs_TokenID row \<notin> dbs_TokenID ` set (t_refresh_sessions t)"
    "t_refresh_sessions t' = t_refresh_sessions t @ [row]"
  shows "sessions_of t (dbs_TokenID row) = None"
    "sessions_of t' = (sessions_of t)(dbs_TokenID row \<mapsto> refreshSessionFromDB row)"
proof -
  have n: "row_by dbs_TokenID (t_refresh_sessions t) (dbs_TokenID row) = None" using assms(1) by (simp add: row_by_None)
  then show "sessions_of t (dbs_TokenID row) = None" by (simp add: sessions_of_def)
  show "sessions_of t' = (sessions_of t)(dbs_TokenID row \<mapsto> refreshSessionFromDB row)"
    using n by (auto simp: sessions_of_def assms(2) row_by_append row_by_Cons fun_eq_iff split: option.split)
qed

lemma users_of_insert:
  assumes "dbu_ID row \<notin> dbu_ID ` set (t_users t)" "t_users t' = t_users t @ [row]" "t_roles t' = t_roles t"
    "live_user row" "join_role t row = Some r"
  shows "users_of t (dbu_ID row) = None" "users_of t' = (users_of t)(dbu_ID row \<mapsto> userFromGetByIDRow r)"
proof -
  have n: "row_by dbu_ID (t_users t) (dbu_ID row) = None" using assms(1) by (simp add: row_by_None)
  then show "users_of t (dbu_ID row) = None" by (simp add: users_of_def)
  have j: "join_role t' = join_role t" by (simp add: fun_eq_iff join_role_def assms(3))
  show "users_of t' = (users_of t)(dbu_ID row \<mapsto> userFromGetByIDRow r)"
    using n assms(4,5) by (auto simp: users_of_def assms(2) j row_by_append row_by_Cons fun_eq_iff split: option.split)
qed

subsection \<open>What the statements do\<close>

lemma varchar_Inr: "varchar n s = Inr x \<Longrightarrow> length s \<le> n \<Longrightarrow> x = s"
  by simp

lemma create_session_stmt:
  assumes "auth_inv lower t" "sql_CreateRefreshSession (refreshSessionParams s) now t = (r, t')"
  shows "auth_inv lower t' \<and> users_of t' = users_of t \<and>
    (case r of Inl e \<Rightarrow> sessions_of t' = sessions_of t | Inr _ \<Rightarrow> session_created s (sessions_of t) (sessions_of t'))"
proof (cases r)
  case (Inl e)
  with assms(2) have "t_users t' = t_users t" "t_roles t' = t_roles t" "t_refresh_sessions t' = t_refresh_sessions t"
    "t_users_seq t' = t_users_seq t"
    by (auto simp: sql_CreateRefreshSession_def Let_def split: if_splits sum.splits)
  with Inl show ?thesis using auth_inv_seq [OF assms(1), of t'] same_views [of t' t] by simp
next
  case (Inr u)
  let ?p = "refreshSessionParams s"
  obtain tid hash where tid: "varchar 64 (ses_TokenID s) = Inr tid" and hash: "char_column 64 (ses_TokenHash s) = Inr hash"
    and new: "tid \<notin> dbs_TokenID ` set (t_refresh_sessions t)" "hash \<notin> dbs_TokenHash ` set (t_refresh_sessions t)"
    and fk: "ses_UserID s \<in> dbu_ID ` set (t_users t)"
    and t': "t' = t\<lparr>t_refresh_sessions_seq := t_refresh_sessions_seq t + 1,
        t_refresh_sessions := t_refresh_sessions t @ [\<lparr>dbs_ID = t_refresh_sessions_seq t, dbs_UserID = ses_UserID s,
          dbs_TokenID = tid, dbs_TokenHash = hash, dbs_ExpiresAt = ts_at (ses_ExpiresAt s), dbs_RevokedAt = ts_null,
          dbs_ReplacedByTokenID = None, dbs_CreatedAt = ts_at now\<rparr>]\<rparr>"
    using assms(2) Inr
    by (auto simp: sql_CreateRefreshSession_def refreshSessionParams_def Let_def split: if_splits sum.splits)
  let ?row = "last (t_refresh_sessions t')"
  have row: "dbs_TokenID ?row = tid" "t_refresh_sessions t' = t_refresh_sessions t @ [?row]" by (simp_all add: t')
  have i: "auth_inv lower t'" using assms(1) new fk by (simp add: auth_inv_def t' ts_at_def ts_null_def)
  note v = sessions_of_insert [of ?row t t', unfolded row(1), OF new(1) row(2)]
  have f: "fresh_session s tid (refreshSessionFromDB ?row)"
    using tid hash by (auto simp: fresh_session_def refreshSessionFromDB_def t' timestamp_def timestampPtr_def
        ts_at_def ts_null_def checksum_column)
  have "users_of t' = users_of t" by (rule same_views) (simp_all add: t')
  with i v f Inr show ?thesis by (auto simp: session_created_def)
qed

lemma create_user_stmt:
  assumes "auth_inv lower t" "sql_CreateUser lower e h role now t = (r, t')"
  shows "auth_inv lower t' \<and> sessions_of t' = sessions_of t \<and>
    (case r of Inl err \<Rightarrow> users_of t' = users_of t
     | Inr row \<Rightarrow> user_created (\<lambda>a b. lower a = lower b) e h role (userFromCreateRow row) (users_of t) (users_of t'))"
proof -
  have d: "distinct (map dbr_ID (t_roles t))" using assms(1) by (simp add: auth_inv_def)
  show ?thesis
  proof (cases "\<exists>address ro row. t' = t\<lparr>t_users_seq := t_users_seq t + 1, t_users := t_users t @ [row]\<rparr> \<and>
      ro \<in> set (t_roles t) \<and> dbr_Name ro = role \<and> varchar 320 e = Inr address \<and>
      (\<forall>u \<in> set (t_users t). live_user u \<longrightarrow> lower (dbu_Email u) \<noteq> lower address) \<and>
      row = \<lparr>dbu_ID = t_users_seq t, dbu_RoleID = dbr_ID ro, dbu_Email = address, dbu_PasswordHash = h, dbu_IsActive = True,
             dbu_CreatedAt = ts_at now, dbu_UpdatedAt = ts_at now, dbu_DeletedAt = ts_null\<rparr> \<and>
      r = (case join_role t row of None \<Rightarrow> Inl pgx_ErrNoRows | Some r \<Rightarrow> Inr r)")
    case False
    then have "isl r" "t_users t' = t_users t" "t_roles t' = t_roles t" "t_refresh_sessions t' = t_refresh_sessions t"
      "t_users_seq t \<le> t_users_seq t'"
      using assms(2) by (auto simp: sql_CreateUser_def Let_def find_Some_iff split: if_splits sum.splits option.splits)
    then show ?thesis using auth_inv_seq [OF assms(1), of t'] same_views [of t' t] by (auto simp: isl_def)
  next
    case True
    then obtain address ro row where t': "t' = t\<lparr>t_users_seq := t_users_seq t + 1, t_users := t_users t @ [row]\<rparr>"
      and ro: "ro \<in> set (t_roles t)" "dbr_Name ro = role" and addr: "varchar 320 e = Inr address"
      and new: "\<forall>u \<in> set (t_users t). live_user u \<longrightarrow> lower (dbu_Email u) \<noteq> lower address"
      and row: "row = \<lparr>dbu_ID = t_users_seq t, dbu_RoleID = dbr_ID ro, dbu_Email = address, dbu_PasswordHash = h,
             dbu_IsActive = True, dbu_CreatedAt = ts_at now, dbu_UpdatedAt = ts_at now, dbu_DeletedAt = ts_null\<rparr>"
      and r: "r = (case join_role t row of None \<Rightarrow> Inl pgx_ErrNoRows | Some r \<Rightarrow> Inr r)" by blast
    obtain jr where j: "join_role t row = Some jr" "cur_ID jr = dbu_ID row" "cur_RoleName jr = role" "cur_PasswordHash jr = h"
        "cur_IsActive jr" "cur_DeletedAt jr = ts_null" "cur_Email jr = address"
      using row_by_distinct [OF d ro(1)] ro(2) by (auto simp: join_role_def row)
    have lu: "live_user row" by (simp add: live_user_def row ts_null_def)
    have fresh: "dbu_ID row \<notin> dbu_ID ` set (t_users t)" using assms(1) by (auto simp: auth_inv_def row)
    note v = users_of_insert [OF fresh _ _ lu j(1), of t']
    have i: "auth_inv lower t'"
      using assms(1) fresh ro(1) new lu by (auto simp: auth_inv_def t' row less_Suc_eq)
    have u: "userFromCreateRow jr = userFromGetByIDRow jr" by (simp add: userFromCreateRow_def userFromGetByIDRow_def)
    have em: "\<not> lower (usr_Email x) = lower address" if "users_of t uid = Some x" for uid x
    proof -
      from that obtain du where "row_by dbu_ID (t_users t) uid = Some du" "live_user du" "usr_Email x = dbu_Email du"
        by (auto simp: users_of_def join_role_def userFromGetByIDRow_def split: option.splits if_splits)
      moreover from this(1) have "du \<in> set (t_users t)" using row_by_Some by fastforce
      ultimately show ?thesis using new by auto
    qed
    have sv: "sessions_of t' = sessions_of t" by (rule same_views) (simp add: t')
    have r': "r = Inr jr" using r j(1) by simp
    have v1: "users_of t (dbu_ID row) = None" "users_of t' = (users_of t)(dbu_ID row \<mapsto> userFromGetByIDRow jr)"
      using v by (simp_all add: t')
    have "user_created (\<lambda>a b. lower a = lower b) e h role (userFromCreateRow jr) (users_of t) (users_of t')"
      unfolding user_created_def u using v1 j em addr
      by (auto simp: userFromGetByIDRow_def timestampPtr_def ts_null_def)
    with i sv r' show ?thesis by simp
  qed
qed

lemma get_user_stmt:
  assumes "auth_inv lower t" "sql_GetUserByID uid now t = (Inr row, t')"
  shows "users_of t uid = Some (userFromGetByIDRow row) \<and> cur_ID row = uid"
proof -
  have "distinct (map dbu_ID (t_users t))" using assms(1) by (simp add: auth_inv_def)
  note f = filter_row_by [OF this, of uid live_user]
  from assms(2) f obtain u where "row_by dbu_ID (t_users t) uid = Some u" "live_user u" "join_role t u = Some row"
    by (auto simp: sql_GetUserByID_def List.map_filter_simps split: list.splits option.splits if_splits)
  moreover from this(1) have "dbu_ID u = uid" using row_by_Some by fastforce
  ultimately show ?thesis by (auto simp: users_of_def join_role_def)
qed

lemma map_filter_ConsD: "List.map_filter f xs = y # ys \<Longrightarrow> \<exists>x \<in> set xs. f x = Some y"
  by (induction xs) (auto simp: List.map_filter_simps split: option.splits)

lemma get_by_email_stmt:
  assumes "auth_inv lower t" "sql_GetUserByEmail lower e now t = (Inr row, t')"
  shows "users_of t (cur_ID row) = Some (userFromGetByEmailRow row) \<and> lower (cur_Email row) = lower e"
proof -
  from assms(2) obtain rest where "List.map_filter (join_role t)
      (filter (\<lambda>u. lower (dbu_Email u) = lower e \<and> live_user u) (t_users t)) = row # rest"
    by (auto simp: sql_GetUserByEmail_def split: if_splits list.splits)
  from map_filter_ConsD [OF this] obtain u where u: "u \<in> set (t_users t)" "lower (dbu_Email u) = lower e" "live_user u"
      "join_role t u = Some row" by auto
  have "distinct (map dbu_ID (t_users t))" using assms(1) by (simp add: auth_inv_def)
  from row_by_distinct [OF this u(1)] u show ?thesis
    by (auto simp: users_of_def join_role_def userFromGetByEmailRow_def userFromGetByIDRow_def)
qed

lemma read_only_auth:
  "read_only (sql_GetUserByID uid)" "read_only (sql_GetUserByEmail lower e)" "read_only (sql_GetRefreshSessionByTokenID tid)"
  by (rule read_onlyI, simp add: sql_GetUserByID_def sql_GetUserByEmail_def sql_GetRefreshSessionByTokenID_def
      split: list.splits option.splits)+

text \<open>An update of one session by its token id.\<close>

lemma sessions_of_update:
  assumes "\<And>r. dbs_TokenID (f r) = dbs_TokenID r"
    "t_refresh_sessions t' = update_where (\<lambda>r. dbs_TokenID r = tid \<and> Q r) f (t_refresh_sessions t)"
  shows "sessions_of t' = (case row_by dbs_TokenID (t_refresh_sessions t) tid of
      None \<Rightarrow> sessions_of t
    | Some r \<Rightarrow> if Q r then (sessions_of t)(tid \<mapsto> refreshSessionFromDB (f r)) else sessions_of t)"
proof (rule ext)
  fix k
  have u: "row_by dbs_TokenID (t_refresh_sessions t') k =
      map_option (\<lambda>r. if dbs_TokenID r = tid \<and> Q r then f r else r) (row_by dbs_TokenID (t_refresh_sessions t) k)"
    unfolding assms(2) by (rule row_by_update_where) (rule assms(1))
  show "sessions_of t' k = (case row_by dbs_TokenID (t_refresh_sessions t) tid of
      None \<Rightarrow> sessions_of t
    | Some r \<Rightarrow> if Q r then (sessions_of t)(tid \<mapsto> refreshSessionFromDB (f r)) else sessions_of t) k"
  proof (cases "row_by dbs_TokenID (t_refresh_sessions t) k")
    case None
    with u show ?thesis by (auto simp: sessions_of_def split: option.split)
  next
    case (Some r)
    moreover from this have "dbs_TokenID r = k" using row_by_Some by fastforce
    ultimately show ?thesis using u by (auto simp: sessions_of_def split: option.split)
  qed
qed

lemma auth_inv_update:
  assumes "auth_inv lower t" "t' = t\<lparr>t_refresh_sessions := update_where P f (t_refresh_sessions t)\<rparr>"
    "\<And>r. dbs_TokenID (f r) = dbs_TokenID r \<and> dbs_TokenHash (f r) = dbs_TokenHash r \<and> dbs_UserID (f r) = dbs_UserID r \<and>
       dbs_ExpiresAt (f r) = dbs_ExpiresAt r \<and> ts_Valid (dbs_RevokedAt (f r))"
  shows "auth_inv lower t'"
  using assms(1,3) by (auto simp: auth_inv_def assms(2) map_key_update_where set_update_where)

lemma revoke_stmt:
  assumes "auth_inv lower t" "sql_RevokeRefreshSession tid now t = (r, t')"
  shows "auth_inv lower t' \<and> users_of t' = users_of t \<and>
    (case r of Inl e \<Rightarrow> sessions_of t' = sessions_of t | Inr _ \<Rightarrow> session_revoked tid (sessions_of t) (sessions_of t'))"
proof (cases r)
  case (Inl e)
  with assms show ?thesis by (auto simp: sql_RevokeRefreshSession_def Let_def split: if_splits)
next
  case (Inr n)
  let ?f = "\<lambda>r. r\<lparr>dbs_RevokedAt := (if ts_Valid (dbs_RevokedAt r) then dbs_RevokedAt r else ts_at now)\<rparr>"
  have t': "t' = t\<lparr>t_refresh_sessions := update_where (\<lambda>r. dbs_TokenID r = tid) ?f (t_refresh_sessions t)\<rparr>"
    using assms(2) Inr by (auto simp: sql_RevokeRefreshSession_def Let_def split: if_splits)
  have i: "auth_inv lower t'" by (rule auth_inv_update [OF assms(1) t']) (simp add: ts_at_def)
  have u: "users_of t' = users_of t" by (rule same_views) (simp_all add: t')
  have s: "sessions_of t' = (case row_by dbs_TokenID (t_refresh_sessions t) tid of
      None \<Rightarrow> sessions_of t | Some r \<Rightarrow> (sessions_of t)(tid \<mapsto> refreshSessionFromDB (?f r)))"
    using sessions_of_update [of ?f t' tid "\<lambda>_. True" t] by (simp add: t' cong: option.case_cong)
  show ?thesis
  proof (cases "row_by dbs_TokenID (t_refresh_sessions t) tid")
    case None
    with i u s Inr show ?thesis by (auto simp: session_revoked_def sessions_of_def)
  next
    case (Some row)
    let ?u = "if ts_Valid (dbs_RevokedAt row) then ts_Time (dbs_RevokedAt row) else now"
    have "refreshSessionFromDB (?f row) = (refreshSessionFromDB row)\<lparr>ses_RevokedAt := Some ?u\<rparr>"
      by (simp add: refreshSessionFromDB_def timestampPtr_def ts_at_def)
    moreover have "sessions_of t tid = Some (refreshSessionFromDB row)" using Some by (simp add: sessions_of_def)
    ultimately have "session_revoked tid (sessions_of t) (sessions_of t')"
      using s Some by (auto simp: session_revoked_def refreshSessionFromDB_def timestampPtr_def intro!: exI [of _ ?u])
    with i u Inr show ?thesis by simp
  qed
qed

lemma rotate_stmt:
  assumes "auth_inv lower t" "sql_RotateRefreshSession new old now t = (r, t')"
  shows "auth_inv lower t' \<and> users_of t' = users_of t \<and> t_users_seq t' = t_users_seq t \<and>
    (r = Inr 1 \<longrightarrow> (\<exists>so rep. sessions_of t old = Some so \<and> ses_RevokedAt so = None \<and> now < ses_ExpiresAt so \<and>
       (length new \<le> 64 \<longrightarrow> rep = new) \<and>
       sessions_of t' = (sessions_of t)(old \<mapsto> so\<lparr>ses_RevokedAt := Some now, ses_ReplacedByTokenID := Some rep\<rparr>)))"
proof (cases r)
  case (Inl e)
  with assms show ?thesis by (auto simp: sql_RotateRefreshSession_def Let_def split: if_splits sum.splits)
next
  case (Inr n)
  obtain rep where rep: "varchar 64 new = Inr rep"
    using assms(2) Inr by (auto simp: sql_RotateRefreshSession_def Let_def split: if_splits sum.splits)
  let ?Q = "\<lambda>r. \<not> ts_Valid (dbs_RevokedAt r) \<and> ts_Valid (dbs_ExpiresAt r) \<and> now < ts_Time (dbs_ExpiresAt r)"
  let ?f = "\<lambda>r. r\<lparr>dbs_RevokedAt := ts_at now, dbs_ReplacedByTokenID := Some rep\<rparr>"
  have t': "t' = t\<lparr>t_refresh_sessions := update_where (\<lambda>r. dbs_TokenID r = old \<and> ?Q r) ?f (t_refresh_sessions t)\<rparr>"
    and n: "n = count_where (\<lambda>r. dbs_TokenID r = old \<and> ?Q r) (t_refresh_sessions t)"
    using assms(2) Inr rep by (auto simp: sql_RotateRefreshSession_def Let_def split: if_splits)
  have i: "auth_inv lower t'" by (rule auth_inv_update [OF assms(1) t']) (simp add: ts_at_def)
  have u: "users_of t' = users_of t" by (rule same_views) (simp_all add: t')
  have d: "distinct (map dbs_TokenID (t_refresh_sessions t))" using assms(1) by (simp add: auth_inv_def)
  have s: "sessions_of t' = (case row_by dbs_TokenID (t_refresh_sessions t) old of
      None \<Rightarrow> sessions_of t | Some r \<Rightarrow> if ?Q r then (sessions_of t)(old \<mapsto> refreshSessionFromDB (?f r)) else sessions_of t)"
    by (rule sessions_of_update) (simp_all add: t')
  have "\<exists>so rep. sessions_of t old = Some so \<and> ses_RevokedAt so = None \<and> now < ses_ExpiresAt so \<and>
       (length new \<le> 64 \<longrightarrow> rep = new) \<and>
       sessions_of t' = (sessions_of t)(old \<mapsto> so\<lparr>ses_RevokedAt := Some now, ses_ReplacedByTokenID := Some rep\<rparr>)" if "n = 1"
  proof -
    from that n count_where_key [OF d, of old ?Q] obtain row where
      row: "row_by dbs_TokenID (t_refresh_sessions t) old = Some row" "?Q row" by (auto split: option.splits if_splits)
    have "refreshSessionFromDB (?f row) = (refreshSessionFromDB row)\<lparr>ses_RevokedAt := Some now, ses_ReplacedByTokenID := Some rep\<rparr>"
      by (simp add: refreshSessionFromDB_def timestampPtr_def ts_at_def)
    moreover have "sessions_of t old = Some (refreshSessionFromDB row)" using row(1) by (simp add: sessions_of_def)
    ultimately show ?thesis using row s rep
      by (auto simp: refreshSessionFromDB_def timestampPtr_def timestamp_def intro!: exI [of _ rep])
  qed
  with i u Inr show ?thesis by (simp add: t')
qed

subsection \<open>The adapter keeps the contract\<close>

lemma rolled_back_views:
  assumes "auth_inv lower earlier" "t_users_seq earlier \<le> t_users_seq t"
  shows "auth_inv lower (rolled_back earlier t)" "users_of (rolled_back earlier t) = users_of earlier"
    "sessions_of (rolled_back earlier t) = sessions_of earlier"
  using auth_inv_seq [OF assms(1), of "rolled_back earlier t"] same_views [of "rolled_back earlier t" earlier] assms(2)
  by (simp_all add: rolled_back_def)

definition pg_users :: "pg \<Rightarrow> user_map" where "pg_users db = users_of (pg_tables db)"
definition pg_sessions :: "pg \<Rightarrow> session_map" where "pg_sessions db = sessions_of (pg_tables db)"
definition pg_auth_inv :: "(string \<Rightarrow> string) \<Rightarrow> pg \<Rightarrow> bool" where "pg_auth_inv lower db \<longleftrightarrow> auth_inv lower (pg_tables db)"

lemmas pg_view_defs = pg_users_def pg_sessions_def pg_auth_inv_def

lemma tx_rollback_tables [simp]: "pg_tables (tx_rollback earlier db) = rolled_back earlier (pg_tables db)"
  by (auto simp: tx_rollback_def split: prod.splits)

lemma tx_commit_cases:
  assumes "tx_commit earlier db = (r, db')"
  shows "(case r of Inr _ \<Rightarrow> pg_tables db' = pg_tables db
     | Inl _ \<Rightarrow> pg_tables db' = pg_tables db \<or> pg_tables db' = rolled_back earlier (pg_tables db))"
  using assms by (auto simp: tx_commit_def faulty_def split: prod.splits sum.splits list.splits fault.splits)

lemma tx_begin_tables: "tx_begin db = (r, db') \<Longrightarrow> pg_tables db' = pg_tables db \<and> pg_now db' = pg_now db"
  unfolding tx_begin_def by (auto dest: pg_call_tables pg_call_now)

lemma create_session_call:
  assumes "auth_inv lower (pg_tables db)" "pg_call (sql_CreateRefreshSession (refreshSessionParams s)) db = (r, db')"
  shows "auth_inv lower (pg_tables db') \<and> users_of (pg_tables db') = users_of (pg_tables db) \<and>
    (session_created s (sessions_of (pg_tables db)) (sessions_of (pg_tables db')) \<or>
     isl r \<and> sessions_of (pg_tables db') = sessions_of (pg_tables db))"
  using assms(2)
proof (cases rule: pg_call_cases)
  case run
  with create_session_stmt [OF assms(1) run] show ?thesis by (auto split: sum.splits)
next
  case (lost e)
  with assms(1) show ?thesis by simp
next
  case (applied e r')
  with create_session_stmt [OF assms(1) applied(2)] show ?thesis by (auto split: sum.splits)
qed

lemma seq_mono_create_session:
  "sql_CreateRefreshSession p now t = (r, t') \<Longrightarrow> t_users_seq t' = t_users_seq t"
  by (auto simp: sql_CreateRefreshSession_def Let_def split: if_splits sum.splits)

lemma rotate_call:
  assumes "pg_auth_inv lower db" "au_RotateRefreshSession old s db = (r, db')"
  shows "pg_auth_inv lower db' \<and> pg_users db' = pg_users db \<and>
    (session_rotated old s (pg_sessions db) (pg_sessions db') \<or> isl r \<and> pg_sessions db' = pg_sessions db)"
proof -
  let ?t = "pg_tables db"
  have inv: "auth_inv lower ?t" using assms(1) by (simp add: pg_auth_inv_def)
  have undone: "pg_auth_inv lower db' \<and> pg_users db' = pg_users db \<and> pg_sessions db' = pg_sessions db"
    if "pg_tables db' = rolled_back ?t t'" "t_users_seq ?t \<le> t_users_seq t'" for t'
    using rolled_back_views [OF inv that(2)] by (simp add: pg_view_defs that(1))
  obtain rb db1 where b: "tx_begin db = (rb, db1)" by fastforce
  note b1 = tx_begin_tables [OF b]
  let ?rot = "sql_RotateRefreshSession (ses_TokenID s) old" and ?ins = "sql_CreateRefreshSession (refreshSessionParams s)"
  obtain r2 db2 where c2: "pg_call ?rot db1 = (r2, db2)" by fastforce
  obtain r3 db3 where c3: "pg_call ?ins db2 = (r3, db3)" by fastforce
  have t2: "pg_tables db2 = ?t \<or> pg_tables db2 = snd (?rot (pg_now db) ?t)" using pg_call_tables [OF c2] b1 by simp
  have seq2: "t_users_seq (pg_tables db2) = t_users_seq ?t"
    using t2 rotate_stmt [OF inv, of "ses_TokenID s" old] by (metis prod.collapse)
  have t3: "pg_tables db3 = pg_tables db2 \<or> pg_tables db3 = snd (?ins (pg_now db2) (pg_tables db2))"
    by (rule pg_call_tables [OF c3])
  have seq3: "t_users_seq (pg_tables db3) = t_users_seq ?t"
    using t3 seq2 seq_mono_create_session by (metis prod.collapse)
  consider (no_tx) e where "rb = Inl e" | (first) "\<not> isl rb" "r2 \<noteq> Inr 1" | (second) "\<not> isl rb" "r2 = Inr 1" "isl r3"
    | (all) "\<not> isl rb" "r2 = Inr 1" "\<not> isl r3"
    by (cases rb) auto
  then show ?thesis
  proof cases
    case no_tx
    with assms b b1 show ?thesis by (auto simp: au_RotateRefreshSession_def pg_view_defs)
  next
    case first
    then have "isl r" "pg_tables db' = rolled_back ?t (pg_tables db2)"
      using assms(2) b c2 b1 by (auto simp: au_RotateRefreshSession_def Let_def split: sum.splits if_splits)
    with undone seq2 show ?thesis by simp
  next
    case second
    then have "isl r" "pg_tables db' = rolled_back ?t (pg_tables db3)"
      using assms(2) b c2 c3 b1 by (auto simp: au_RotateRefreshSession_def Let_def split: sum.splits if_splits)
    with undone seq3 show ?thesis by simp
  next
    case all
    have cm: "tx_commit ?t db3 = (r, db')"
      using assms(2) b c2 c3 b1 all by (auto simp: au_RotateRefreshSession_def Let_def split: sum.splits)
    from pg_call_Inr [OF c2 [unfolded all(2)]] b1 have rt: "?rot (pg_now db) ?t = (Inr 1, pg_tables db2)" by simp
    from rotate_stmt [OF inv rt] obtain so rep where so: "auth_inv lower (pg_tables db2)"
      "users_of (pg_tables db2) = users_of ?t" "sessions_of ?t old = Some so" "ses_RevokedAt so = None"
      "pg_now db < ses_ExpiresAt so" "length (ses_TokenID s) \<le> 64 \<longrightarrow> rep = ses_TokenID s"
      "sessions_of (pg_tables db2) = (sessions_of ?t)(old \<mapsto> so\<lparr>ses_RevokedAt := Some (pg_now db), ses_ReplacedByTokenID := Some rep\<rparr>)"
      by auto
    from create_session_call [OF so(1) c3] all(3) have cr: "auth_inv lower (pg_tables db3)"
      "users_of (pg_tables db3) = users_of ?t" "session_created s (sessions_of (pg_tables db2)) (sessions_of (pg_tables db3))"
      using so(2) by auto
    then have "session_rotated old s (sessions_of ?t) (sessions_of (pg_tables db3))"
      unfolding session_rotated_def using so(3-7) by metis
    with cr have complete: "pg_tables db' = pg_tables db3 \<Longrightarrow> ?thesis" by (simp add: pg_view_defs)
    from tx_commit_cases [OF cm] complete undone seq3 show ?thesis by (cases r) auto
  qed
qed

lemma user_call:
  assumes "pg_auth_inv lower db" "pg_call (sql_CreateUser lower e h role) db = (r, db')"
  shows "pg_auth_inv lower db' \<and> pg_sessions db' = pg_sessions db \<and>
    (case r of Inl err \<Rightarrow> pg_users db' = pg_users db \<or> (\<exists>u. user_created (\<lambda>a b. lower a = lower b) e h role u (pg_users db) (pg_users db'))
     | Inr row \<Rightarrow> user_created (\<lambda>a b. lower a = lower b) e h role (userFromCreateRow row) (pg_users db) (pg_users db'))"
proof -
  have inv: "auth_inv lower (pg_tables db)" using assms(1) by (simp add: pg_auth_inv_def)
  note st = create_user_stmt [OF inv]
  show ?thesis
    using assms(2)
  proof (cases rule: pg_call_cases)
    case run
    with st [OF run] show ?thesis by (auto simp: pg_view_defs split: sum.splits)
  next
    case (lost err)
    with inv show ?thesis by (simp add: pg_view_defs)
  next
    case (applied err r')
    with st [OF applied(2)] show ?thesis by (auto simp: pg_view_defs split: sum.splits)
  qed
qed

lemma revoke_call:
  assumes "pg_auth_inv lower db" "pg_call (sql_RevokeRefreshSession tid) db = (r, db')"
  shows "pg_auth_inv lower db' \<and> pg_users db' = pg_users db \<and>
    (session_revoked tid (pg_sessions db) (pg_sessions db') \<or> isl r \<and> pg_sessions db' = pg_sessions db)"
proof -
  have inv: "auth_inv lower (pg_tables db)" using assms(1) by (simp add: pg_auth_inv_def)
  note st = revoke_stmt [OF inv]
  show ?thesis
    using assms(2)
  proof (cases rule: pg_call_cases)
    case run
    with st [OF run] show ?thesis by (auto simp: pg_view_defs split: sum.splits)
  next
    case (lost err)
    with inv show ?thesis by (simp add: pg_view_defs)
  next
    case (applied err r')
    with st [OF applied(2)] show ?thesis by (auto simp: pg_view_defs split: sum.splits)
  qed
qed

lemma read_call:
  assumes "pg_auth_inv lower db" "read_only stmt" "pg_call stmt db = (r, db')"
  shows "pg_auth_inv lower db' \<and> pg_users db' = pg_users db \<and> pg_sessions db' = pg_sessions db"
  using pg_call_read_only [OF assms(2,3)] assms(1) by (simp add: pg_view_defs)

lemma pg_auth_simps [simp]:
  "ar_CreateUser (pg_auth_repository lower) = au_CreateUser lower"
  "ar_GetUserByEmail (pg_auth_repository lower) = au_GetUserByEmail lower"
  "ar_GetUserByID (pg_auth_repository lower) = au_GetUserByID"
  "ar_CreateRefreshSession (pg_auth_repository lower) = au_CreateRefreshSession"
  "ar_GetRefreshSessionByTokenID (pg_auth_repository lower) = au_GetRefreshSessionByTokenID"
  "ar_RotateRefreshSession (pg_auth_repository lower) = au_RotateRefreshSession"
  "ar_RevokeRefreshSession (pg_auth_repository lower) = au_RevokeRefreshSession"
  by (simp_all add: pg_auth_repository_def)

interpretation pg_auth: auth_store "pg_auth_repository lower" pg_users pg_sessions "\<lambda>a b. lower a = lower b" "pg_auth_inv lower"
  for lower
proof (unfold_locales, unfold pg_auth_simps, goal_cases)
  case (1 w e h r u w')
  then show ?case using user_call [OF 1(1), of e h r] by (auto simp: au_CreateUser_def split: prod.splits sum.splits)
next
  case (2 w e h r err w')
  then show ?case using user_call [OF 2(1), of e h r] by (auto simp: au_CreateUser_def split: prod.splits sum.splits)
next
  case (3 w e u w')
  then obtain row where c: "pg_call (sql_GetUserByEmail lower e) w = (Inr row, w')" and u: "u = userFromGetByEmailRow row"
    by (auto simp: au_GetUserByEmail_def split: prod.splits sum.splits)
  have "auth_inv lower (pg_tables w)" using 3(1) by (simp add: pg_auth_inv_def)
  from get_by_email_stmt [OF this pg_call_Inr [OF c]] read_call [OF 3(1) read_only_auth(2) c] u
  show ?case by (simp add: pg_users_def userFromGetByEmailRow_def)
next
  case (4 w e err w')
  then show ?case using read_call [OF 4(1) read_only_auth(2)] by (auto simp: au_GetUserByEmail_def split: prod.splits sum.splits)
next
  case (5 w uid u w')
  then obtain row where c: "pg_call (sql_GetUserByID uid) w = (Inr row, w')" and u: "u = userFromGetByIDRow row"
    by (auto simp: au_GetUserByID_def split: prod.splits sum.splits)
  have "auth_inv lower (pg_tables w)" using 5(1) by (simp add: pg_auth_inv_def)
  from get_user_stmt [OF this pg_call_Inr [OF c]] read_call [OF 5(1) read_only_auth(1) c] u
  show ?case by (simp add: pg_users_def userFromGetByIDRow_def)
next
  case (6 w uid err w')
  then show ?case using read_call [OF 6(1) read_only_auth(1)] by (auto simp: au_GetUserByID_def split: prod.splits sum.splits)
next
  case (7 w s w')
  then show ?case using create_session_call [of lower w s] by (auto simp: au_CreateRefreshSession_def pg_view_defs)
next
  case (8 w s err w')
  then show ?case using create_session_call [of lower w s] by (auto simp: au_CreateRefreshSession_def pg_view_defs)
next
  case (9 w tid s w')
  then obtain row where c: "pg_call (sql_GetRefreshSessionByTokenID tid) w = (Inr row, w')" and s: "s = refreshSessionFromDB row"
    by (auto simp: au_GetRefreshSessionByTokenID_def split: prod.splits sum.splits)
  from pg_call_Inr [OF c] have "row_by dbs_TokenID (t_refresh_sessions (pg_tables w)) tid = Some row"
    by (auto simp: sql_GetRefreshSessionByTokenID_def split: if_splits option.splits)
  with read_call [OF 9(1) read_only_auth(3) c] s show ?case by (simp add: pg_sessions_def sessions_of_def)
next
  case (10 w tid err w')
  then show ?case using read_call [OF 10(1) read_only_auth(3)]
    by (auto simp: au_GetRefreshSessionByTokenID_def split: prod.splits sum.splits)
next
  case (11 w old s w')
  then show ?case using rotate_call by fastforce
next
  case (12 w old s err w')
  then show ?case using rotate_call by fastforce
next
  case (13 w tid w')
  then show ?case using revoke_call [OF 13(1), of tid] by (auto simp: au_RevokeRefreshSession_def split: prod.splits sum.splits)
next
  case (14 w tid err w')
  then show ?case using revoke_call [OF 14(1), of tid] by (auto simp: au_RevokeRefreshSession_def split: prod.splits sum.splits)
qed

end
