(* ===== verification/Jwt_Manager.thy ===== *)
theory Jwt_Manager
  imports External_Calls
begin

text \<open>
  Package \<open>internal/auth\<close>: the issuing and checking of access and refresh tokens, and password
  hashes. The JWT library and bcrypt are third-party packages, hence parameters: records of the
  calls the source makes. What a proof relies on of them is a named hypothesis on the record.

  The state of these functions is the process's entropy source and clock, next to the state
  \<open>'p\<close> of the repository of the service that calls them.
\<close>

record 'p auth_world =
  aw_repository :: 'p
  aw_random :: entropy
  aw_times :: "instant list"

definition read_clock :: "'p auth_world \<Rightarrow> instant \<times> 'p auth_world" where
  "read_clock w = (case time_now (aw_times w) of (t, ts) \<Rightarrow> (t, w\<lparr>aw_times := ts\<rparr>))"

definition on_entropy :: "(entropy \<Rightarrow> 'a \<times> entropy) \<Rightarrow> 'p auth_world \<Rightarrow> 'a \<times> 'p auth_world" where
  "on_entropy f w = (case f (aw_random w) of (r, es) \<Rightarrow> (r, w\<lparr>aw_random := es\<rparr>))"

definition on_users :: "('p \<Rightarrow> 'a \<times> 'p) \<Rightarrow> 'p auth_world \<Rightarrow> 'a \<times> 'p auth_world" where
  "on_users f w = (case f (aw_repository w) of (r, p) \<Rightarrow> (r, w\<lparr>aw_repository := p\<rparr>))"

lemma read_clock_repository [simp]: "read_clock w = (t, w') \<Longrightarrow> aw_repository w' = aw_repository w"
  by (auto simp: read_clock_def split: prod.splits)

lemma on_entropy_repository: "on_entropy f w = (r, w') \<Longrightarrow> aw_repository w' = aw_repository w"
  by (auto simp: on_entropy_def split: prod.splits)

subsection \<open>jwt.go\<close>

definition AccessTokenType :: string where "AccessTokenType = ''access''"
definition RefreshTokenType :: string where "RefreshTokenType = ''refresh''"

text \<open>The claims, with the embedded \<open>jwt.RegisteredClaims\<close>.\<close>

record claims =
  cl_UserID :: string
  cl_Email :: string
  cl_Role :: string
  cl_TokenType :: string
  cl_Issuer :: string
  cl_Subject :: string
  cl_Audience :: "string list"
  cl_ExpiresAt :: "instant option"
  cl_NotBefore :: "instant option"
  cl_IssuedAt :: "instant option"
  cl_ID :: string

record token_pair =
  tp_AccessToken :: string
  tp_RefreshToken :: string
  tp_ExpiresAt :: instant

record jwt_manager =
  jm_secret :: string
  jm_issuer :: string
  jm_audience :: string
  jm_accessTTL :: int
  jm_refreshTTL :: int

definition NewJWTManager :: "string \<Rightarrow> string \<Rightarrow> string \<Rightarrow> int \<Rightarrow> int \<Rightarrow> jwt_manager" where
  "NewJWTManager secret issuer audience accessTTL refreshTTL =
     \<lparr>jm_secret = secret, jm_issuer = issuer, jm_audience = audience,
      jm_accessTTL = accessTTL, jm_refreshTTL = refreshTTL\<rparr>"

text \<open>
  The calls to the JWT library: signing with HS256, \<open>NewNumericDate\<close>, and \<open>ParseWithClaims\<close>,
  given the parser options (accepted methods, required issuer and audience), the key, the
  instant at which the library reads the clock and the token; it returns the claims with
  \<open>token.Valid\<close>.
\<close>

record jwt_parser =
  jp_methods :: "string list"
  jp_issuer :: "string option"
  jp_audience :: "string option"

record jwt_lib =
  jl_sign :: "claims \<Rightarrow> string \<Rightarrow> go_error + string"
  jl_numericDate :: "instant \<Rightarrow> instant"
  jl_parse :: "jwt_parser \<Rightarrow> string \<Rightarrow> instant \<Rightarrow> string \<Rightarrow> go_error + claims \<times> bool"

definition jwt_sign :: "jwt_lib \<Rightarrow> jwt_manager \<Rightarrow> user \<Rightarrow> string \<Rightarrow> instant \<Rightarrow> string
    \<Rightarrow> ('p auth_world, go_error, string) call" where
  "jwt_sign lib m user tokenType expiresAt tokenID w =
     (case read_clock w of (now, w1) \<Rightarrow>
        let claims = \<lparr>cl_UserID = format_int (usr_ID user), cl_Email = usr_Email user, cl_Role = usr_Role user,
              cl_TokenType = tokenType, cl_Issuer = jm_issuer m, cl_Subject = format_int (usr_ID user),
              cl_Audience = [jm_audience m], cl_ExpiresAt = Some (jl_numericDate lib expiresAt),
              cl_NotBefore = Some (jl_numericDate lib now), cl_IssuedAt = Some (jl_numericDate lib now),
              cl_ID = tokenID\<rparr>
        in (case jl_sign lib claims (jm_secret m) of
              Inl err \<Rightarrow> (Inl (FmtWrap (''sign '' @ tokenType @ '' token: '' @ error_text err) err), w1)
            | Inr v \<Rightarrow> (Inr v, w1)))"

definition randomTokenID :: "entropy \<Rightarrow> (go_error + string) \<times> entropy" where
  "randomTokenID es = (case rand_read 16 es of
     (Inl err, es') \<Rightarrow> (Inl (FmtWrap (''create token ID: '' @ error_text err) err), es')
   | (Inr buffer, es') \<Rightarrow> (Inr (hex_encode buffer), es'))"

definition GenerateTokenPair :: "jwt_lib \<Rightarrow> jwt_manager \<Rightarrow> user \<Rightarrow> ('p auth_world, go_error, token_pair) call" where
  "GenerateTokenPair lib m user w =
     (case read_clock w of (now, w0) \<Rightarrow>
        let accessExpiry = now + jm_accessTTL m; refreshExpiry = now + jm_refreshTTL m
        in case jwt_sign lib m user AccessTokenType accessExpiry '''' w0 of
             (Inl err, w1) \<Rightarrow> (Inl err, w1)
           | (Inr access, w1) \<Rightarrow>
               (case on_entropy randomTokenID w1 of
                  (Inl err, w2) \<Rightarrow> (Inl err, w2)
                | (Inr refreshID, w2) \<Rightarrow>
                    (case jwt_sign lib m user RefreshTokenType refreshExpiry refreshID w2 of
                       (Inl err, w3) \<Rightarrow> (Inl err, w3)
                     | (Inr refresh, w3) \<Rightarrow>
                         (Inr \<lparr>tp_AccessToken = access, tp_RefreshToken = refresh, tp_ExpiresAt = accessExpiry\<rparr>, w3))))"

definition parser_options :: "jwt_manager \<Rightarrow> jwt_parser" where
  "parser_options m =
     \<lparr>jp_methods = [''HS256''], jp_issuer = (if jm_issuer m \<noteq> '''' then Some (jm_issuer m) else None),
      jp_audience = (if jm_audience m \<noteq> '''' then Some (jm_audience m) else None)\<rparr>"

definition check_claims :: "claims \<Rightarrow> string \<Rightarrow> go_error option" where
  \<comment> \<open>the program's own checks, after the library's\<close>
  "check_claims claims expected =
     (if cl_TokenType claims \<noteq> expected then Some (FmtError (''invalid token type: expected '' @ expected))
      else if cl_UserID claims = '''' then Some (FmtError ''token user ID is missing'')
      else if expected = RefreshTokenType \<and> cl_ID claims = '''' then Some (FmtError ''refresh token ID is missing'')
      else None)"

definition jwt_validate :: "jwt_lib \<Rightarrow> jwt_manager \<Rightarrow> string \<Rightarrow> string \<Rightarrow> ('p auth_world, go_error, claims) call" where
  "jwt_validate lib m v expected w =
     (case read_clock w of (now, w1) \<Rightarrow>
        (case jl_parse lib (parser_options m) (jm_secret m) now v of
           Inl err \<Rightarrow> (Inl (FmtWrap (''invalid token: '' @ error_text err) err), w1)
         | Inr (claims, valid) \<Rightarrow>
             if \<not> valid then (Inl (FmtError ''invalid token: %!w(<nil>)''), w1)
             else (case check_claims claims expected of Some err \<Rightarrow> (Inl err, w1) | None \<Rightarrow> (Inr claims, w1))))"

definition ValidateAccessToken :: "jwt_lib \<Rightarrow> jwt_manager \<Rightarrow> string \<Rightarrow> ('p auth_world, go_error, claims) call" where
  "ValidateAccessToken lib m v = jwt_validate lib m v AccessTokenType"

definition ValidateRefreshToken :: "jwt_lib \<Rightarrow> jwt_manager \<Rightarrow> string \<Rightarrow> ('p auth_world, go_error, claims) call" where
  "ValidateRefreshToken lib m v = jwt_validate lib m v RefreshTokenType"

definition ExtractBearerToken :: "string \<Rightarrow> string" where
  "ExtractBearerToken header =
     (if \<not> has_prefix header ''Bearer '' then ''''
      else let v = trim_space (drop (length ''Bearer '') header)
           in if v = '''' \<or> contains v '' '' then '''' else v)"

subsection \<open>password.go\<close>

record bcrypt_lib =
  bc_generate :: "string \<Rightarrow> entropy \<Rightarrow> (go_error + string) \<times> entropy"
  bc_compare :: "string \<Rightarrow> string \<Rightarrow> go_error option"

definition HashPassword :: "bcrypt_lib \<Rightarrow> string \<Rightarrow> ('p auth_world, go_error, string) call" where
  "HashPassword lib password = on_entropy (bc_generate lib password)"

definition VerifyPassword :: "bcrypt_lib \<Rightarrow> string \<Rightarrow> string \<Rightarrow> go_error option" where
  "VerifyPassword lib hash password = bc_compare lib hash password"

subsection \<open>Facts\<close>

lemma GenerateTokenPair_repository:
  "GenerateTokenPair lib m u w = (r, w') \<Longrightarrow> aw_repository w' = aw_repository w"
  by (auto simp: GenerateTokenPair_def jwt_sign_def Let_def split: prod.splits sum.splits dest!: on_entropy_repository)

lemma jwt_validate_repository: "jwt_validate lib m v ty w = (r, w') \<Longrightarrow> aw_repository w' = aw_repository w"
  by (auto simp: jwt_validate_def split: prod.splits sum.splits if_splits option.splits)

lemma HashPassword_repository: "HashPassword lib p w = (r, w') \<Longrightarrow> aw_repository w' = aw_repository w"
  by (auto simp: HashPassword_def dest: on_entropy_repository)

text \<open>A token's claims: what the library decodes from it, at whatever instant it is checked.\<close>

definition token_claims :: "jwt_lib \<Rightarrow> jwt_manager \<Rightarrow> string \<Rightarrow> claims \<Rightarrow> bool" where
  "token_claims lib m v c \<longleftrightarrow> (\<exists>now. jl_parse lib (parser_options m) (jm_secret m) now v = Inr (c, True))"

lemma jwt_validate_ok:
  assumes "jwt_validate lib m v ty w = (Inr c, w')"
  shows "token_claims lib m v c \<and> cl_TokenType c = ty \<and> cl_UserID c \<noteq> '''' \<and> (ty = RefreshTokenType \<longrightarrow> cl_ID c \<noteq> '''')"
  using assms by (auto simp: jwt_validate_def token_claims_def check_claims_def split: prod.splits sum.splits if_splits option.splits)

text \<open>The library decodes the payload of a token: its claims do not depend on the clock.\<close>

definition jwt_stable :: "jwt_lib \<Rightarrow> bool" where
  "jwt_stable lib \<longleftrightarrow> (\<forall>opts key now now' v c c'. jl_parse lib opts key now v = Inr (c, True) \<longrightarrow>
     jl_parse lib opts key now' v = Inr (c', True) \<longrightarrow> c' = c)"

lemma token_claims_unique:
  "jwt_stable lib \<Longrightarrow> token_claims lib m v c \<Longrightarrow> token_claims lib m v c' \<Longrightarrow> c' = c"
  unfolding jwt_stable_def token_claims_def by blast

text \<open>A signed token that parses has the claims that were signed.\<close>

definition jwt_roundtrip :: "jwt_lib \<Rightarrow> bool" where
  "jwt_roundtrip lib \<longleftrightarrow> (\<forall>c key v opts key' now c'. jl_sign lib c key = Inr v \<longrightarrow>
     jl_parse lib opts key' now v = Inr (c', True) \<longrightarrow> c' = c)"

lemma jwt_sign_type:
  assumes "jwt_roundtrip lib" "jwt_sign lib m u ty exp tid w = (Inr v, w1)" "token_claims lib m' v c"
  shows "cl_TokenType c = ty \<and> cl_UserID c = format_int (usr_ID u) \<and> cl_ID c = tid \<and>
    cl_ExpiresAt c = Some (jl_numericDate lib exp)"
  using assms unfolding jwt_roundtrip_def token_claims_def
  by (fastforce simp: jwt_sign_def Let_def split: prod.splits sum.splits)

text \<open>What the tokens of a generated pair say.\<close>

lemma GenerateTokenPair_claims:
  assumes "jwt_roundtrip lib" "GenerateTokenPair lib m u w = (Inr pair, w')"
  obtains tid es es' where "randomTokenID es = (Inr tid, es')"
    "\<And>m' c. token_claims lib m' (tp_AccessToken pair) c \<Longrightarrow> cl_TokenType c = AccessTokenType \<and> cl_UserID c = format_int (usr_ID u)"
    "\<And>m' c. token_claims lib m' (tp_RefreshToken pair) c \<Longrightarrow>
       cl_TokenType c = RefreshTokenType \<and> cl_UserID c = format_int (usr_ID u) \<and> cl_ID c = tid"
proof -
  obtain now w0 access w1 tid w2 refresh w3 where
    "read_clock w = (now, w0)" and a: "jwt_sign lib m u AccessTokenType (now + jm_accessTTL m) '''' w0 = (Inr access, w1)"
    and i: "on_entropy randomTokenID w1 = (Inr tid, w2)"
    and r: "jwt_sign lib m u RefreshTokenType (now + jm_refreshTTL m) tid w2 = (Inr refresh, w3)"
    and p: "tp_AccessToken pair = access" "tp_RefreshToken pair = refresh"
    using assms(2)
    by (auto simp: GenerateTokenPair_def Let_def split: prod.splits sum.splits)
  from i obtain es' where "randomTokenID (aw_random w1) = (Inr tid, es')" by (auto simp: on_entropy_def split: prod.splits)
  with jwt_sign_type [OF assms(1) a] jwt_sign_type [OF assms(1) r] p show ?thesis by (intro that) auto
qed

lemma randomTokenID_length: "randomTokenID es = (Inr tid, es') \<Longrightarrow> length tid = 32 \<and> list_all is_hex tid"
  using hex_encode_is_hex
  by (auto simp: randomTokenID_def rand_read_def length_hex_encode list_all_iff split: list.splits sum.splits prod.splits)

text \<open>An extracted bearer token is not empty and has no blank.\<close>

lemma ExtractBearerToken_plain:
  "ExtractBearerToken header \<noteq> '''' \<Longrightarrow> has_prefix header ''Bearer '' \<and> \<not> contains (ExtractBearerToken header) '' ''"
  by (auto simp: ExtractBearerToken_def Let_def split: if_splits)

end
