(* ===== verification/Request_Validator.thy ===== *)
theory Request_Validator
  imports Postgres
begin

text \<open>
  Package \<open>pkg/validator\<close>. \<open>mail.ParseAddress\<close> of the standard library is modelled as far as the
  program can tell: \<open>Email\<close> accepts an address only when the parsed one equals its input, and
  that excludes display names, comments, groups, quoted local parts and blanks, whose parse is
  always shorter than the input. What remains is a dot-atom, an \<open>@\<close>, and a dot-atom or an IP
  literal in brackets; \<open>net.ParseIP\<close> of the literal is the parameter \<open>is_ip\<close>.
\<close>

definition is_atext :: "char \<Rightarrow> bool" where
  \<comment> \<open>a byte of an atom: visible ASCII that is not special, a dot, or part of a longer rune\<close>
  "is_atext c \<longleftrightarrow> (let n = (of_char c :: nat) in 33 \<le> n \<and> n \<noteq> 127 \<and> c \<notin> set ''()<>[]:;@,'' \<and> n \<noteq> 92 \<and> n \<noteq> 34)"

definition dot_atom :: "string \<Rightarrow> bool" where
  "dot_atom s \<longleftrightarrow> s \<noteq> '''' \<and> list_all is_atext s \<and> utf8_valid s \<and>
     hd s \<noteq> CHR ''.'' \<and> last s \<noteq> CHR ''.'' \<and> \<not> contains s ''..''"

definition domain_literal :: "(string \<Rightarrow> bool) \<Rightarrow> string \<Rightarrow> bool" where
  "domain_literal is_ip s \<longleftrightarrow> 2 \<le> length s \<and> hd s = CHR ''['' \<and> last s = CHR '']'' \<and> is_ip (butlast (tl s))"

definition plain_address :: "(string \<Rightarrow> bool) \<Rightarrow> string \<Rightarrow> bool" where
  \<comment> \<open>\<open>ParseAddress\<close> succeeds and its \<open>Address\<close> is the input\<close>
  "plain_address is_ip s \<longleftrightarrow>
     (let mailbox = takeWhile (\<lambda>c. c \<noteq> CHR ''@'') s; rest = dropWhile (\<lambda>c. c \<noteq> CHR ''@'') s
      in rest \<noteq> '''' \<and> dot_atom mailbox \<and> (dot_atom (tl rest) \<or> domain_literal is_ip (tl rest)))"

definition valid_Email :: "(string \<Rightarrow> string) \<Rightarrow> (string \<Rightarrow> bool) \<Rightarrow> string \<Rightarrow> go_error + string" where
  "valid_Email unicode_lower is_ip v =
     (let normalized = to_lower unicode_lower (trim_space v)
      in if \<not> plain_address is_ip normalized then Inl (FmtError ''invalid email address'') else Inr normalized)"

definition valid_Pagination :: "string \<Rightarrow> string \<Rightarrow> int \<Rightarrow> int \<Rightarrow> go_error + int \<times> int" where
  "valid_Pagination pageValue pageSizeValue defaultSize maxSize =
     (let page = (if pageValue = '''' then Inr 1 else parse_int pageValue);
          pageSize = (if pageSizeValue = '''' then Inr defaultSize else parse_int pageSizeValue)
      in if pageValue \<noteq> '''' \<and> (case page of Inl _ \<Rightarrow> True | Inr p \<Rightarrow> p < 1)
         then Inl (FmtError ''page must be a positive integer'')
         else if pageSizeValue \<noteq> '''' \<and> (case pageSize of Inl _ \<Rightarrow> True | Inr s \<Rightarrow> s < 1 \<or> s > maxSize)
         then Inl (FmtError (''page_size must be between 1 and '' @ format_int maxSize))
         else (case (page, pageSize) of (Inr p, Inr s) \<Rightarrow> Inr (p, s) | _ \<Rightarrow> Inl (FmtError '''')))"

subsection \<open>Facts\<close>

lemma valid_Pagination_range:
  assumes "valid_Pagination p s defaultSize maxSize = Inr (page, pageSize)" "1 \<le> defaultSize" "defaultSize \<le> maxSize"
  shows "1 \<le> page \<and> 1 \<le> pageSize \<and> pageSize \<le> maxSize"
  using assms by (auto simp: valid_Pagination_def Let_def split: if_splits sum.splits)

text \<open>What a client writes as numbers is what it gets.\<close>

lemma valid_Pagination_format:
  assumes "1 \<le> p" "p < 2 ^ 63" "1 \<le> s" "s \<le> maxSize" "maxSize < 2 ^ 63"
  shows "valid_Pagination (format_int p) (format_int s) defaultSize maxSize = Inr (p, s)"
  using assms parse_int_format [of p] parse_int_format [of s]
  by (simp add: valid_Pagination_def in_int64_def)

text \<open>An accepted address has a single \<open>@\<close>, no blanks or control bytes, and is a lower-cased one.\<close>

lemma list_all_takeWhile_id: "list_all P (takeWhile P s)"
  by (induction s) auto

lemma valid_Email_normal:
  assumes "valid_Email ul is_ip v = Inr e"
  shows "e = to_lower ul (trim_space v) \<and> e \<noteq> [] \<and> plain_address is_ip e"
  using assms by (auto simp: valid_Email_def plain_address_def Let_def split: if_splits)

lemma ascii_lower_idem [simp]: "ascii_lower (ascii_lower c) = ascii_lower c"
  by (simp add: ascii_lower_def Let_def)

lemma plain_address_no_space:
  assumes "plain_address is_ip e" "\<not> domain_literal is_ip (tl (dropWhile (\<lambda>c. c \<noteq> CHR ''@'') e))"
  shows "\<exists>m d. e = m @ CHR ''@'' # d \<and> (\<forall>c \<in> set (m @ d). is_atext c)"
proof -
  let ?m = "takeWhile (\<lambda>c. c \<noteq> CHR ''@'') e" and ?r = "dropWhile (\<lambda>c. c \<noteq> CHR ''@'') e"
  from assms have m: "list_all is_atext ?m" "list_all is_atext (tl ?r)" and r: "?r \<noteq> []"
    unfolding plain_address_def dot_atom_def Let_def by blast+
  from r have "hd ?r = CHR ''@''" by (metis (mono_tags, lifting) hd_dropWhile)
  then have "?r = CHR ''@'' # tl ?r" using r by (metis list.collapse)
  then have "e = ?m @ CHR ''@'' # tl ?r" by (metis takeWhile_dropWhile_id)
  with m show ?thesis by (auto simp: list_all_iff)
qed

end
