(* ===== verification/Auth_Service.thy ===== *)
theory Auth_Service
  imports Auth_Contract Jwt_Manager Request_Validator
begin

text \<open>
  \<open>internal/service/auth_service.go\<close>: registration, login, the rotation of refresh tokens and
  logout, over the repository port and the token manager. The third-party libraries and the
  parts of the standard library that are parameters come in one record.
\<close>

record auth_libs =
  al_jwt :: jwt_lib
  al_bcrypt :: bcrypt_lib
  al_sha256 :: "bytes \<Rightarrow> bytes"
  al_unicode_lower :: "string \<Rightarrow> string"
  al_is_ip :: "string \<Rightarrow> bool"

record register_input =
  ri_Email :: string
  ri_Password :: string

record login_input =
  li_Email :: string
  li_Password :: string

record auth_result =
  ars_User :: user
  ars_Tokens :: token_pair

record 'p auth_service =
  as_repository :: "'p auth_repository"
  as_jwt :: jwt_manager

definition NewAuthService :: "'p auth_repository \<Rightarrow> jwt_manager \<Rightarrow> 'p auth_service" where
  "NewAuthService repository jwtManager = \<lparr>as_repository = repository, as_jwt = jwtManager\<rparr>"

definition HashRefreshToken :: "auth_libs \<Rightarrow> string \<Rightarrow> string" where
  "HashRefreshToken L token = hex_encode (al_sha256 L token)"

definition publicUser :: "user \<Rightarrow> user" where
  "publicUser u = u\<lparr>usr_PasswordHash := ''''\<rparr>"

text \<open>The panic of a nil pointer, which the HTTP server's recovery turns into an error answer.\<close>

definition nil_dereference :: go_error where
  "nil_dereference = Sentinel ''panic'' ''runtime error: invalid memory address or nil pointer dereference''"

definition newSession :: "auth_libs \<Rightarrow> 'p auth_service \<Rightarrow> user
    \<Rightarrow> ('p auth_world, go_error, token_pair \<times> refresh_session) call" where
  "newSession L s u w =
     (case GenerateTokenPair (al_jwt L) (as_jwt s) u w of
        (Inl err, w1) \<Rightarrow> (Inl err, w1)
      | (Inr pair, w1) \<Rightarrow>
          (case ValidateRefreshToken (al_jwt L) (as_jwt s) (tp_RefreshToken pair) w1 of
             (Inl err, w2) \<Rightarrow> (Inl err, w2)
           | (Inr claims, w2) \<Rightarrow>
               (case cl_ExpiresAt claims of
                  None \<Rightarrow> (Inl nil_dereference, w2)
                | Some expiry \<Rightarrow>
                    (Inr (pair, \<lparr>ses_ID = 0, ses_UserID = usr_ID u, ses_TokenID = cl_ID claims,
                       ses_TokenHash = HashRefreshToken L (tp_RefreshToken pair), ses_ExpiresAt = expiry,
                       ses_RevokedAt = None, ses_ReplacedByTokenID = None, ses_CreatedAt = 0\<rparr>), w2))))"

definition issueAndPersist :: "auth_libs \<Rightarrow> 'p auth_service \<Rightarrow> user \<Rightarrow> ('p auth_world, go_error, auth_result) call" where
  "issueAndPersist L s u w =
     (case newSession L s u w of
        (Inl err, w1) \<Rightarrow> (Inl err, w1)
      | (Inr (pair, session), w1) \<Rightarrow>
          (case on_users (ar_CreateRefreshSession (as_repository s) session) w1 of
             (Inl err, w2) \<Rightarrow> (Inl (FmtWrap (''persist refresh session: '' @ error_text err) err), w2)
           | (Inr _, w2) \<Rightarrow> (Inr \<lparr>ars_User = publicUser u, ars_Tokens = pair\<rparr>, w2)))"

definition as_Register :: "auth_libs \<Rightarrow> 'p auth_service \<Rightarrow> register_input \<Rightarrow> ('p auth_world, go_error, auth_result) call" where
  "as_Register L s input w =
     (case valid_Email (al_unicode_lower L) (al_is_ip L) (ri_Email input) of
        Inl err \<Rightarrow> (Inl (WithMessage ErrAuthInvalidRequest (error_text err)), w)
      | Inr email \<Rightarrow>
          if length (ri_Password input) < 8
          then (Inl (WithMessage ErrAuthInvalidRequest ''password must contain at least 8 characters''), w)
          else (case HashPassword (al_bcrypt L) (ri_Password input) w of
                  (Inl err, w1) \<Rightarrow> (Inl (FmtWrap (''hash password: '' @ error_text err) err), w1)
                | (Inr hash, w1) \<Rightarrow>
                    (case on_users (ar_CreateUser (as_repository s) email hash RoleUser) w1 of
                       (Inl err, w2) \<Rightarrow> (Inl err, w2)
                     | (Inr user, w2) \<Rightarrow> issueAndPersist L s user w2)))"

definition as_Login :: "auth_libs \<Rightarrow> 'p auth_service \<Rightarrow> login_input \<Rightarrow> ('p auth_world, go_error, auth_result) call" where
  "as_Login L s input w =
     (case valid_Email (al_unicode_lower L) (al_is_ip L) (li_Email input) of
        Inl err \<Rightarrow> (Inl ErrAuthInvalidCredentials, w)
      | Inr email \<Rightarrow>
          (case on_users (ar_GetUserByEmail (as_repository s) email) w of
             (Inl err, w1) \<Rightarrow> (Inl (if errors_is err ErrAuthUserNotFound then ErrAuthInvalidCredentials else err), w1)
           | (Inr user, w1) \<Rightarrow>
               if \<not> usr_IsActive user \<or> usr_DeletedAt user \<noteq> None \<or>
                  VerifyPassword (al_bcrypt L) (usr_PasswordHash user) (li_Password input) \<noteq> None
               then (Inl ErrAuthInvalidCredentials, w1)
               else issueAndPersist L s user w1))"

definition rotate_session :: "auth_libs \<Rightarrow> 'p auth_service \<Rightarrow> string \<Rightarrow> user \<Rightarrow> ('p auth_world, go_error, auth_result) call" where
  \<comment> \<open>the end of \<open>Refresh\<close>, from the checked user on\<close>
  "rotate_session L s tokenID user w =
     (if \<not> usr_IsActive user \<or> usr_DeletedAt user \<noteq> None then (Inl ErrAuthInvalidRefresh, w)
      else case newSession L s user w of
        (Inl err, w1) \<Rightarrow> (Inl err, w1)
      | (Inr (pair, replacement), w1) \<Rightarrow>
          (case on_users (ar_RotateRefreshSession (as_repository s) tokenID replacement) w1 of
             (Inl err, w2) \<Rightarrow> (Inl err, w2)
           | (Inr _, w2) \<Rightarrow> (Inr \<lparr>ars_User = publicUser user, ars_Tokens = pair\<rparr>, w2)))"

definition session_usable :: "auth_libs \<Rightarrow> string \<Rightarrow> refresh_session \<Rightarrow> 'p auth_world \<Rightarrow> bool \<times> 'p auth_world" where
  \<comment> \<open>the clock is read only when the hash matches and the session is not revoked\<close>
  "session_usable L token session w =
     (if ses_TokenHash session \<noteq> HashRefreshToken L token \<or> ses_RevokedAt session \<noteq> None then (False, w)
      else case read_clock w of (now, w1) \<Rightarrow> (now < ses_ExpiresAt session, w1))"

definition as_Refresh :: "auth_libs \<Rightarrow> 'p auth_service \<Rightarrow> string \<Rightarrow> ('p auth_world, go_error, auth_result) call" where
  "as_Refresh L s token w =
     (case ValidateRefreshToken (al_jwt L) (as_jwt s) (trim_space token) w of
        (Inl err, w1) \<Rightarrow> (Inl ErrAuthInvalidRefresh, w1)
      | (Inr claims, w1) \<Rightarrow>
          (case on_users (ar_GetRefreshSessionByTokenID (as_repository s) (cl_ID claims)) w1 of
             (Inl err, w2) \<Rightarrow>
               (Inl (if errors_is err ErrAuthInvalidRefresh \<or> errors_is err ErrAuthUserNotFound
                     then ErrAuthInvalidRefresh else err), w2)
           | (Inr session, w2) \<Rightarrow>
               (case session_usable L token session w2 of (usable, w3) \<Rightarrow>
                  if \<not> usable then (Inl ErrAuthInvalidRefresh, w3)
                  else (case on_users (ar_GetUserByID (as_repository s) (ses_UserID session)) w3 of
                          (Inl err, w4) \<Rightarrow>
                            (Inl (if errors_is err ErrAuthUserNotFound then ErrAuthInvalidRefresh else err), w4)
                        | (Inr user, w4) \<Rightarrow> rotate_session L s (cl_ID claims) user w4))))"

definition as_Logout :: "auth_libs \<Rightarrow> 'p auth_service \<Rightarrow> string \<Rightarrow> ('p auth_world, go_error, unit) call" where
  "as_Logout L s token w =
     (case ValidateRefreshToken (al_jwt L) (as_jwt s) (trim_space token) w of
        (Inl err, w1) \<Rightarrow> (Inl ErrAuthInvalidRefresh, w1)
      | (Inr claims, w1) \<Rightarrow> on_users (ar_RevokeRefreshSession (as_repository s) (cl_ID claims)) w1)"

definition as_Me :: "'p auth_service \<Rightarrow> int \<Rightarrow> ('p auth_world, go_error, user) call" where
  "as_Me s userID w =
     (case on_users (ar_GetUserByID (as_repository s) userID) w of
        (Inl err, w1) \<Rightarrow> (Inl err, w1)
      | (Inr user, w1) \<Rightarrow> (Inr (publicUser user), w1))"

subsection \<open>New sessions\<close>

lemma on_users_Pair: "on_users f w = (r, w') \<longleftrightarrow> (\<exists>p. f (aw_repository w) = (r, p) \<and> w' = w\<lparr>aw_repository := p\<rparr>)"
  by (auto simp: on_users_def split: prod.splits)

lemma newSession_repository: "newSession L s u w = (r, w') \<Longrightarrow> aw_repository w' = aw_repository w"
  by (auto simp: newSession_def ValidateRefreshToken_def split: prod.splits sum.splits option.splits
      dest!: GenerateTokenPair_repository jwt_validate_repository)

lemma newSession_ok:
  assumes "newSession L s u w = (Inr (pair, session), w')"
  shows "ses_UserID session = usr_ID u \<and> ses_TokenHash session = HashRefreshToken L (tp_RefreshToken pair) \<and>
    (\<exists>c. token_claims (al_jwt L) (as_jwt s) (tp_RefreshToken pair) c \<and> cl_TokenType c = RefreshTokenType \<and>
       ses_TokenID session = cl_ID c \<and> cl_ExpiresAt c = Some (ses_ExpiresAt session))"
  using assms
  by (auto simp: newSession_def ValidateRefreshToken_def split: prod.splits sum.splits option.splits
      dest!: jwt_validate_ok)

lemma session_usable_repository: "session_usable L token ss w = (b, w') \<Longrightarrow> aw_repository w' = aw_repository w"
  by (auto simp: session_usable_def split: prod.splits if_splits)

lemma session_usable_True:
  "session_usable L token ss w = (True, w') \<Longrightarrow> ses_TokenHash ss = HashRefreshToken L token \<and> ses_RevokedAt ss = None"
  by (auto simp: session_usable_def split: if_splits)

text \<open>What one operation may do to the sessions.\<close>

definition session_step :: "session_map \<Rightarrow> session_map \<Rightarrow> bool" where
  "session_step m m' \<longleftrightarrow> m' = m \<or> (\<exists>ss. session_created ss m m') \<or> (\<exists>old ss. session_rotated old ss m m') \<or>
     (\<exists>tid. session_revoked tid m m')"

lemma session_step_refl [simp]: "session_step m m"
  by (simp add: session_step_def)

lemma spent_step: "session_step m m' \<Longrightarrow> spent m tid \<Longrightarrow> spent m' tid"
  unfolding session_step_def using spent_created spent_rotated spent_revoked by blast

text \<open>A session made for a user, with the tokens handed out for it.\<close>

definition issued :: "auth_libs \<Rightarrow> 'p auth_service \<Rightarrow> auth_result \<Rightarrow> user \<Rightarrow> refresh_session \<Rightarrow> bool" where
  "issued L s res u ss \<longleftrightarrow> ars_User res = publicUser u \<and> ses_UserID ss = usr_ID u \<and>
     ses_TokenHash ss = HashRefreshToken L (tp_RefreshToken (ars_Tokens res)) \<and>
     (\<exists>c. token_claims (al_jwt L) (as_jwt s) (tp_RefreshToken (ars_Tokens res)) c \<and>
        cl_TokenType c = RefreshTokenType \<and> ses_TokenID ss = cl_ID c)"

definition usable_user :: "user \<Rightarrow> bool" where
  "usable_user u \<longleftrightarrow> usr_IsActive u \<and> usr_DeletedAt u = None"

locale auth_ports =
  store: auth_store "as_repository s" users sessions same_email inv
  for s :: "'p auth_service" and users sessions same_email inv
begin

abbreviation "Users w \<equiv> users (aw_repository w)"
abbreviation "Sess w \<equiv> sessions (aw_repository w)"
abbreviation "Ok w \<equiv> inv (aw_repository w)"

lemma issue_ok:
  assumes "Ok w" "issueAndPersist L s u w = (r, w')"
  shows "Ok w' \<and> Users w' = Users w \<and>
    (case r of Inl e \<Rightarrow> Sess w' = Sess w \<or> (\<exists>ss. session_created ss (Sess w) (Sess w'))
     | Inr res \<Rightarrow> \<exists>ss. issued L s res u ss \<and> session_created ss (Sess w) (Sess w'))"
proof -
  obtain x w1 where n: "newSession L s u w = (x, w1)" by fastforce
  note rw = newSession_repository [OF n]
  show ?thesis
  proof (cases x)
    case (Inl e)
    with assms n rw show ?thesis by (auto simp: issueAndPersist_def)
  next
    case (Inr ps)
    obtain pair ss where ps: "ps = (pair, ss)" by fastforce
    obtain y p where c: "ar_CreateRefreshSession (as_repository s) ss (aw_repository w) = (y, p)" by fastforce
    have i: "inv (aw_repository w)" using assms(1) .
    from assms(2) n Inr ps c rw have w': "aw_repository w' = p" "isl r = isl y"
      "\<And>u'. y = Inr u' \<Longrightarrow> r = Inr \<lparr>ars_User = publicUser u, ars_Tokens = pair\<rparr>"
      by (auto simp: issueAndPersist_def on_users_def split: sum.splits)
    show ?thesis
    proof (cases y)
      case Inl
      with store.new_session_err [OF i, of ss _ p] c w' show ?thesis by (cases r) auto
    next
      case (Inr un)
      from newSession_ok [of L s u w pair ss w1] n \<open>x = Inr ps\<close> ps
      have "issued L s \<lparr>ars_User = publicUser u, ars_Tokens = pair\<rparr> u ss" by (auto simp: issued_def)
      with store.new_session_ok [OF i, of ss p] c w' Inr show ?thesis by auto
    qed
  qed
qed

lemma register_ok:
  assumes "Ok w" "as_Register L s input w = (r, w')"
  shows "Ok w' \<and> session_step (Sess w) (Sess w') \<and>
    (case r of Inl e \<Rightarrow> Users w' = Users w \<or> (\<exists>email hash u. user_created same_email email hash RoleUser u (Users w) (Users w'))
     | Inr res \<Rightarrow> \<exists>email hash es es' u ss. valid_Email (al_unicode_lower L) (al_is_ip L) (ri_Email input) = Inr email \<and>
         8 \<le> length (ri_Password input) \<and> bc_generate (al_bcrypt L) (ri_Password input) es = (Inr hash, es') \<and>
         user_created same_email email hash RoleUser u (Users w) (Users w') \<and>
         issued L s res u ss \<and> session_created ss (Sess w) (Sess w'))"
proof (cases "\<exists>email. valid_Email (al_unicode_lower L) (al_is_ip L) (ri_Email input) = Inr email \<and> 8 \<le> length (ri_Password input)")
  case False
  with assms show ?thesis by (auto simp: as_Register_def split: sum.splits if_splits)
next
  case True
  then obtain email where em: "valid_Email (al_unicode_lower L) (al_is_ip L) (ri_Email input) = Inr email"
    and pw: "8 \<le> length (ri_Password input)" by blast
  obtain h w1 where h: "HashPassword (al_bcrypt L) (ri_Password input) w = (h, w1)" by fastforce
  note rw = HashPassword_repository [OF h]
  show ?thesis
  proof (cases h)
    case (Inl e)
    with assms em pw h rw show ?thesis by (auto simp: as_Register_def)
  next
    case (Inr hash)
    obtain es es' where g: "bc_generate (al_bcrypt L) (ri_Password input) es = (Inr hash, es')"
      using h Inr by (auto simp: HashPassword_def on_entropy_def split: prod.splits)
    obtain x p where c: "ar_CreateUser (as_repository s) email hash RoleUser (aw_repository w) = (x, p)" by fastforce
    let ?w2 = "w1\<lparr>aw_repository := p\<rparr>"
    have cu: "on_users (ar_CreateUser (as_repository s) email hash RoleUser) w1 = (x, ?w2)" using c rw by (simp add: on_users_def)
    show ?thesis
    proof (cases x)
      case (Inl e)
      with assms em pw h cu \<open>h = Inr hash\<close> store.create_user_err [OF assms(1), of email hash RoleUser e p] c show ?thesis
        by (auto simp: as_Register_def)
    next
      case (Inr u)
      from store.create_user_ok [OF assms(1), of email hash RoleUser u p] c Inr have p: "Ok ?w2" "Sess ?w2 = Sess w"
        "user_created same_email email hash RoleUser u (Users w) (Users ?w2)" by auto
      from assms(2) em pw h \<open>h = Inr hash\<close> cu Inr have "issueAndPersist L s u ?w2 = (r, w')" by (simp add: as_Register_def)
      from issue_ok [OF p(1) this] p em pw g show ?thesis
        by (cases r) (auto simp: session_step_def)
    qed
  qed
qed

text \<open>A login is that of a live, active user with a matching address and password.\<close>

lemma login_ok:
  assumes "Ok w" "as_Login L s input w = (r, w')"
  shows "Ok w' \<and> Users w' = Users w \<and> session_step (Sess w) (Sess w') \<and>
    (case r of Inl e \<Rightarrow> True
     | Inr res \<Rightarrow> \<exists>email u ss. valid_Email (al_unicode_lower L) (al_is_ip L) (li_Email input) = Inr email \<and>
         Users w (usr_ID u) = Some u \<and> same_email (usr_Email u) email \<and> usable_user u \<and>
         bc_compare (al_bcrypt L) (usr_PasswordHash u) (li_Password input) = None \<and>
         issued L s res u ss \<and> session_created ss (Sess w) (Sess w'))"
proof (cases "valid_Email (al_unicode_lower L) (al_is_ip L) (li_Email input)")
  case (Inl e)
  with assms show ?thesis by (auto simp: as_Login_def)
next
  case (Inr email)
  obtain x p where c: "ar_GetUserByEmail (as_repository s) email (aw_repository w) = (x, p)" by fastforce
  let ?w1 = "w\<lparr>aw_repository := p\<rparr>"
  have f: "Ok ?w1" "Users ?w1 = Users w" "Sess ?w1 = Sess w"
    using c store.by_email_ok [OF assms(1), of email _ p] store.by_email_err [OF assms(1), of email _ p] by (cases x; auto)+
  show ?thesis
  proof (cases "\<exists>u. x = Inr u \<and> usable_user u \<and> bc_compare (al_bcrypt L) (usr_PasswordHash u) (li_Password input) = None")
    case False
    with assms(2) Inr c f show ?thesis
      by (cases x) (auto simp: as_Login_def on_users_def usable_user_def VerifyPassword_def split: if_splits)
  next
    case True
    then obtain u where u: "x = Inr u" "usable_user u" "bc_compare (al_bcrypt L) (usr_PasswordHash u) (li_Password input) = None" by blast
    with assms(2) Inr c have "issueAndPersist L s u ?w1 = (r, w')"
      by (simp add: as_Login_def on_users_def usable_user_def VerifyPassword_def)
    from issue_ok [OF f(1) this] f u c store.by_email_ok [OF assms(1), of email u p] Inr show ?thesis
      by (cases r) (auto simp: session_step_def)
  qed
qed

text \<open>A refresh consumes the session of its token, which it leaves spent.\<close>

lemma rotate_session_ok:
  assumes "Ok w" "rotate_session L s tid u w = (r, w')"
  shows "Ok w' \<and> Users w' = Users w \<and>
    (case r of Inl e \<Rightarrow> session_step (Sess w) (Sess w')
     | Inr res \<Rightarrow> usable_user u \<and> (\<exists>ss. issued L s res u ss \<and> session_rotated tid ss (Sess w) (Sess w')))"
proof (cases "usable_user u")
  case False
  with assms show ?thesis by (auto simp: rotate_session_def usable_user_def)
next
  case True
  obtain x w1 where n: "newSession L s u w = (x, w1)" by fastforce
  note rw = newSession_repository [OF n]
  show ?thesis
  proof (cases x)
    case (Inl e)
    with assms n rw True show ?thesis by (auto simp: rotate_session_def usable_user_def)
  next
    case (Inr ps)
    obtain pair ss where ps: "ps = (pair, ss)" by fastforce
    obtain y p where c: "ar_RotateRefreshSession (as_repository s) tid ss (aw_repository w) = (y, p)" by fastforce
    from assms(2) n Inr ps c rw True have w': "aw_repository w' = p" "isl r = isl y"
      "\<And>u'. y = Inr u' \<Longrightarrow> r = Inr \<lparr>ars_User = publicUser u, ars_Tokens = pair\<rparr>"
      by (auto simp: rotate_session_def on_users_def usable_user_def split: sum.splits)
    show ?thesis
    proof (cases y)
      case (Inl e)
      with store.rotate_err [OF assms(1), of tid ss e p] c w' show ?thesis by (cases r) (auto simp: session_step_def)
    next
      case (Inr un)
      from newSession_ok [of L s u w pair ss w1] n \<open>x = Inr ps\<close> ps
      have "issued L s \<lparr>ars_User = publicUser u, ars_Tokens = pair\<rparr> u ss" by (auto simp: issued_def)
      with store.rotate_ok [OF assms(1), of tid ss p] c w' Inr True show ?thesis by auto
    qed
  qed
qed

lemma refresh_ok:
  assumes "Ok w" "as_Refresh L s token w = (r, w')"
  shows "Ok w' \<and> Users w' = Users w \<and>
    (case r of Inl e \<Rightarrow> session_step (Sess w) (Sess w')
     | Inr res \<Rightarrow> \<exists>c so u ss. token_claims (al_jwt L) (as_jwt s) (trim_space token) c \<and> cl_TokenType c = RefreshTokenType \<and>
         Sess w (cl_ID c) = Some so \<and> ses_TokenHash so = HashRefreshToken L token \<and>
         Users w (ses_UserID so) = Some u \<and> usable_user u \<and>
         issued L s res u ss \<and> session_rotated (cl_ID c) ss (Sess w) (Sess w'))"
proof -
  obtain v w1 where v: "ValidateRefreshToken (al_jwt L) (as_jwt s) (trim_space token) w = (v, w1)" by fastforce
  have r1: "aw_repository w1 = aw_repository w" using v jwt_validate_repository by (simp add: ValidateRefreshToken_def)
  show ?thesis
  proof (cases v)
    case (Inl e)
    with assms v r1 show ?thesis by (auto simp: as_Refresh_def)
  next
    case (Inr c)
    from v Inr have tc: "token_claims (al_jwt L) (as_jwt s) (trim_space token) c" "cl_TokenType c = RefreshTokenType"
      by (auto simp: ValidateRefreshToken_def dest: jwt_validate_ok)
    obtain g p2 where g: "ar_GetRefreshSessionByTokenID (as_repository s) (cl_ID c) (aw_repository w) = (g, p2)" by fastforce
    let ?w2 = "w1\<lparr>aw_repository := p2\<rparr>"
    have f2: "Ok ?w2" "Users ?w2 = Users w" "Sess ?w2 = Sess w"
      using g store.get_session_ok [OF assms(1), of "cl_ID c" _ p2] store.get_session_err [OF assms(1), of "cl_ID c" _ p2]
      by (cases g; auto)+
    show ?thesis
    proof (cases g)
      case (Inl e)
      with assms(2) v \<open>v = Inr c\<close> r1 g f2 show ?thesis by (auto simp: as_Refresh_def on_users_def)
    next
      case (Inr so)
      obtain b w3 where b: "session_usable L token so ?w2 = (b, w3)" by fastforce
      note r3 = session_usable_repository [OF b]
      show ?thesis
      proof (cases b)
        case False
        with assms(2) v \<open>v = Inr c\<close> r1 g Inr b r3 f2 show ?thesis by (auto simp: as_Refresh_def on_users_def)
      next
        case True
        obtain x p4 where x: "ar_GetUserByID (as_repository s) (ses_UserID so) (aw_repository ?w2) = (x, p4)" by fastforce
        let ?w4 = "w3\<lparr>aw_repository := p4\<rparr>"
        have f4: "Ok ?w4" "Users ?w4 = Users w" "Sess ?w4 = Sess w"
          using x f2 store.by_id_ok [OF f2(1), of "ses_UserID so" _ p4] store.by_id_err [OF f2(1), of "ses_UserID so" _ p4]
          by (cases x; auto)+
        show ?thesis
        proof (cases x)
          case (Inl e)
          with assms(2) v \<open>v = Inr c\<close> r1 g Inr b r3 True x f4 \<open>g = Inr so\<close> show ?thesis by (auto simp: as_Refresh_def on_users_def)
        next
          case u: (Inr u)
          have rs: "rotate_session L s (cl_ID c) u ?w4 = (r, w')"
            using assms(2) v \<open>v = Inr c\<close> r1 g \<open>g = Inr so\<close> b r3 True x u by (simp add: as_Refresh_def on_users_def)
          have su: "Sess w (cl_ID c) = Some so" "Users w (ses_UserID so) = Some u" "ses_TokenHash so = HashRefreshToken L token"
            using g Inr store.get_session_ok [OF assms(1), of "cl_ID c" so p2] x u f2
              store.by_id_ok [OF f2(1), of "ses_UserID so" u p4] b True session_usable_True [of L token so ?w2 w3] by auto
          from rotate_session_ok [OF f4(1) rs] f4 tc su show ?thesis by (cases r) auto
        qed
      qed
    qed
  qed
qed

lemma logout_ok:
  assumes "Ok w" "as_Logout L s token w = (r, w')"
  shows "Ok w' \<and> Users w' = Users w \<and> session_step (Sess w) (Sess w') \<and>
    (r = Inr () \<longrightarrow> (\<exists>c. token_claims (al_jwt L) (as_jwt s) (trim_space token) c \<and> session_revoked (cl_ID c) (Sess w) (Sess w')))"
proof -
  obtain v w1 where v: "ValidateRefreshToken (al_jwt L) (as_jwt s) (trim_space token) w = (v, w1)" by fastforce
  have r1: "aw_repository w1 = aw_repository w" using v jwt_validate_repository by (simp add: ValidateRefreshToken_def)
  show ?thesis
  proof (cases v)
    case (Inl e)
    with assms v r1 show ?thesis by (auto simp: as_Logout_def)
  next
    case (Inr c)
    from v Inr have tc: "token_claims (al_jwt L) (as_jwt s) (trim_space token) c"
      by (auto simp: ValidateRefreshToken_def dest: jwt_validate_ok)
    obtain x p where x: "ar_RevokeRefreshSession (as_repository s) (cl_ID c) (aw_repository w) = (x, p)" by fastforce
    from assms(2) v Inr r1 x have "r = x" "aw_repository w' = p" by (auto simp: as_Logout_def on_users_def)
    with x tc store.revoke_ok [OF assms(1), of "cl_ID c" p] store.revoke_err [OF assms(1), of "cl_ID c" _ p] show ?thesis
      by (cases r) (auto simp: session_step_def)
  qed
qed

lemma me_ok:
  assumes "Ok w" "as_Me s uid w = (r, w')"
  shows "Ok w' \<and> Users w' = Users w \<and> Sess w' = Sess w \<and>
    (case r of Inl e \<Rightarrow> True | Inr v \<Rightarrow> \<exists>u. Users w uid = Some u \<and> v = publicUser u)"
proof -
  obtain x p where x: "ar_GetUserByID (as_repository s) uid (aw_repository w) = (x, p)" by fastforce
  with assms store.by_id_ok [OF assms(1), of uid _ p] store.by_id_err [OF assms(1), of uid _ p] show ?thesis
    by (cases x) (auto simp: as_Me_def on_users_def)
qed

text \<open>A spent token is refused.\<close>

lemma refresh_spent:
  assumes "Ok w" "jwt_stable (al_jwt L)" "token_claims (al_jwt L) (as_jwt s) (trim_space token) c" "spent (Sess w) (cl_ID c)"
    "as_Refresh L s token w = (r, w')"
  shows "isl r"
proof (cases r)
  case (Inr res)
  with refresh_ok [OF assms(1,5)] obtain c' ss where "token_claims (al_jwt L) (as_jwt s) (trim_space token) c'"
    "session_rotated (cl_ID c') ss (Sess w) (Sess w')" by auto
  moreover from this(1) assms(2,3) have "c' = c" by (blast dest: token_claims_unique)
  ultimately show ?thesis using assms(4) not_spent_rotated by blast
qed simp

end

end
