(* ===== verification/Auth_Steps.thy ===== *)
theory Auth_Steps
  imports Auth_Service
begin

text \<open>
  The authentication service over PostgreSQL as a transition system: its operations with any
  input, and anything the surroundings do (time passes, connections fail, entropy). No step
  brings a spent refresh token back.
\<close>

lemma auth_service_simps [simp]:
  "as_repository (NewAuthService r m) = r" "as_jwt (NewAuthService r m) = m"
  by (simp_all add: NewAuthService_def)

definition app_auth :: "(string \<Rightarrow> string) \<Rightarrow> jwt_manager \<Rightarrow> pg auth_service" where
  \<comment> \<open>the service \<open>Build\<close> makes\<close>
  "app_auth lower m = NewAuthService (pg_auth_repository lower) m"

lemma app_auth_simps [simp]: "as_repository (app_auth lower m) = pg_auth_repository lower" "as_jwt (app_auth lower m) = m"
  by (simp_all add: app_auth_def)

interpretation auth: auth_ports "app_auth lower m" pg_users pg_sessions "\<lambda>a b. lower a = lower b" "pg_auth_inv lower"
  for lower m
  by (intro auth_ports.intro) (simp add: pg_auth.auth_store_axioms)

abbreviation auth_ok :: "(string \<Rightarrow> string) \<Rightarrow> pg auth_world \<Rightarrow> bool" where
  "auth_ok lower w \<equiv> pg_auth_inv lower (aw_repository w)"

abbreviation accounts :: "pg auth_world \<Rightarrow> user_map" where
  "accounts w \<equiv> pg_users (aw_repository w)"

abbreviation sessions :: "pg auth_world \<Rightarrow> session_map" where
  "sessions w \<equiv> pg_sessions (aw_repository w)"

inductive auth_step :: "auth_libs \<Rightarrow> pg auth_service \<Rightarrow> pg auth_world \<Rightarrow> pg auth_world \<Rightarrow> bool" for L s where
  register: "as_Register L s ri w = (ra, w') \<Longrightarrow> auth_step L s w w'"
| login: "as_Login L s li w = (ra, w') \<Longrightarrow> auth_step L s w w'"
| refresh: "as_Refresh L s token w = (ra, w') \<Longrightarrow> auth_step L s w w'"
| logout: "as_Logout L s token w = (ru, w') \<Longrightarrow> auth_step L s w w'"
| me: "as_Me s uid w = (rm, w') \<Longrightarrow> auth_step L s w w'"
| environment: "auth_step L s w
    \<lparr>aw_repository = (aw_repository w)\<lparr>pg_now := n, pg_faults := fs\<rparr>, aw_random = es, aw_times = ts\<rparr>"

inductive_cases auth_stepE: "auth_step L s w w'"

lemma auth_step_ok:
  assumes "auth_step L (app_auth lower m) w w'" "auth_ok lower w"
  shows "auth_ok lower w' \<and> session_step (sessions w) (sessions w')"
  using assms(1)
proof cases
  case (register ri ra)
  from auth.register_ok [OF assms(2) this] show ?thesis by simp
next
  case (login li ra)
  from auth.login_ok [OF assms(2) this] show ?thesis by simp
next
  case (refresh token ra)
  from auth.refresh_ok [OF assms(2) this] show ?thesis
    by (cases ra) (auto simp: session_step_def)
next
  case (logout token ru)
  from auth.logout_ok [OF assms(2) this] show ?thesis by simp
next
  case (me uid rm)
  from auth.me_ok [OF assms(2) this] show ?thesis by simp
next
  case (environment n fs es ts)
  with assms(2) show ?thesis by (simp add: pg_view_defs)
qed

lemma auth_steps_ok:
  assumes "(auth_step L (app_auth lower m))\<^sup>*\<^sup>* w w'" "auth_ok lower w"
  shows "auth_ok lower w' \<and> (\<forall>tid. spent (sessions w) tid \<longrightarrow> spent (sessions w') tid)"
  using assms by (induction rule: rtranclp_induct) (use auth_step_ok spent_step in blast)+

text \<open>A token whose session is spent stays refused.\<close>

lemma spent_refused:
  assumes "(auth_step L (app_auth lower m))\<^sup>*\<^sup>* w w1" "auth_ok lower w" "jwt_stable (al_jwt L)"
    "token_claims (al_jwt L) m (trim_space token) c" "spent (sessions w) (cl_ID c)"
    "as_Refresh L (app_auth lower m) token w1 = (r, w2)"
  shows "\<exists>e. r = Inl e"
proof -
  from auth_steps_ok [OF assms(1,2)] assms(5) have "auth_ok lower w1" "spent (sessions w1) (cl_ID c)" by auto
  from auth.refresh_spent [OF this(1) assms(3) _ this(2) assms(6)] assms(4) show ?thesis by (cases r) auto
qed

subsection \<open>Concrete libraries and a concrete run\<close>

text \<open>
  Stand-ins for the third-party libraries that have the documented behaviour the hypotheses
  name: a token spells its type and id, and signing refuses claims it could not decode again.
\<close>

definition demo_claims :: "string \<Rightarrow> claims" where
  "demo_claims v =
     (let ty = takeWhile (\<lambda>c. c \<noteq> CHR '':'') v; tid = tl (dropWhile (\<lambda>c. c \<noteq> CHR '':'') v)
      in \<lparr>cl_UserID = ''9'', cl_Email = ''w@x.org'', cl_Role = ''user'', cl_TokenType = ty, cl_Issuer = ''iss'',
          cl_Subject = ''9'', cl_Audience = [''aud''],
          cl_ExpiresAt = Some (if ty = AccessTokenType then 1060 else 4600),
          cl_NotBefore = Some 1000, cl_IssuedAt = Some 1000, cl_ID = tid\<rparr>)"

definition demo_jwt :: jwt_lib where
  "demo_jwt =
     \<lparr>jl_sign = (\<lambda>c key. let v = cl_TokenType c @ '':'' @ cl_ID c
                          in if demo_claims v = c then Inr v else Inl (FmtError ''cannot sign'')),
      jl_numericDate = (\<lambda>t. t),
      jl_parse = (\<lambda>opts key now v. case cl_ExpiresAt (demo_claims v) of
         Some e \<Rightarrow> if now < e \<and> key = ''secret'' then Inr (demo_claims v, True) else Inl (FmtError ''token is expired'')
       | None \<Rightarrow> Inl (FmtError ''token is malformed''))\<rparr>"

definition demo_digest :: "bytes \<Rightarrow> bytes" where
  "demo_digest b = take 32 (rev b @ replicate 32 (CHR 0x00))"

definition demo_libs :: auth_libs where
  "demo_libs = \<lparr>al_jwt = demo_jwt,
     al_bcrypt = \<lparr>bc_generate = (\<lambda>pw es. (Inr (CHR 0x23 # pw), es)),
                  bc_compare = (\<lambda>h pw. if h = CHR 0x23 # pw then None else Some (FmtError ''mismatch''))\<rparr>,
     al_sha256 = demo_digest, al_unicode_lower = (\<lambda>s. s), al_is_ip = (\<lambda>s. False)\<rparr>"

definition demo_manager :: jwt_manager where
  "demo_manager = NewJWTManager ''secret'' ''iss'' ''aud'' 60 3600"

definition demo_lower :: "string \<Rightarrow> string" where
  "demo_lower s = map ascii_lower s"

definition demo_auth :: "pg auth_service" where
  "demo_auth = app_auth demo_lower demo_manager"

definition demo_auth_tables :: tables where
  "demo_auth_tables = \<lparr>t_roles = [\<lparr>dbr_ID = 1, dbr_Name = ''user'', dbr_CreatedAt = ts_at 0\<rparr>],
     t_roles_seq = 2, t_users = [], t_users_seq = 9,
     t_refresh_sessions = [], t_refresh_sessions_seq = 1, t_documents = [], t_documents_seq = 1\<rparr>"

definition demo_auth_world :: "pg auth_world" where
  "demo_auth_world =
     \<lparr>aw_repository = \<lparr>pg_tables = demo_auth_tables, pg_faults = [], pg_now = 1000\<rparr>,
      aw_random = map (\<lambda>n. Inr (\<lambda>i. char_of (n :: nat))) [90, 91, 92, 93, 94], aw_times = [1000]\<rparr>"

definition demo_register :: register_input where
  "demo_register = \<lparr>ri_Email = '' W@x.org'', ri_Password = ''password1''\<rparr>"

definition demo_registered :: "pg auth_world" where
  "demo_registered = snd (as_Register demo_libs demo_auth demo_register demo_auth_world)"

definition demo_token :: string where
  "demo_token = ''refresh:'' @ concat (replicate 16 ''5a'')"

lemma demo_jwt_stable: "jwt_stable (al_jwt demo_libs)"
  by (auto simp: jwt_stable_def demo_libs_def demo_jwt_def split: option.splits if_splits)

lemma demo_jwt_roundtrip: "jwt_roundtrip (al_jwt demo_libs)"
  by (auto simp: jwt_roundtrip_def demo_libs_def demo_jwt_def Let_def split: option.splits if_splits)

lemma demo_auth_ok: "auth_ok demo_lower demo_auth_world"
  by (simp add: pg_auth_inv_def demo_auth_world_def demo_auth_tables_def auth_inv_def)

lemma demo_registered_ok: "auth_ok demo_lower demo_registered"
proof -
  have "as_Register demo_libs demo_auth demo_register demo_auth_world =
      (fst (as_Register demo_libs demo_auth demo_register demo_auth_world), demo_registered)"
    by (simp add: demo_registered_def)
  from auth.register_ok [OF demo_auth_ok this [unfolded demo_auth_def]] show ?thesis by simp
qed

end
