(* ===== verification/Auth_Properties.thy ===== *)
theory Auth_Properties
  imports Auth_Steps
begin

text \<open>
  The properties of the authentication service over PostgreSQL: refresh tokens are used at most
  once, logins and refreshes are those of live and active users, tokens of one type do not
  pass for the other, and registration and login fit together.
\<close>

lemma get_by_email_complete:
  assumes "users_of t uid = Some u" "lower (usr_Email u) = lower e" "utf8_valid e"
  shows "\<exists>row. sql_GetUserByEmail lower e now t = (Inr row, t)"
proof -
  from assms(1) obtain du row where "row_by dbu_ID (t_users t) uid = Some du" and lu: "live_user du"
    and j: "join_role t du = Some row" and u: "u = userFromGetByIDRow row"
    by (auto simp: users_of_def split: option.splits if_splits)
  then have du: "du \<in> set (t_users t)" using row_by_Some by fastforce
  have "dbu_Email du = usr_Email u" using j u by (auto simp: join_role_def userFromGetByIDRow_def)
  with du lu assms(2) have "du \<in> set (filter (\<lambda>u. lower (dbu_Email u) = lower e \<and> live_user u) (t_users t))" by simp
  then have "List.map_filter (join_role t) (filter (\<lambda>u. lower (dbu_Email u) = lower e \<and> live_user u) (t_users t)) \<noteq> []"
    using j by (auto simp: List.map_filter_def filter_empty_conv)
  with assms(3) show ?thesis by (auto simp: sql_GetUserByEmail_def split: list.splits)
qed

lemma ascii_lower_ascii: "0 < (of_char c :: nat) \<Longrightarrow> (of_char c :: nat) < 128 \<Longrightarrow>
    0 < (of_char (ascii_lower c) :: nat) \<and> (of_char (ascii_lower c) :: nat) < 128"
  by (auto simp: ascii_lower_def Let_def)

definition plain_text :: "string \<Rightarrow> bool" where
  "plain_text s \<longleftrightarrow> (\<forall>c \<in> set s. 0 < (of_char c :: nat) \<and> (of_char c :: nat) < 128)"

lemma length_trim_runes: "length (trim_runes ps s) \<le> length s"
  using trim_runes_suffix [of s ps] by (metis le_add2 length_append)

lemma valid_Email_plain:
  assumes "valid_Email ul is_ip v = Inr e" "plain_text v"
  shows "plain_text e \<and> length e \<le> length v"
proof -
  have e: "e = to_lower ul (trim_space v)" using valid_Email_normal [OF assms(1)] by simp
  have p: "plain_text (trim_space v)" using assms(2) set_trim_space [of v] by (auto simp: plain_text_def)
  then have a: "is_ascii (trim_space v)" by (auto simp: is_ascii_def plain_text_def)
  have "length (trim_space v) \<le> length v"
    unfolding trim_space_def using length_trim_runes [of _ "rev (trim_runes space_runes v)"] length_trim_runes [of space_runes v]
    by (metis le_trans length_rev)
  moreover have "plain_text (map ascii_lower s)" if "plain_text s" for s
    using that ascii_lower_ascii by (auto simp: plain_text_def)
  ultimately show ?thesis using p a by (simp add: e to_lower_def)
qed

text \<open>bcrypt accepts the password it hashed.\<close>

definition bcrypt_ok :: "bcrypt_lib \<Rightarrow> bool" where
  "bcrypt_ok lib \<longleftrightarrow> (\<forall>pw es h es'. bc_generate lib pw es = (Inr h, es') \<longrightarrow> bc_compare lib h pw = None)"

text \<open>
  C4. A refresh token is good for one exchange: after a refresh that succeeded, a refresh with
  the same token fails, whatever registrations, logins, refreshes and logouts happen in
  between, and whatever the clock, the entropy source and the database connection do.
\<close>

theorem refresh_token_single_use:
  assumes "auth_ok lower w" "jwt_stable (al_jwt L)"
    and first: "as_Refresh L (app_auth lower m) token w = (Inr res, w1)"
    and between: "(auth_step L (app_auth lower m))\<^sup>*\<^sup>* w1 w2"
    and again: "as_Refresh L (app_auth lower m) token' w2 = (r, w3)" "trim_space token' = trim_space token"
  shows "\<exists>e. r = Inl e"
proof -
  from auth.refresh_ok [OF assms(1) first] obtain c ss where ok: "auth_ok lower w1"
    and tc: "token_claims (al_jwt L) m (trim_space token) c" and rot: "session_rotated (cl_ID c) ss (sessions w) (sessions w1)"
    by auto
  have "spent (sessions w1) (cl_ID c)" using spent_rotated [OF rot] by blast
  from spent_refused [OF between ok assms(2) tc [folded again(2)] this again(1)] show ?thesis .
qed

definition demo_refreshed :: "pg auth_world" where
  "demo_refreshed = snd (as_Refresh demo_libs demo_auth demo_token demo_registered)"

lemma demo_refresh_run: "\<exists>res. as_Refresh demo_libs demo_auth demo_token demo_registered = (Inr res, demo_refreshed)"
proof -
  have "\<not> isl (fst (as_Refresh demo_libs demo_auth demo_token demo_registered))" by code_simp
  then show ?thesis unfolding demo_refreshed_def by (metis prod.collapse sum.collapse(2))
qed

theorem refresh_token_single_use_witness:
  "\<exists>e. fst (as_Refresh demo_libs demo_auth demo_token demo_refreshed) = Inl e"
proof -
  obtain res where r: "as_Refresh demo_libs demo_auth demo_token demo_registered = (Inr res, demo_refreshed)"
    using demo_refresh_run by blast
  from refresh_token_single_use [OF demo_registered_ok demo_jwt_stable r [unfolded demo_auth_def] rtranclp.rtrancl_refl, of demo_token]
  show ?thesis unfolding demo_auth_def by (metis prod.collapse)
qed

text \<open>
  C12. A refresh that succeeds presented a valid refresh token whose session was stored with that
  token's hash, was neither revoked nor expired, and belongs to a live and active user. The old
  session is now revoked and names its replacement, and the new one belongs to the same user
  and carries the hash of the new refresh token.
\<close>

theorem refresh_sound:
  assumes "auth_ok lower w" "as_Refresh L (app_auth lower m) token w = (Inr res, w')"
  shows "\<exists>c so u ss. token_claims (al_jwt L) m (trim_space token) c \<and> cl_TokenType c = RefreshTokenType \<and>
    sessions w (cl_ID c) = Some so \<and> ses_TokenHash so = HashRefreshToken L token \<and> ses_RevokedAt so = None \<and>
    accounts w (ses_UserID so) = Some u \<and> usable_user u \<and> ars_User res = publicUser u \<and>
    ses_UserID ss = usr_ID u \<and> ses_TokenHash ss = HashRefreshToken L (tp_RefreshToken (ars_Tokens res)) \<and>
    session_rotated (cl_ID c) ss (sessions w) (sessions w') \<and> accounts w' = accounts w"
proof -
  from auth.refresh_ok [OF assms] obtain c so u ss where c: "token_claims (al_jwt L) m (trim_space token) c"
    "cl_TokenType c = RefreshTokenType" "sessions w (cl_ID c) = Some so" "ses_TokenHash so = HashRefreshToken L token"
    "accounts w (ses_UserID so) = Some u" "usable_user u" "issued L (app_auth lower m) res u ss"
    "session_rotated (cl_ID c) ss (sessions w) (sessions w')" "accounts w' = accounts w"
    by auto
  from c(3,8) have "ses_RevokedAt so = None" by (auto simp: session_rotated_def)
  with c show ?thesis by (auto simp: issued_def)
qed

theorem refresh_sound_witness:
  "\<exists>so. sessions demo_registered (concat (replicate 16 ''5a'')) = Some so \<and> ses_RevokedAt so = None \<and>
     spent (sessions demo_refreshed) (concat (replicate 16 ''5a''))"
proof -
  obtain res where r: "as_Refresh demo_libs demo_auth demo_token demo_registered = (Inr res, demo_refreshed)"
    using demo_refresh_run by blast
  from refresh_sound [OF demo_registered_ok r [unfolded demo_auth_def]] obtain c so ss where
    c: "token_claims (al_jwt demo_libs) demo_manager (trim_space demo_token) c"
    and so: "sessions demo_registered (cl_ID c) = Some so" "ses_RevokedAt so = None"
    and rot: "session_rotated (cl_ID c) ss (sessions demo_registered) (sessions demo_refreshed)" by blast
  have "c = demo_claims (trim_space demo_token)"
    using c by (auto simp: token_claims_def demo_libs_def demo_jwt_def split: option.splits if_splits)
  moreover have "cl_ID (demo_claims (trim_space demo_token)) = concat (replicate 16 ''5a'')" by code_simp
  ultimately show ?thesis using so spent_rotated [OF rot] by auto
qed

text \<open>
  C13. A login that succeeds gave the password of a live and active user with that address; the
  answer holds that user without the password hash, and exactly one session was added.
\<close>

theorem login_authenticated:
  assumes "auth_ok lower w" "as_Login L (app_auth lower m) input w = (Inr res, w')"
  shows "\<exists>email u ss. valid_Email (al_unicode_lower L) (al_is_ip L) (li_Email input) = Inr email \<and>
    accounts w (usr_ID u) = Some u \<and> lower (usr_Email u) = lower email \<and> usable_user u \<and>
    bc_compare (al_bcrypt L) (usr_PasswordHash u) (li_Password input) = None \<and>
    ars_User res = publicUser u \<and> usr_PasswordHash (ars_User res) = '''' \<and>
    ses_UserID ss = usr_ID u \<and> session_created ss (sessions w) (sessions w') \<and> accounts w' = accounts w"
proof -
  from auth.login_ok [OF assms] obtain email u ss where l: "valid_Email (al_unicode_lower L) (al_is_ip L) (li_Email input) = Inr email"
    "accounts w (usr_ID u) = Some u" "lower (usr_Email u) = lower email" "usable_user u"
    "bc_compare (al_bcrypt L) (usr_PasswordHash u) (li_Password input) = None"
    "issued L (app_auth lower m) res u ss" "session_created ss (sessions w) (sessions w')" "accounts w' = accounts w"
    by auto
  from l(6) have "ars_User res = publicUser u" "ses_UserID ss = usr_ID u" by (simp_all add: issued_def)
  moreover have "usr_PasswordHash (publicUser u) = []" by (simp add: publicUser_def)
  ultimately show ?thesis using l by metis
qed

theorem login_authenticated_witness:
  "\<exists>u. accounts demo_registered (usr_ID u) = Some u \<and> demo_lower (usr_Email u) = ''w@x.org'' \<and> usr_PasswordHash u = CHR 0x23 # ''password1''"
proof -
  let ?in = "\<lparr>li_Email = ''w@X.org'', li_Password = ''password1''\<rparr>"
  let ?r = "as_Login demo_libs demo_auth ?in demo_registered"
  have "\<not> isl (fst ?r)" by code_simp
  then obtain res where r: "?r = (Inr res, snd ?r)" by (metis prod.collapse sum.collapse(2))
  have e: "valid_Email (al_unicode_lower demo_libs) (al_is_ip demo_libs) ''w@X.org'' = Inr ''w@x.org''" by code_simp
  have l: "demo_lower ''w@x.org'' = ''w@x.org''" by code_simp
  from login_authenticated [OF demo_registered_ok r [unfolded demo_auth_def]] e l show ?thesis
    by (auto simp: demo_libs_def split: if_splits)
qed

text \<open>
  C14. After a logout with a token whose session exists, no refresh with that token succeeds any
  more, whatever happens in between.
\<close>

theorem logout_revokes:
  assumes "auth_ok lower w" "jwt_stable (al_jwt L)"
    and "token_claims (al_jwt L) m (trim_space token) c" "sessions w (cl_ID c) \<noteq> None"
    and out: "as_Logout L (app_auth lower m) token w = (Inr (), w1)"
    and between: "(auth_step L (app_auth lower m))\<^sup>*\<^sup>* w1 w2"
    and again: "as_Refresh L (app_auth lower m) token w2 = (r, w3)"
  shows "\<exists>e. r = Inl e"
proof -
  from auth.logout_ok [OF assms(1) out] obtain c' where ok: "auth_ok lower w1"
    and c': "token_claims (al_jwt L) m (trim_space token) c'" "session_revoked (cl_ID c') (sessions w) (sessions w1)" by auto
  from token_claims_unique [OF assms(2,3) c'(1)] c'(2) assms(4) have "spent (sessions w1) (cl_ID c)"
    using spent_revoked by blast
  from spent_refused [OF between ok assms(2,3) this again] show ?thesis .
qed

theorem logout_revokes_witness:
  "\<exists>e. fst (as_Refresh demo_libs demo_auth demo_token (snd (as_Logout demo_libs demo_auth demo_token demo_registered))) = Inl e"
proof -
  let ?o = "as_Logout demo_libs demo_auth demo_token demo_registered"
  have "\<not> isl (fst ?o)" by code_simp
  then have o: "?o = (Inr (), snd ?o)" by (metis prod.collapse sum.collapse(2) unit.exhaust)
  have tc: "token_claims (al_jwt demo_libs) demo_manager (trim_space demo_token) (demo_claims (trim_space demo_token))"
    unfolding token_claims_def by (rule exI [of _ 1000]) code_simp
  have s: "sessions demo_registered (cl_ID (demo_claims (trim_space demo_token))) \<noteq> None" by code_simp
  from logout_revokes [OF demo_registered_ok demo_jwt_stable tc s o [unfolded demo_auth_def] rtranclp.rtrancl_refl]
  show ?thesis unfolding demo_auth_def by (metis prod.collapse)
qed

text \<open>
  C7. The rotation of a session is atomic: whatever commands of the transaction fail, before or
  after they took effect, either the old session is revoked and its replacement stored, or no
  session has changed; it never reports success in the second case.
\<close>

theorem rotation_atomic:
  assumes "pg_auth_inv lower db" "au_RotateRefreshSession old s db = (r, db')"
  shows "pg_auth_inv lower db' \<and> pg_users db' = pg_users db \<and>
    (session_rotated old s (pg_sessions db) (pg_sessions db') \<or> (\<exists>e. r = Inl e) \<and> pg_sessions db' = pg_sessions db)"
  using rotate_call [OF assms] by (auto simp: isl_def)

definition demo_session :: refresh_session where
  "demo_session = \<lparr>ses_ID = 0, ses_UserID = 9, ses_TokenID = ''next'', ses_TokenHash = concat (replicate 16 ''0a0b''),
     ses_ExpiresAt = 9000, ses_RevokedAt = None, ses_ReplacedByTokenID = None, ses_CreatedAt = 0\<rparr>"

theorem rotation_atomic_witness:
  "let db = (aw_repository demo_registered)\<lparr>pg_faults := [Proceed, Proceed, FailAfter (FmtError ''connection lost'')]\<rparr>
   in pg_sessions (snd (au_RotateRefreshSession (concat (replicate 16 ''5a'')) demo_session db)) = pg_sessions db"
proof -
  let ?db = "(aw_repository demo_registered)\<lparr>pg_faults := [Proceed, Proceed, FailAfter (FmtError ''connection lost'')]\<rparr>"
  let ?r = "au_RotateRefreshSession (concat (replicate 16 ''5a'')) demo_session ?db"
  have ok: "pg_auth_inv demo_lower ?db" using demo_registered_ok by (simp add: pg_auth_inv_def)
  have r: "?r = (fst ?r, snd ?r)" by simp
  have n: "pg_sessions (snd ?r) ''next'' = None" by code_simp
  have "\<not> session_rotated (concat (replicate 16 ''5a'')) demo_session (pg_sessions ?db) (pg_sessions (snd ?r))"
    using n by (auto simp: session_rotated_def session_created_def fresh_session_def demo_session_def)
  with rotation_atomic [OF ok r] show ?thesis by (simp add: Let_def)
qed

text \<open>
  C16. The two tokens of a pair are not interchangeable: no manager accepts the access token as a
  refresh token or the refresh token as an access token.
\<close>

theorem token_types_separated:
  assumes "jwt_roundtrip lib" "GenerateTokenPair lib m u w = (Inr pair, w')"
  shows "(\<exists>e. fst (ValidateRefreshToken lib m' (tp_AccessToken pair) v) = Inl e) \<and>
    (\<exists>e. fst (ValidateAccessToken lib m' (tp_RefreshToken pair) v) = Inl e)"
proof (rule GenerateTokenPair_claims [OF assms])
  fix tid es es'
  assume a: "\<And>m' c. token_claims lib m' (tp_AccessToken pair) c \<Longrightarrow> cl_TokenType c = AccessTokenType \<and> cl_UserID c = format_int (usr_ID u)"
    and r: "\<And>m' c. token_claims lib m' (tp_RefreshToken pair) c \<Longrightarrow>
       cl_TokenType c = RefreshTokenType \<and> cl_UserID c = format_int (usr_ID u) \<and> cl_ID c = tid"
  have ne: "AccessTokenType \<noteq> RefreshTokenType" by (simp add: AccessTokenType_def RefreshTokenType_def)
  have "isl (fst (ValidateRefreshToken lib m' (tp_AccessToken pair) v))"
    using a ne jwt_validate_ok [of lib m' "tp_AccessToken pair" RefreshTokenType v]
    by (cases "jwt_validate lib m' (tp_AccessToken pair) RefreshTokenType v"; cases "fst (jwt_validate lib m' (tp_AccessToken pair) RefreshTokenType v)")
       (auto simp: ValidateRefreshToken_def)
  moreover have "isl (fst (ValidateAccessToken lib m' (tp_RefreshToken pair) v))"
    using r ne jwt_validate_ok [of lib m' "tp_RefreshToken pair" AccessTokenType v]
    by (cases "jwt_validate lib m' (tp_RefreshToken pair) AccessTokenType v"; cases "fst (jwt_validate lib m' (tp_RefreshToken pair) AccessTokenType v)")
       (auto simp: ValidateAccessToken_def)
  ultimately show ?thesis by (auto simp: isl_def)
qed

theorem token_types_separated_witness:
  "\<exists>e. fst (ValidateAccessToken (al_jwt demo_libs) demo_manager demo_token demo_registered) = Inl e"
proof -
  let ?u = "\<lparr>usr_ID = 9, usr_Email = ''w@x.org'', usr_PasswordHash = '''', usr_Role = ''user'', usr_IsActive = True,
     usr_CreatedAt = 0, usr_UpdatedAt = 0, usr_DeletedAt = None\<rparr>"
  let ?r = "GenerateTokenPair (al_jwt demo_libs) demo_manager ?u demo_auth_world"
  have c: "case fst ?r of Inl e \<Rightarrow> False | Inr p \<Rightarrow> tp_RefreshToken p = demo_token" by code_simp
  then obtain p where r: "?r = (Inr p, snd ?r)" "tp_RefreshToken p = demo_token"
    by (cases ?r) (auto split: sum.splits)
  from token_types_separated [OF demo_jwt_roundtrip r(1)] r(2) show ?thesis by metis
qed

text \<open>
  C15. Who has registered can log in with the same address and password, over a database that
  answers: the login finds the same user, and only the issuing of the tokens can still fail.
\<close>

theorem register_then_login:
  assumes "auth_ok lower w" "bcrypt_ok (al_bcrypt L)" "plain_text (ri_Email input)" "length (ri_Email input) \<le> 320"
    and reg: "as_Register L (app_auth lower m) input w = (Inr res, w1)" and up: "pg_faults (aw_repository w1) = []"
    and login: "as_Login L (app_auth lower m) \<lparr>li_Email = ri_Email input, li_Password = ri_Password input\<rparr> w1 = (r, w2)"
  shows "case r of Inr res' \<Rightarrow> ars_User res' = ars_User res
    | Inl e \<Rightarrow> \<exists>u wi. usr_ID u = usr_ID (ars_User res) \<and> issueAndPersist L (app_auth lower m) u wi = (Inl e, w2)"
proof -
  from auth.register_ok [OF assms(1) reg] obtain email hash es es' u ss where ok: "auth_ok lower w1"
    and em: "valid_Email (al_unicode_lower L) (al_is_ip L) (ri_Email input) = Inr email"
    and h: "bc_generate (al_bcrypt L) (ri_Password input) es = (Inr hash, es')"
    and cr: "user_created (\<lambda>a b. lower a = lower b) email hash RoleUser u (accounts w) (accounts w1)"
    and iss: "issued L (app_auth lower m) res u ss" by auto
  from valid_Email_plain [OF em assms(3)] assms(4) have pe: "plain_text email" "length email \<le> 320" by auto
  from cr pe(2) have u: "usr_Email u = email" "usr_PasswordHash u = hash" "usable_user u" "accounts w1 (usr_ID u) = Some u"
    by (auto simp: user_created_def usable_user_def)
  have cmp: "bc_compare (al_bcrypt L) hash (ri_Password input) = None" using assms(2) h by (auto simp: bcrypt_ok_def)
  let ?p = "aw_repository w1"
  have ut: "utf8_valid email" using pe(1) by (intro utf8_valid_ascii) (simp add: plain_text_def)
  obtain row where "sql_GetUserByEmail lower email (pg_now ?p) (pg_tables ?p) = (Inr row, pg_tables ?p)"
    using get_by_email_complete [of "pg_tables ?p" "usr_ID u" u lower email] u(1,4) ut by (auto simp: pg_users_def)
  then have g: "au_GetUserByEmail lower email ?p = (Inr (userFromGetByEmailRow row), ?p)"
    using up by (simp add: au_GetUserByEmail_def pg_call_no_fault)
  let ?v = "userFromGetByEmailRow row"
  from pg_auth.by_email_ok [of lower ?p email ?v ?p] ok g have v: "accounts w1 (usr_ID ?v) = Some ?v" "lower (usr_Email ?v) = lower email"
    by auto
  have "?v = u"
  proof (rule ccontr)
    assume "?v \<noteq> u"
    with v(1) u(4) have "usr_ID ?v \<noteq> usr_ID u" by auto
    with v(1) cr have "accounts w (usr_ID ?v) = Some ?v" by (auto simp: user_created_def)
    with cr v(2) u(1) show False by (auto simp: user_created_def)
  qed
  with g login em cmp u have "issueAndPersist L (app_auth lower m) u w1 = (r, w2)"
    by (simp add: as_Login_def on_users_def usable_user_def VerifyPassword_def)
  moreover have "ars_User res = publicUser u" using iss by (simp add: issued_def)
  moreover have "usr_ID (publicUser u) = usr_ID u" by (simp add: publicUser_def)
  ultimately show ?thesis using auth.issue_ok [OF ok, of L m u r w2] by (cases r) (auto simp: issued_def)
qed

theorem register_then_login_witness:
  "\<exists>res res'. fst (as_Register demo_libs demo_auth demo_register demo_auth_world) = Inr res \<and>
     fst (as_Login demo_libs demo_auth \<lparr>li_Email = '' W@x.org'', li_Password = ''password1''\<rparr> demo_registered) = Inr res' \<and>
     ars_User res' = ars_User res"
proof -
  let ?l = "as_Login demo_libs demo_auth \<lparr>li_Email = '' W@x.org'', li_Password = ''password1''\<rparr> demo_registered"
  let ?g = "as_Register demo_libs demo_auth demo_register demo_auth_world"
  have "\<not> isl (fst ?g)" "\<not> isl (fst ?l)" by code_simp+
  then obtain res res' where g: "?g = (Inr res, demo_registered)" and l: "?l = (Inr res', snd ?l)"
    unfolding demo_registered_def by (metis prod.collapse sum.collapse(2))
  have b: "bcrypt_ok (al_bcrypt demo_libs)" by (simp add: bcrypt_ok_def demo_libs_def)
  have p: "plain_text (ri_Email demo_register)" "length (ri_Email demo_register) \<le> 320"
    by (simp_all add: plain_text_def demo_register_def)
  have f: "pg_faults (aw_repository demo_registered) = []" by code_simp
  have i: "ri_Email demo_register = '' W@x.org''" "ri_Password demo_register = ''password1''" by (simp_all add: demo_register_def)
  from register_then_login [OF demo_auth_ok b p g [unfolded demo_auth_def] f, unfolded i, OF l [unfolded demo_auth_def]]
  have e: "ars_User res' = ars_User res" by simp
  show ?thesis by (intro exI [of _ res] exI [of _ res'] conjI e) (rule arg_cong [OF g, of fst, simplified] arg_cong [OF l, of fst, unfolded fst_conv])+
qed

end
