(* ===== verification/App_Config.thy ===== *)
theory App_Config
  imports Storage_Keys
begin

text \<open>
  Package \<open>internal/config\<close>: reading the process environment into a configuration, and its
  checks. The environment, after \<open>godotenv.Load\<close> has read the \<open>.env\<close> file into it, is a
  function from names to values, empty where nothing is set. \<open>time.ParseDuration\<close> is modelled
  but for the product of a fraction and its unit, which Go takes in floating point: that is the
  parameter \<open>fraction\<close>. \<open>url.Parse\<close> is the parameter \<open>url_parse\<close>, of which the program reads
  four fields.
\<close>

type_synonym environ = "string \<Rightarrow> string"

subsection \<open>Parsers of the standard library\<close>

definition parse_bool :: "string \<Rightarrow> bool option" where
  "parse_bool s =
     (if s \<in> set [''1'', ''t'', ''T'', ''TRUE'', ''true'', ''True''] then Some True
      else if s \<in> set [''0'', ''f'', ''F'', ''FALSE'', ''false'', ''False''] then Some False
      else None)"

text \<open>\<open>leadingInt\<close> and \<open>leadingFraction\<close>, with the rest of the string.\<close>

fun leading_int :: "int \<Rightarrow> string \<Rightarrow> (int \<times> string) option" where
  "leading_int x [] = Some (x, [])"
| "leading_int x (c # s) =
     (if \<not> is_digit c then Some (x, c # s)
      else if x > 2 ^ 63 div 10 then None
      else let y = x * 10 + int (digit_val c)
           in if y > 2 ^ 63 then None else leading_int y s)"

fun leading_fraction :: "int \<Rightarrow> int \<Rightarrow> bool \<Rightarrow> string \<Rightarrow> int \<times> int \<times> string" where
  "leading_fraction x scale ovf [] = (x, scale, [])"
| "leading_fraction x scale ovf (c # s) =
     (if \<not> is_digit c then (x, scale, c # s)
      else if ovf then leading_fraction x scale True s
      else if x > (2 ^ 63 - 1) div 10 then leading_fraction x scale True s
      else let y = x * 10 + int (digit_val c)
           in if y > 2 ^ 63 then leading_fraction x scale True s
              else leading_fraction y (scale * 10) False s)"

definition duration_unit :: "string \<Rightarrow> int option" where
  "duration_unit u =
     (if u = ''ns'' then Some 1
      else if u = ''us'' \<or> u = [CHR 0xC2, CHR 0xB5, CHR ''s''] \<or> u = [CHR 0xCE, CHR 0xBC, CHR ''s''] then Some 1000
      else if u = ''ms'' then Some 1000000
      else if u = ''s'' then Some 1000000000
      else if u = ''m'' then Some (60 * 1000000000)
      else if u = ''h'' then Some (3600 * 1000000000)
      else None)"

text \<open>One round of the loop: the value of the next component and the rest of the string.\<close>

definition duration_component :: "(int \<Rightarrow> int \<Rightarrow> int \<Rightarrow> int) \<Rightarrow> string \<Rightarrow> (int \<times> string) option" where
  "duration_component fraction s =
     (case leading_int 0 s of
        None \<Rightarrow> None
      | Some (v, s1) \<Rightarrow>
          let (f, scale, s2) = (if s1 \<noteq> [] \<and> hd s1 = CHR ''.'' then leading_fraction 0 1 False (tl s1) else (0, 1, s1));
              post = s1 \<noteq> [] \<and> hd s1 = CHR ''.'' \<and> length (tl s1) \<noteq> length s2;
              u = takeWhile (\<lambda>c. c \<noteq> CHR ''.'' \<and> \<not> is_digit c) s2;
              s3 = dropWhile (\<lambda>c. c \<noteq> CHR ''.'' \<and> \<not> is_digit c) s2
          in if length s1 = length s \<and> \<not> post then None
             else if u = [] then None
             else (case duration_unit u of
                     None \<Rightarrow> None
                   | Some unit \<Rightarrow>
                       if v > 2 ^ 63 div unit then None
                       else let v' = v * unit + (if f > 0 then fraction f unit scale else 0)
                            in if v' > 2 ^ 63 then None else Some (v', s3)))"

lemma leading_int_length: "leading_int x s = Some (y, t) \<Longrightarrow> length t \<le> length s"
  by (induction x s rule: leading_int.induct) (auto simp: Let_def split: if_splits)

lemma leading_fraction_length: "leading_fraction x sc b s = (y, sc', t) \<Longrightarrow> length t \<le> length s"
proof (induction x sc b s rule: leading_fraction.induct)
  case (2 x scale ovf c s)
  then show ?case by (fastforce simp: Let_def split: if_splits)
qed simp

lemma duration_component_length:
  assumes "duration_component fraction s = Some (v, t)"
  shows "length t < length s"
proof -
  obtain x s1 where s1: "leading_int 0 s = Some (x, s1)"
    using assms by (auto simp: duration_component_def split: option.splits)
  obtain f sc s2 where s2: "(if s1 \<noteq> [] \<and> hd s1 = CHR ''.'' then leading_fraction 0 1 False (tl s1) else (0, 1, s1)) = (f, sc, s2)"
    by (metis prod_cases3)
  let ?P = "\<lambda>c. c \<noteq> CHR ''.'' \<and> \<not> is_digit c"
  have "length s2 \<le> length s1"
    using s2 leading_fraction_length [of 0 1 False "tl s1" f sc s2] by (auto split: if_splits)
  moreover have "takeWhile ?P s2 \<noteq> []" "t = dropWhile ?P s2"
    using assms s1 s2 by (auto simp: duration_component_def Let_def split: option.splits if_splits)
  moreover from this have "length t < length s2"
    by (metis append.left_neutral length_dropWhile_le nat_neq_iff not_less takeWhile_dropWhile_id append_eq_append_conv)
  ultimately show ?thesis using leading_int_length [OF s1] by simp
qed

function duration_loop :: "(int \<Rightarrow> int \<Rightarrow> int \<Rightarrow> int) \<Rightarrow> int \<Rightarrow> string \<Rightarrow> int option" where
  "duration_loop fraction d s =
     (if s = [] then Some d
      else if \<not> (hd s = CHR ''.'' \<or> is_digit (hd s)) then None
      else case duration_component fraction s of
             None \<Rightarrow> None
           | Some (v, t) \<Rightarrow> if d + v > 2 ^ 63 then None else duration_loop fraction (d + v) t)"
  by pat_completeness auto
termination
  by (relation "measure (\<lambda>(fr, d, s). length s)") (auto dest: duration_component_length)

declare duration_loop.simps [simp del]

definition parse_duration :: "(int \<Rightarrow> int \<Rightarrow> int \<Rightarrow> int) \<Rightarrow> string \<Rightarrow> int option" where
  \<comment> \<open>in nanoseconds\<close>
  "parse_duration fraction s =
     (let neg = (s \<noteq> [] \<and> hd s = CHR ''-'');
          s' = (if s \<noteq> [] \<and> (hd s = CHR ''-'' \<or> hd s = CHR ''+'') then tl s else s)
      in if s' = ''0'' then Some 0
         else if s' = [] then None
         else case duration_loop fraction 0 s' of
                None \<Rightarrow> None
              | Some d \<Rightarrow> if neg then Some (- d) else if d > 2 ^ 63 - 1 then None else Some d)"

subsection \<open>Reading the environment\<close>

definition env :: "environ \<Rightarrow> string \<Rightarrow> string \<Rightarrow> string" where
  "env getenv key fallback = (let v = trim_space (getenv key) in if v \<noteq> '''' then v else fallback)"

definition num_error :: "num_error \<Rightarrow> go_error" where
  "num_error e = (case e of NumSyntax \<Rightarrow> Sentinel ''strconv.ErrSyntax'' ''invalid syntax''
                          | NumRange \<Rightarrow> Sentinel ''strconv.ErrRange'' ''value out of range'')"

definition num_error_text :: "string \<Rightarrow> string \<Rightarrow> go_error \<Rightarrow> string" where
  "num_error_text func v e = ''strconv.'' @ func @ '': parsing '' @ go_quote v @ '': '' @ error_text e"

definition envBool :: "environ \<Rightarrow> string \<Rightarrow> bool \<Rightarrow> go_error + bool" where
  "envBool getenv key fallback =
     (let v = trim_space (getenv key)
      in if v = '''' then Inr fallback
         else case parse_bool v of
                None \<Rightarrow> Inl (FmtWrap (key @ '' must be a boolean: '' @ num_error_text ''ParseBool'' v (num_error NumSyntax)) (num_error NumSyntax))
              | Some b \<Rightarrow> Inr b)"

definition envInt :: "environ \<Rightarrow> string \<Rightarrow> int \<Rightarrow> go_error + int" where
  "envInt getenv key fallback =
     (let v = trim_space (getenv key)
      in if v = '''' then Inr fallback
         else case parse_int v of
                Inl e \<Rightarrow> Inl (FmtWrap (key @ '' must be an integer: '' @ num_error_text ''Atoi'' v (num_error e)) (num_error e))
              | Inr n \<Rightarrow> Inr n)"

definition envInt64 :: "environ \<Rightarrow> string \<Rightarrow> int \<Rightarrow> go_error + int" where
  "envInt64 getenv key fallback =
     (let v = trim_space (getenv key)
      in if v = '''' then Inr fallback
         else case parse_int v of
                Inl e \<Rightarrow> Inl (FmtWrap (key @ '' must be an integer: '' @ num_error_text ''ParseInt'' v (num_error e)) (num_error e))
              | Inr n \<Rightarrow> Inr n)"

definition envDuration :: "(int \<Rightarrow> int \<Rightarrow> int \<Rightarrow> int) \<Rightarrow> environ \<Rightarrow> string \<Rightarrow> int \<Rightarrow> go_error + int" where
  "envDuration fraction getenv key fallback =
     (let v = trim_space (getenv key)
      in if v = '''' then Inr fallback
         else case parse_duration fraction v of
                None \<Rightarrow> Inl (FmtError (key @ '' must be a positive duration''))
              | Some d \<Rightarrow> if d \<le> 0 then Inl (FmtError (key @ '' must be a positive duration'')) else Inr d)"

definition envList :: "environ \<Rightarrow> string \<Rightarrow> string list \<Rightarrow> string list" where
  "envList getenv key fallback =
     (let v = trim_space (getenv key)
      in if v = '''' then fallback
         else filter (\<lambda>item. item \<noteq> '''') (map trim_space (split_on CHR '','' v)))"

subsection \<open>The configuration\<close>

record app_config =
  ac_Name :: string
  ac_Environment :: string
  ac_Port :: string
  ac_Debug :: bool

record database_config =
  dc_Host :: string
  dc_Port :: int
  dc_User :: string
  dc_Password :: string
  dc_Database :: string
  dc_SSLMode :: string
  dc_MaxOpenConns :: int
  dc_MaxIdleConns :: int
  dc_ConnMaxLifetime :: int

record redis_config =
  rc_Host :: string
  rc_Port :: string
  rc_Password :: string
  rc_DB :: int
  rc_DocumentQueue :: string
  rc_ProcessingQueue :: string
  rc_DeadLetterQueue :: string
  rc_DocumentMaxAttempts :: int

record jwt_config =
  jc_Secret :: string
  jc_Issuer :: string
  jc_Audience :: string
  jc_AccessTokenExpiry :: int
  jc_RefreshTokenExpiry :: int

record s3_config =
  s3c_Region :: string
  s3c_Bucket :: string
  s3c_Prefix :: string
  s3c_Endpoint :: string
  s3c_AccessKeyID :: string
  s3c_SecretAccessKey :: string
  s3c_UsePathStyle :: bool

record storage_config =
  sc_Driver :: string
  sc_LocalRoot :: string
  sc_MaxUploadBytes :: int
  sc_AllowedMediaTypes :: "string list"
  sc_CDNURL :: string
  sc_S3 :: s3_config

record logging_config =
  lc_Level :: string
  lc_Format :: string

record config =
  cfg_App :: app_config
  cfg_Database :: database_config
  cfg_Redis :: redis_config
  cfg_JWT :: jwt_config
  cfg_Storage :: storage_config
  cfg_Logging :: logging_config
  cfg_AllowedOrigins :: "string list"

definition join_host_port :: "string \<Rightarrow> string \<Rightarrow> string" where
  \<comment> \<open>\<open>net.JoinHostPort\<close>\<close>
  "join_host_port host port =
     (if contains host '':'' then ''['' @ host @ '']:'' @ port else host @ '':'' @ port)"

definition redis_address :: "redis_config \<Rightarrow> string" where
  "redis_address c = join_host_port (rc_Host c) (rc_Port c)"

text \<open>The fields of a parsed URL the program looks at.\<close>

record url_parts =
  url_Scheme :: string
  url_Host :: string
  url_RawQuery :: string
  url_Fragment :: string

definition validateCDNURL :: "(string \<Rightarrow> go_error + url_parts) \<Rightarrow> string \<Rightarrow> go_error option" where
  "validateCDNURL url_parse v =
     (if trim_space v = '''' then Some (FmtError ''CDN_URL must not be empty when STORAGE_DRIVER=s3'')
      else if (case url_parse v of
                 Inl err \<Rightarrow> True
               | Inr parsed \<Rightarrow> url_Scheme parsed \<noteq> ''http'' \<and> url_Scheme parsed \<noteq> ''https'' \<or> url_Host parsed = '''' \<or>
                   url_RawQuery parsed \<noteq> '''' \<or> url_Fragment parsed \<noteq> '''')
      then Some (FmtError ''CDN_URL must be an absolute HTTP(S) URL without query or fragment'')
      else None)"

definition validate_storage :: "(string \<Rightarrow> go_error + url_parts) \<Rightarrow> storage_config \<Rightarrow> go_error option" where
  \<comment> \<open>the switch over the driver\<close>
  "validate_storage url_parse c =
     (if sc_Driver c = ''local'' then
        (if trim_space (sc_LocalRoot c) = '''' then Some (FmtError ''STORAGE_LOCAL_ROOT must not be empty'') else None)
      else if sc_Driver c = ''s3'' then
        (if trim_space (s3c_Bucket (sc_S3 c)) = '''' then Some (FmtError ''AWS_S3_BUCKET must not be empty'')
         else if \<not> validS3Prefix (s3c_Prefix (sc_S3 c))
         then Some (FmtError ''AWS_S3_PREFIX must be a valid relative object key prefix'')
         else validateCDNURL url_parse (sc_CDNURL c))
      else Some (FmtError ''STORAGE_DRIVER must be local or s3''))"

definition config_Validate :: "(string \<Rightarrow> go_error + url_parts) \<Rightarrow> config \<Rightarrow> go_error option" where
  "config_Validate url_parse c =
     (if length (jc_Secret (cfg_JWT c)) < 32 then Some (FmtError ''JWT_SECRET must contain at least 32 characters'')
      else if dc_Port (cfg_Database c) \<le> 0 \<or> dc_Port (cfg_Database c) > 65535
      then Some (FmtError ''DB_PORT must be between 1 and 65535'')
      else if dc_MaxOpenConns (cfg_Database c) \<le> 0 \<or> dc_MaxIdleConns (cfg_Database c) < 0
      then Some (FmtError ''database pool sizes are invalid'')
      else if rc_DocumentMaxAttempts (cfg_Redis c) \<le> 0
      then Some (FmtError ''REDIS_DOCUMENT_MAX_ATTEMPTS must be positive'')
      else if sc_MaxUploadBytes (cfg_Storage c) \<le> 0 then Some (FmtError ''STORAGE_MAX_UPLOAD_BYTES must be positive'')
      else if sc_AllowedMediaTypes (cfg_Storage c) = [] then Some (FmtError ''STORAGE_ALLOWED_MEDIA_TYPES must not be empty'')
      else validate_storage url_parse (cfg_Storage c))"

text \<open>Going on with the value of a call that succeeded.\<close>

definition on_ok :: "go_error + 'a \<Rightarrow> ('a \<Rightarrow> go_error + 'b) \<Rightarrow> go_error + 'b" where
  "on_ok r f = (case r of Inl err \<Rightarrow> Inl err | Inr x \<Rightarrow> f x)"

lemma on_ok_Inr: "on_ok r f = Inr y \<longleftrightarrow> (\<exists>x. r = Inr x \<and> f x = Inr y)"
  by (simp add: on_ok_def split: sum.splits)

definition make_config :: "environ \<Rightarrow> bool \<Rightarrow> int \<Rightarrow> int \<Rightarrow> int \<Rightarrow> int \<Rightarrow> int \<Rightarrow> int \<Rightarrow> int \<Rightarrow> int \<Rightarrow> int \<Rightarrow> bool \<Rightarrow> config" where
  \<comment> \<open>the composite literal of \<open>Load\<close>\<close>
  "make_config getenv appDebug dbPort maxOpen maxIdle connLifetime redisDB maxAttempts accessExpiry refreshExpiry maxUpload pathStyle =
     \<lparr>cfg_App = \<lparr>ac_Name = env getenv ''APP_NAME'' ''api-example'', ac_Environment = env getenv ''APP_ENV'' ''local'',
        ac_Port = env getenv ''APP_PORT'' ''8080'', ac_Debug = appDebug\<rparr>,
      cfg_Database = \<lparr>dc_Host = env getenv ''DB_HOST'' ''localhost'', dc_Port = dbPort,
        dc_User = env getenv ''DB_USER'' ''postgres'', dc_Password = env getenv ''DB_PASSWORD'' ''postgres'',
        dc_Database = env getenv ''DB_NAME'' ''api_example'', dc_SSLMode = env getenv ''DB_SSLMODE'' ''disable'',
        dc_MaxOpenConns = wrap_signed 32 maxOpen, dc_MaxIdleConns = wrap_signed 32 maxIdle, dc_ConnMaxLifetime = connLifetime\<rparr>,
      cfg_Redis = \<lparr>rc_Host = env getenv ''REDIS_HOST'' ''localhost'', rc_Port = env getenv ''REDIS_PORT'' ''6379'',
        rc_Password = getenv ''REDIS_PASSWORD'', rc_DB = redisDB,
        rc_DocumentQueue = env getenv ''REDIS_DOCUMENT_QUEUE'' ''api_example:documents'',
        rc_ProcessingQueue = env getenv ''REDIS_DOCUMENT_PROCESSING_QUEUE'' ''api_example:documents:processing'',
        rc_DeadLetterQueue = env getenv ''REDIS_DOCUMENT_DEAD_LETTER_QUEUE'' ''api_example:documents:dead'',
        rc_DocumentMaxAttempts = maxAttempts\<rparr>,
      cfg_JWT = \<lparr>jc_Secret = getenv ''JWT_SECRET'', jc_Issuer = env getenv ''JWT_ISSUER'' ''api-example'',
        jc_Audience = env getenv ''JWT_AUDIENCE'' ''api-example-client'',
        jc_AccessTokenExpiry = accessExpiry, jc_RefreshTokenExpiry = refreshExpiry\<rparr>,
      cfg_Storage = \<lparr>sc_Driver = env getenv ''STORAGE_DRIVER'' ''local'', sc_LocalRoot = env getenv ''STORAGE_LOCAL_ROOT'' ''./data'',
        sc_MaxUploadBytes = maxUpload,
        sc_AllowedMediaTypes = envList getenv ''STORAGE_ALLOWED_MEDIA_TYPES'' [''application/pdf'', ''image/jpeg'', ''image/png'', ''text/plain''],
        sc_CDNURL = trim_right_byte slash (trim_space (getenv ''CDN_URL'')),
        sc_S3 = \<lparr>s3c_Region = env getenv ''AWS_REGION'' ''ap-southeast-1'', s3c_Bucket = getenv ''AWS_S3_BUCKET'',
          s3c_Prefix = trim_byte slash (trim_space (getenv ''AWS_S3_PREFIX'')), s3c_Endpoint = getenv ''S3_ENDPOINT'',
          s3c_AccessKeyID = getenv ''AWS_ACCESS_KEY_ID'', s3c_SecretAccessKey = getenv ''AWS_SECRET_ACCESS_KEY'',
          s3c_UsePathStyle = pathStyle\<rparr>\<rparr>,
      cfg_Logging = \<lparr>lc_Level = env getenv ''LOG_LEVEL'' ''info'', lc_Format = env getenv ''LOG_FORMAT'' ''colored_text''\<rparr>,
      cfg_AllowedOrigins = envList getenv ''CORS_ALLOWED_ORIGINS'' [''http://localhost:3000'']\<rparr>"

definition config_Load :: "(string \<Rightarrow> go_error + url_parts) \<Rightarrow> (int \<Rightarrow> int \<Rightarrow> int \<Rightarrow> int) \<Rightarrow> environ \<Rightarrow> go_error + config" where
  "config_Load url_parse fraction getenv =
     on_ok (envBool getenv ''APP_DEBUG'' True) (\<lambda>appDebug.
     on_ok (envInt getenv ''DB_PORT'' 5432) (\<lambda>dbPort.
     on_ok (envInt getenv ''DB_MAX_OPEN_CONNS'' 25) (\<lambda>maxOpen.
     on_ok (envInt getenv ''DB_MAX_IDLE_CONNS'' 5) (\<lambda>maxIdle.
     on_ok (envDuration fraction getenv ''DB_CONN_MAX_LIFETIME'' (5 * 60000000000)) (\<lambda>connLifetime.
     on_ok (envInt getenv ''REDIS_DB'' 0) (\<lambda>redisDB.
     on_ok (envInt getenv ''REDIS_DOCUMENT_MAX_ATTEMPTS'' 3) (\<lambda>maxAttempts.
     on_ok (envDuration fraction getenv ''JWT_ACCESS_TOKEN_EXPIRY'' (8 * 3600000000000)) (\<lambda>accessExpiry.
     on_ok (envDuration fraction getenv ''JWT_REFRESH_TOKEN_EXPIRY'' (720 * 3600000000000)) (\<lambda>refreshExpiry.
     on_ok (envInt64 getenv ''STORAGE_MAX_UPLOAD_BYTES'' (10 * 1024 * 1024)) (\<lambda>maxUpload.
     on_ok (envBool getenv ''S3_USE_PATH_STYLE'' True) (\<lambda>pathStyle.
       let cfg = make_config getenv appDebug dbPort maxOpen maxIdle connLifetime redisDB maxAttempts
                   accessExpiry refreshExpiry maxUpload pathStyle
       in case config_Validate url_parse cfg of Some err \<Rightarrow> Inl err | None \<Rightarrow> Inr cfg)))))))))))"

end
