(* ===== verification/S3_Storage.thy ===== *)
theory S3_Storage
  imports Storage_Contract App_Config Local_Contract
begin

text \<open>
  \<open>internal/storage/s3.go\<close> and \<open>factory.go\<close>: the storage adapter over the AWS client, which is a
  third-party package and so a parameter: the record of the three calls of \<open>s3API\<close>. The
  documented behaviour of the service the adapter relies on is the hypothesis \<open>s3_client_ok\<close>.
\<close>

record get_object_output =
  goo_Body :: source
  goo_ContentType :: "string option"
  goo_ContentLength :: "int option"

record ('w, 'r) s3_api =
  s3_PutObject :: "string \<Rightarrow> string \<Rightarrow> 'r \<Rightarrow> string \<Rightarrow> 'w \<Rightarrow> (go_error + unit) \<times> 'r \<times> 'w"
  s3_GetObject :: "string \<Rightarrow> string \<Rightarrow> ('w, go_error, get_object_output) call"
  s3_DeleteObject :: "string \<Rightarrow> string \<Rightarrow> ('w, go_error, unit) call"

record ('w, 'r) s3_store =
  s3_client :: "('w, 'r) s3_api"
  s3_bucket :: string

definition newS3Store :: "('w, 'r) s3_api \<Rightarrow> string \<Rightarrow> ('w, 'r) s3_store" where
  "newS3Store client bucket = \<lparr>s3_client = client, s3_bucket = bucket\<rparr>"

definition s3_Put :: "('w, 'r) s3_store \<Rightarrow> string \<Rightarrow> 'r \<Rightarrow> string \<Rightarrow> 'w \<Rightarrow> (go_error + unit) \<times> 'r \<times> 'w" where
  "s3_Put s key source mediaType w =
     (case validateKey key of
        Some err \<Rightarrow> (Inl err, source, w)
      | None \<Rightarrow>
          (case s3_PutObject (s3_client s) (s3_bucket s) key source mediaType w of
             (Inl err, source', w') \<Rightarrow> (Inl (Wrap ErrStorageUnavailable (Some err)), source', w')
           | (Inr _, source', w') \<Rightarrow> (Inr (), source', w')))"

definition missing_object :: "go_error \<Rightarrow> bool" where
  \<comment> \<open>\<open>*types.NoSuchKey\<close> is an API error with that code\<close>
  "missing_object err \<longleftrightarrow> api_error_code err = Some ''NoSuchKey'' \<or> api_error_code err = Some ''NotFound''"

definition s3_Open :: "('w, 'r) s3_store \<Rightarrow> string \<Rightarrow> ('w, go_error, stored_object) call" where
  "s3_Open s key w =
     (case validateKey key of
        Some err \<Rightarrow> (Inl err, w)
      | None \<Rightarrow>
          (case s3_GetObject (s3_client s) (s3_bucket s) key w of
             (Inl err, w') \<Rightarrow>
               (Inl (if missing_object err then Wrap ErrStorageObjectNotFound (Some err)
                     else Wrap ErrStorageUnavailable (Some err)), w')
           | (Inr output, w') \<Rightarrow>
               (Inr \<lparr>obj_Body = goo_Body output,
                     obj_SizeBytes = (case goo_ContentLength output of None \<Rightarrow> 0 | Some n \<Rightarrow> n),
                     obj_MediaType = (case goo_ContentType output of None \<Rightarrow> ''application/octet-stream'' | Some t \<Rightarrow> t)\<rparr>, w')))"

definition s3_Delete :: "('w, 'r) s3_store \<Rightarrow> string \<Rightarrow> ('w, go_error, unit) call" where
  "s3_Delete s key w =
     (case validateKey key of
        Some err \<Rightarrow> (Inl err, w)
      | None \<Rightarrow>
          (case s3_DeleteObject (s3_client s) (s3_bucket s) key w of
             (Inl err, w') \<Rightarrow> (Inl (Wrap ErrStorageUnavailable (Some err)), w')
           | (Inr _, w') \<Rightarrow> (Inr (), w')))"

text \<open>
  The factory. A storage is an interface value: one of the two stores. \<open>load_default_config\<close> is
  the SDK's function of that name and \<open>new_from_config\<close> its \<open>s3.NewFromConfig\<close> with the path style
  and the endpoint the program sets; the local store works on the file system.
\<close>

datatype aws_option = WithRegion string | WithCredentialsProvider string string

datatype ('w, 'r) storage_value = LocalStore string | S3Store "('w, 'r) s3_store"

definition aws_options :: "s3_config \<Rightarrow> aws_option list" where
  "aws_options c = WithRegion (s3c_Region c) #
     (if s3c_AccessKeyID c \<noteq> '''' \<or> s3c_SecretAccessKey c \<noteq> ''''
      then [WithCredentialsProvider (s3c_AccessKeyID c) (s3c_SecretAccessKey c)] else [])"

definition storage_New :: "string \<Rightarrow> (aws_option list \<Rightarrow> go_error + 'c) \<Rightarrow> ('c \<Rightarrow> bool \<Rightarrow> string option \<Rightarrow> ('w, 'r) s3_api)
    \<Rightarrow> storage_config \<Rightarrow> (local_fs, go_error, ('w, 'r) storage_value) call" where
  "storage_New cwd load_default_config new_from_config cfg l =
     (if sc_Driver cfg = ''local'' then
        (case NewLocal cwd (sc_LocalRoot cfg) l of
           (Inl err, l1) \<Rightarrow> (Inl err, l1)
         | (Inr root, l1) \<Rightarrow> (Inr (LocalStore root), l1))
      else if sc_Driver cfg = ''s3'' then
        (let c = sc_S3 cfg
         in case load_default_config (aws_options c) of
              Inl err \<Rightarrow> (Inl (FmtWrap (''load AWS configuration: '' @ error_text err) err), l)
            | Inr awsCfg \<Rightarrow>
                let client = new_from_config awsCfg (s3c_UsePathStyle c)
                      (if s3c_Endpoint c \<noteq> '''' then Some (s3c_Endpoint c) else None)
                in (Inr (S3Store (newS3Store client (s3c_Bucket c))), l))
      else (Inl (FmtError (''unsupported storage driver '' @ go_quote (sc_Driver cfg))), l))"

subsection \<open>What the adapter needs of the service\<close>

definition s3_client_ok :: "('w, upload_reader) s3_api \<Rightarrow> string \<Rightarrow> ('w \<Rightarrow> string \<Rightarrow> bytes option) \<Rightarrow> ('w \<Rightarrow> bool) \<Rightarrow> bool" where
  \<comment> \<open>S3's documented behaviour: a put that is acknowledged has read the body to its end and stored
      it, a get delivers the object or reports its absence, a delete removes it; a call that fails
      touches at most the object it names\<close>
  "s3_client_ok c b objs ok \<longleftrightarrow>
     (\<forall>k r mt w res r' w' tot. ok w \<longrightarrow> upload_inv tot r \<longrightarrow> s3_PutObject c b k r mt w = (res, r', w') \<longrightarrow>
        ok w' \<and> same_except k (objs w) (objs w') \<and>
        (res = Inr () \<longrightarrow> objs w' = (objs w)(k \<mapsto> upload_content r) \<and> upload_fin r = io_EOF \<and> upload_fini tot r')) \<and>
     (\<forall>k w res w'. ok w \<longrightarrow> s3_GetObject c b k w = (res, w') \<longrightarrow> ok w' \<and> objs w' = objs w \<and>
        (case res of
           Inl e \<Rightarrow> \<not> errors_is e ErrStorageObjectNotFound \<and> (missing_object e \<longrightarrow> objs w k = None)
         | Inr out \<Rightarrow> source_fin (goo_Body out) = io_EOF \<longrightarrow> objs w k = Some (source_bytes (goo_Body out)))) \<and>
     (\<forall>k w res w'. ok w \<longrightarrow> s3_DeleteObject c b k w = (res, w') \<longrightarrow>
        ok w' \<and> same_except k (objs w) (objs w') \<and> (res = Inr () \<longrightarrow> objs w' = (objs w)(k := None)))"

lemma storable_valid: "storable k \<Longrightarrow> validateKey k = None"
  by (simp add: storable_def)

lemma unavailable_not_missing:
  "\<not> errors_is e ErrStorageObjectNotFound \<Longrightarrow> \<not> errors_is (Wrap ErrStorageUnavailable (Some e)) ErrStorageObjectNotFound"
  by (simp add: Wrap_def ErrStorageUnavailable_def ErrStorageObjectNotFound_def error_matches_def)

lemma s3_client_okD:
  assumes "s3_client_ok c b objs ok"
  shows "ok w \<Longrightarrow> upload_inv tot r \<Longrightarrow> s3_PutObject c b k r mt w = (res, r', w') \<Longrightarrow>
      ok w' \<and> same_except k (objs w) (objs w') \<and>
      (res = Inr () \<longrightarrow> objs w' = (objs w)(k \<mapsto> upload_content r) \<and> upload_fin r = io_EOF \<and> upload_fini tot r')"
    and "ok w \<Longrightarrow> s3_GetObject c b k w = (go, w') \<Longrightarrow> ok w' \<and> objs w' = objs w \<and>
      (case go of
         Inl e \<Rightarrow> \<not> errors_is e ErrStorageObjectNotFound \<and> (missing_object e \<longrightarrow> objs w k = None)
       | Inr out \<Rightarrow> source_fin (goo_Body out) = io_EOF \<longrightarrow> objs w k = Some (source_bytes (goo_Body out)))"
    and "ok w \<Longrightarrow> s3_DeleteObject c b k w = (res, w') \<Longrightarrow>
      ok w' \<and> same_except k (objs w) (objs w') \<and> (res = Inr () \<longrightarrow> objs w' = (objs w)(k := None))"
  using assms unfolding s3_client_ok_def by blast+

lemma s3_Put_call:
  "validateKey k = None \<Longrightarrow> s3_Put s k r mt w = (res, r', w') \<Longrightarrow>
   \<exists>res'. s3_PutObject (s3_client s) (s3_bucket s) k r mt w = (res', r', w') \<and> (res = Inr () \<longleftrightarrow> res' = Inr ())"
  by (auto simp: s3_Put_def split: prod.splits sum.splits)

lemma s3_Delete_call:
  "validateKey k = None \<Longrightarrow> s3_Delete s k w = (res, w') \<Longrightarrow>
   \<exists>res'. s3_DeleteObject (s3_client s) (s3_bucket s) k w = (res', w') \<and> (res = Inr () \<longleftrightarrow> res' = Inr ())"
  by (auto simp: s3_Delete_def split: prod.splits sum.splits)

lemma s3_is_object_store:
  assumes "s3_client_ok (s3_client s) (s3_bucket s) objs ok"
  shows "object_store (s3_Put s) (s3_Open s) (s3_Delete s) objs ok"
proof (unfold_locales, goal_cases)
  case (1 w k tot r mt r' w')
  from s3_Put_call [OF storable_valid [OF 1(2)] 1(4)]
  have "s3_PutObject (s3_client s) (s3_bucket s) k r mt w = (Inr (), r', w')" by simp
  from s3_client_okD(1) [OF assms 1(1,3) this] show ?case by simp
next
  case (2 w k tot r mt e r' w')
  from s3_Put_call [OF storable_valid [OF 2(2)] 2(4)] obtain res where
    "s3_PutObject (s3_client s) (s3_bucket s) k r mt w = (res, r', w')" by blast
  from s3_client_okD(1) [OF assms 2(1,3) this] show ?case by simp
next
  case (3 w k ob w')
  then obtain out where g: "s3_GetObject (s3_client s) (s3_bucket s) k w = (Inr out, w')" "obj_Body ob = goo_Body out"
    using storable_valid [OF 3(2)] by (auto simp: s3_Open_def split: prod.splits sum.splits)
  from s3_client_okD(2) [OF assms 3(1) g(1)] g(2) show ?case by simp
next
  case (4 w k e w')
  then obtain e' where g: "s3_GetObject (s3_client s) (s3_bucket s) k w = (Inl e', w')"
    and e: "e = (if missing_object e' then Wrap ErrStorageObjectNotFound (Some e') else Wrap ErrStorageUnavailable (Some e'))"
    using storable_valid [OF 4(2)] by (auto simp: s3_Open_def split: prod.splits sum.splits)
  from s3_client_okD(2) [OF assms 4(1) g] unavailable_not_missing e show ?case by auto
next
  case (5 w k w')
  from s3_Delete_call [OF storable_valid [OF 5(2)] 5(3)]
  have "s3_DeleteObject (s3_client s) (s3_bucket s) k w = (Inr (), w')" by simp
  from s3_client_okD(3) [OF assms 5(1) this] show ?case by simp
next
  case (6 w k e w')
  from s3_Delete_call [OF storable_valid [OF 6(2)] 6(3)] obtain res where
    "s3_DeleteObject (s3_client s) (s3_bucket s) k w = (res, w')" by blast
  from s3_client_okD(3) [OF assms 6(1) this] show ?case by simp
qed

end
