(* ===== verification/S3_Deployment.thy ===== *)
theory S3_Deployment
  imports S3_Storage Demo_World
begin

text \<open>
  The document service over the S3 storage: the same client lemmas, over any client that behaves
  as S3 documents. A client that keeps its objects in memory shows that such a client exists.
\<close>

definition s3_storage :: "('w, upload_reader) s3_store \<Rightarrow> ('w, upload_reader) object_storage" where
  "s3_storage s = \<lparr>st_Put = s3_Put s, st_Open = s3_Open s, st_Delete = s3_Delete s\<rparr>"

definition s3_service :: "(string \<Rightarrow> string) \<Rightarrow> ('w, upload_reader) s3_store \<Rightarrow> redis redis_queue \<Rightarrow> int \<Rightarrow> string list
    \<Rightarrow> string \<Rightarrow> string \<Rightarrow> (pg, 'w, redis, claimed_job) document_service" where
  \<comment> \<open>the document service \<open>Build\<close> makes for the S3 driver\<close>
  "s3_service unicode_lower store q maxUploadBytes mediaTypes cdnURL keyPrefix =
     NewDocumentService unicode_lower pg_repository (s3_storage store) (redis_queue_port q)
       maxUploadBytes mediaTypes cdnURL keyPrefix"

lemma s3_document_ports:
  assumes "s3_client_ok (s3_client store) (s3_bucket store) objs ok"
  shows "document_ports (s3_service ul store (queue_of main processing dead n) m mts cdn keyPrefix)
    pg_documents pg_inv objs ok (\<lambda>r. waiting_jobs (rd_lists r main))"
proof (intro document_ports.intro document_ports_axioms.intro, goal_cases)
  case 1
  show ?case unfolding s3_service_def NewDocumentService_def document_service.select_convs by (rule pg_docs.doc_repository_axioms)
next
  case 2
  show ?case
    unfolding s3_service_def NewDocumentService_def document_service.select_convs s3_storage_def object_storage.select_convs
    by (rule s3_is_object_store [OF assms])
next
  case 3
  show ?case
    unfolding s3_service_def NewDocumentService_def document_service.select_convs queue_port_simps queue_of_def
    by (rule redis_jobs.job_queue_axioms)
next
  case (4 es oid es')
  then show ?case by (simp add: s3_service_def NewDocumentService_def randomObjectID_key)
qed

text \<open>A client in memory.\<close>

type_synonym memory = "string \<Rightarrow> bytes option"

definition memory_client :: "(memory, upload_reader) s3_api" where
  "memory_client =
     \<lparr>s3_PutObject = (\<lambda>b k r mt w. case io_copy append_write upload_read r [] of
          None \<Rightarrow> (Inl (FmtError ''the body does not end''), r, w)
        | Some (None, r', d) \<Rightarrow> (Inr (), r', w(k \<mapsto> d))
        | Some (Some e, r', d) \<Rightarrow> (Inl e, r', w)),
      s3_GetObject = (\<lambda>b k w. (case w k of
          None \<Rightarrow> Inl (ApiErr ''NoSuchKey'' ''The specified key does not exist.'')
        | Some d \<Rightarrow> Inr \<lparr>goo_Body = [(d, None)], goo_ContentType = None, goo_ContentLength = Some (int (length d))\<rparr>, w)),
      s3_DeleteObject = (\<lambda>b k w. (Inr (), w(k := None)))\<rparr>"

lemma memory_client_ok: "s3_client_ok memory_client b (\<lambda>w. w) (\<lambda>w. True)"
proof -
  have put: "True \<and> same_except k w w' \<and> (res = Inr () \<longrightarrow> w' = w(k \<mapsto> upload_content r) \<and> upload_fin r = io_EOF \<and> upload_fini tot r')"
    if "upload_inv tot r" "s3_PutObject memory_client b k r mt w = (res, r', w')" for k r mt w res r' w' tot
    using upload.copy_append [OF that(1), of "[]"] that(2)
    by (auto simp: memory_client_def split: if_splits)
  have get: "True \<and> w' = w \<and> (case res of
           Inl e \<Rightarrow> \<not> errors_is e ErrStorageObjectNotFound \<and> (missing_object e \<longrightarrow> w k = None)
         | Inr out \<Rightarrow> source_fin (goo_Body out) = io_EOF \<longrightarrow> w k = Some (source_bytes (goo_Body out)))"
    if "s3_GetObject memory_client b k w = (res, w')" for k w res w'
    using that by (auto simp: memory_client_def split: option.splits)
  have del: "True \<and> same_except k w w' \<and> (res = Inr () \<longrightarrow> w' = w(k := None))"
    if "s3_DeleteObject memory_client b k w = (res, w')" for k w res w'
    using that by (auto simp: memory_client_def)
  show ?thesis
    unfolding s3_client_ok_def
    by (intro conjI [OF _ conjI]) (use put in blast, use get in blast, use del in blast)
qed

definition demo_s3 :: "(memory, upload_reader) s3_store" where
  "demo_s3 = newS3Store memory_client ''bucket''"

definition demo_s3_service :: "(pg, memory, redis, claimed_job) document_service" where
  "demo_s3_service = s3_service (\<lambda>s. s) demo_s3 (queue_of ''main'' ''processing'' ''dead'' 3) 16 [''text/plain'']
     ''https://cdn.example.org/'' ''tenant/a''"

definition demo_s3_state :: "(pg, memory, redis) surroundings" where
  "demo_s3_state = \<lparr>sur_repository = demo_pg, sur_storage = Map.empty, sur_queue = demo_redis,
     sur_random = [Inr (\<lambda>i. CHR 0x5A)]\<rparr>"

text \<open>
  C36. An upload over S3 that returns no error has stored exactly its bytes under the generated key
  below the configured prefix, inserted the pending document and queued its job, for every
  client that behaves as S3 documents.
\<close>

theorem s3_upload_success:
  assumes "s3_client_ok (s3_client store) (s3_bucket store) objs ok" "pg_inv (sur_repository w)" "ok (sur_storage w)"
    and s: "s = s3_service ul store (queue_of main processing dead n) m mts cdn keyPrefix"
    and "configured s" "proper_upload input" "ds_Create ul s actor input w = ((Some d, None), w')"
  shows "\<exists>oid body nd d0. accepted_upload ul s actor input oid body nd \<and> d = setPublicURL s d0 \<and>
    doc_created nd d0 (pg_documents (sur_repository w)) (pg_documents (sur_repository w')) \<and>
    objs (sur_storage w') = (objs (sur_storage w))(nd_StorageKey nd \<mapsto> source_bytes body) \<and>
    waiting_jobs (rd_lists (sur_queue w') main) = waiting_jobs (rd_lists (sur_queue w) main) @ [first_job d0]"
proof -
  note ports = s3_document_ports [OF assms(1), of ul main processing dead n m mts cdn keyPrefix, folded s]
  have "document_ports.sur_ok pg_inv ok w" using assms(2,3) by (simp add: document_ports.sur_ok_def [OF ports])
  then show ?thesis
    by (rule document_ports.create_cases [OF ports _ proper_uploadD [OF assms(6)] assms(7,5)]) auto
qed

theorem s3_upload_success_witness:
  "\<exists>oid. sur_storage (snd (ds_Create (\<lambda>s. s) demo_s3_service demo_actor demo_upload demo_s3_state)) =
     Map.empty(object_key ''tenant/a'' 7 oid \<mapsto> ''hello'')"
proof -
  let ?r = "ds_Create (\<lambda>s. s) demo_s3_service demo_actor demo_upload demo_s3_state"
  have "snd (fst ?r) = None \<and> fst (fst ?r) \<noteq> None" by code_simp
  then have r: "?r = ((Some (the (fst (fst ?r))), None), snd ?r)" by (metis option.collapse prod.collapse)
  have conf: "configured demo_s3_service" by code_simp
  have inv: "pg_inv (sur_repository demo_s3_state)"
    by (simp add: demo_s3_state_def pg_inv_def docs_inv_def demo_pg_def demo_tables_def)
  have ok: "s3_client_ok (s3_client demo_s3) (s3_bucket demo_s3) (\<lambda>w. w) (\<lambda>w. True)"
    by (simp add: demo_s3_def newS3Store_def memory_client_ok)
  from s3_upload_success [OF ok inv _ demo_s3_service_def conf demo_upload_proper r] obtain oid body nd where
    acc: "accepted_upload (\<lambda>s. s) demo_s3_service demo_actor demo_upload oid body nd"
    and st: "sur_storage (snd ?r) = (sur_storage demo_s3_state)(nd_StorageKey nd \<mapsto> source_bytes body)" by blast
  have "sv_storageKeyPrefix demo_s3_service = ''tenant/a''" by code_simp
  then have "nd_StorageKey nd = object_key ''tenant/a'' 7 oid" "source_bytes body = ''hello''"
    using acc by (auto simp: accepted_upload_def demo_upload_def demo_actor_def)
  then show ?thesis using st by (auto simp: demo_s3_state_def)
qed

end
