(* ===== verification/Migrations.thy ===== *)
theory Migrations
  imports External_Calls App_Config
begin

text \<open>
  \<open>cmd/migration/main.go\<close> and \<open>migrations/list\<close>: the command line, the checks of the registered
  migrations, and the runner over PostgreSQL. The state is the application's schema as far as the
  migrations can tell it apart, and the table that records the executed ones. Every command
  runs under the fault script of \<open>External_Calls\<close>; a transaction keeps a snapshot for its rollback.
\<close>

subsection \<open>The database the migrations work on\<close>

record schema =
  sch_roles :: "string list option"
  sch_users :: bool
  sch_sessions :: bool
  sch_documents :: bool

type_synonym records = "(string \<times> instant) list option"
  \<comment> \<open>the rows of \<open>migrations\<close> in the order of insertion, \<open>None\<close> when there is no such table\<close>

record mig_db =
  md_schema :: schema
  md_records :: records
  md_faults :: "fault list"
  md_times :: "instant list"

definition mig_call :: "(schema \<times> records \<Rightarrow> (go_error + 'a) \<times> schema \<times> records) \<Rightarrow> (mig_db, go_error, 'a) call" where
  "mig_call f db =
     (case faulty (md_faults db) f (md_schema db, md_records db) of
        (r, (s, rs), fs) \<Rightarrow> (r, db\<lparr>md_schema := s, md_records := rs, md_faults := fs\<rparr>))"

definition mig_commit :: "schema \<times> records \<Rightarrow> (mig_db, go_error, unit) call" where
  "mig_commit snapshot db =
     (case faulty (md_faults db) (\<lambda>st. (Inr (), (md_schema db, md_records db))) snapshot of
        (r, (s, rs), fs) \<Rightarrow> (r, db\<lparr>md_schema := s, md_records := rs, md_faults := fs\<rparr>))"

definition mig_rollback :: "schema \<times> records \<Rightarrow> mig_db \<Rightarrow> mig_db" where
  "mig_rollback snapshot db =
     (case faulty (md_faults db) (\<lambda>st. (Inr (), st)) snapshot of
        (r, (s, rs), fs) \<Rightarrow> db\<lparr>md_schema := fst snapshot, md_records := snd snapshot, md_faults := fs\<rparr>)"

definition undefined_table :: go_error where
  "undefined_table = PgErr ''42P01'' ''relation does not exist''"
definition dependent_objects :: go_error where
  "dependent_objects = PgErr ''2BP01'' ''cannot drop table because other objects depend on it''"

subsection \<open>The registered migrations\<close>

record migratable =
  mi_Name :: string
  mi_Up :: "schema \<Rightarrow> (go_error + unit) \<times> schema"
  mi_Down :: "schema \<Rightarrow> (go_error + unit) \<times> schema"

definition CreateAuthSchema :: migratable where
  "CreateAuthSchema =
     \<lparr>mi_Name = ''01_create_auth_schema'',
      mi_Up = (\<lambda>s. (Inr (), s\<lparr>sch_roles := Some (case sch_roles s of None \<Rightarrow> [] | Some rs \<Rightarrow> rs),
                              sch_users := True, sch_sessions := True\<rparr>)),
      mi_Down = (\<lambda>s. if sch_users s \<and> sch_documents s then (Inl dependent_objects, s)
                     else (Inr (), s\<lparr>sch_sessions := False, sch_users := False, sch_roles := None\<rparr>))\<rparr>"

definition SeedRoles :: migratable where
  "SeedRoles =
     \<lparr>mi_Name = ''02_seed_roles'',
      mi_Up = (\<lambda>s. case sch_roles s of
          None \<Rightarrow> (Inl undefined_table, s)
        | Some rs \<Rightarrow> (Inr (), s\<lparr>sch_roles := Some (rs @ filter (\<lambda>r. r \<notin> set rs) [''admin'', ''user''])\<rparr>)),
      mi_Down = (\<lambda>s. (Inr (), s))\<rparr>"

definition CreateDocuments :: migratable where
  "CreateDocuments =
     \<lparr>mi_Name = ''03_create_documents'',
      mi_Up = (\<lambda>s. if sch_documents s then (Inr (), s)
                   else if \<not> sch_users s then (Inl undefined_table, s) else (Inr (), s\<lparr>sch_documents := True\<rparr>)),
      mi_Down = (\<lambda>s. (Inr (), s\<lparr>sch_documents := False\<rparr>))\<rparr>"

definition GetMigrations :: "migratable option list" where
  \<comment> \<open>a \<open>Migratable\<close> is an interface value and may be nil\<close>
  "GetMigrations = [Some CreateAuthSchema, Some SeedRoles, Some CreateDocuments]"

definition migration_name_pattern :: "string \<Rightarrow> bool" where
  \<comment> \<open>\<open>^[0-9]{2}_[a-z0-9_]+$\<close>\<close>
  "migration_name_pattern s \<longleftrightarrow> 4 \<le> length s \<and> is_digit (s ! 0) \<and> is_digit (s ! 1) \<and> s ! 2 = CHR ''_'' \<and>
     list_all (\<lambda>c. is_digit c \<or> c = CHR ''_'' \<or> 97 \<le> (of_char c :: nat) \<and> (of_char c :: nat) \<le> 122) (drop 3 s)"

fun validate_from :: "nat \<Rightarrow> string list \<Rightarrow> migratable option list \<Rightarrow> go_error option" where
  "validate_from index seen [] = None"
| "validate_from index seen (None # ms) = Some (FmtError (''migration '' @ format_nat (index + 1) @ '' is nil''))"
| "validate_from index seen (Some m # ms) =
     (if \<not> migration_name_pattern (mi_Name m) then Some (FmtError (''invalid migration name '' @ go_quote (mi_Name m)))
      else if mi_Name m \<in> set seen then Some (FmtError (''duplicate migration '' @ go_quote (mi_Name m)))
      else validate_from (index + 1) (mi_Name m # seen) ms)"

definition ValidateMigrations :: "migratable option list \<Rightarrow> go_error option" where
  "ValidateMigrations migrations = validate_from 0 [] migrations"

subsection \<open>The command line\<close>

definition isCommand :: "string \<Rightarrow> bool" where
  "isCommand v \<longleftrightarrow> v \<in> set [''up'', ''down'', ''status'', ''validate'', ''dry-run'', ''check'']"

text \<open>The environment's name, the command and its arguments; nil and empty slices are one list.\<close>

definition parseCLIArgs :: "string list \<Rightarrow> go_error + string \<times> string \<times> string list" where
  "parseCLIArgs argv =
     (if length argv < 2 then Inl (FmtError ''missing migration command'')
      else if isCommand (argv ! 1) then Inr ('''', argv ! 1, drop 2 argv)
      else if 3 \<le> length argv \<and> isCommand (argv ! 2) then Inr (argv ! 1, argv ! 2, drop 3 argv)
      else Inl (FmtError ''unsupported migration command''))"

definition parseDownSteps :: "string list \<Rightarrow> go_error + int" where
  "parseDownSteps args =
     (case args of
        [] \<Rightarrow> Inr 1
      | [a] \<Rightarrow> (case parse_int a of
                  Inl _ \<Rightarrow> Inl (FmtError ''down steps must be a positive integer'')
                | Inr steps \<Rightarrow> if steps \<le> 0 then Inl (FmtError ''down steps must be a positive integer'') else Inr steps)
      | _ \<Rightarrow> Inl (FmtError ''down accepts one step count''))"

subsection \<open>The runner\<close>

definition ensureMigrationsTable :: "(mig_db, go_error, unit) call" where
  "ensureMigrationsTable =
     mig_call (\<lambda>(s, rs). (Inr (), s, Some (case rs of None \<Rightarrow> [] | Some r \<Rightarrow> r)))"

definition select_executed :: "string \<Rightarrow> schema \<times> records \<Rightarrow> (go_error + bool) \<times> schema \<times> records" where
  "select_executed name st =
     (case snd st of None \<Rightarrow> (Inl undefined_table, st) | Some rs \<Rightarrow> (Inr (name \<in> fst ` set rs), st))"

definition insert_record :: "instant \<Rightarrow> string \<Rightarrow> schema \<times> records \<Rightarrow> (go_error + unit) \<times> schema \<times> records" where
  "insert_record now name st =
     (case snd st of
        None \<Rightarrow> (Inl undefined_table, st)
      | Some rs \<Rightarrow>
          if 255 < length name then (Inl (PgErr ''22001'' ''value too long for type''), st)
          else if name \<in> fst ` set rs then (Inl (PgErr ''23505'' ''duplicate key value violates unique constraint''), st)
          else (Inr (), fst st, Some (rs @ [(name, now)])))"

definition delete_record :: "string \<Rightarrow> schema \<times> records \<Rightarrow> (go_error + unit) \<times> schema \<times> records" where
  "delete_record name st =
     (case snd st of
        None \<Rightarrow> (Inl undefined_table, st)
      | Some rs \<Rightarrow> (Inr (), fst st, Some (filter (\<lambda>r. fst r \<noteq> name) rs)))"

text \<open>
  One migration in its transaction. \<open>NOW()\<close> is the start of the transaction, which the clock
  script gives.
\<close>

definition mig_clock :: "mig_db \<Rightarrow> instant \<times> mig_db" where
  "mig_clock db = (case time_now (md_times db) of (t, ts) \<Rightarrow> (t, db\<lparr>md_times := ts\<rparr>))"

definition in_transaction :: "(schema \<Rightarrow> (go_error + unit) \<times> schema) \<Rightarrow> string
    \<Rightarrow> (instant \<Rightarrow> schema \<times> records \<Rightarrow> (go_error + unit) \<times> schema \<times> records) \<Rightarrow> (mig_db, go_error, unit) call" where
  \<comment> \<open>the body both loops share: begin, change the schema, change the record, commit\<close>
  "in_transaction change failure record_change db =
     (case mig_call (\<lambda>st. (Inr (), st)) db of
        (Inl err, db1) \<Rightarrow> (Inl err, db1)
      | (Inr _, db0) \<Rightarrow>
          (case mig_clock db0 of (now, db1) \<Rightarrow>
             let snapshot = (md_schema db1, md_records db1)
             in case mig_call (\<lambda>(s, rs). case change s of (r, s') \<Rightarrow> (r, s', rs)) db1 of
                  (Inl err, db2) \<Rightarrow> (Inl (FmtWrap (failure @ '': '' @ error_text err) err), mig_rollback snapshot db2)
                | (Inr _, db2) \<Rightarrow>
                    (case mig_call (record_change now) db2 of
                       (Inl err, db3) \<Rightarrow> (Inl err, mig_rollback snapshot db3)
                     | (Inr _, db3) \<Rightarrow> mig_commit snapshot db3)))"

fun migrateUp :: "migratable list \<Rightarrow> (mig_db, go_error, unit) call" where
  "migrateUp [] db = (Inr (), db)"
| "migrateUp (m # ms) db =
     (case mig_call (select_executed (mi_Name m)) db of
        (Inl err, db1) \<Rightarrow> (Inl err, db1)
      | (Inr executed, db1) \<Rightarrow>
          if executed then migrateUp ms db1
          else (case in_transaction (mi_Up m) (''apply '' @ mi_Name m) (\<lambda>now. insert_record now (mi_Name m)) db1 of
                  (Inl err, db2) \<Rightarrow> (Inl err, db2)
                | (Inr _, db2) \<Rightarrow> migrateUp ms db2))"

text \<open>
  \<open>ORDER BY executed_at DESC, migration_name DESC LIMIT n\<close>. The order of names depends on the
  collation, which is the parameter \<open>name_le\<close>.
\<close>

definition later :: "(string \<Rightarrow> string \<Rightarrow> bool) \<Rightarrow> string \<times> instant \<Rightarrow> string \<times> instant \<Rightarrow> bool" where
  "later name_le a b \<longleftrightarrow> snd b < snd a \<or> snd a = snd b \<and> name_le (fst b) (fst a)"

fun insert_desc :: "(string \<Rightarrow> string \<Rightarrow> bool) \<Rightarrow> string \<times> instant \<Rightarrow> (string \<times> instant) list \<Rightarrow> (string \<times> instant) list" where
  "insert_desc name_le r [] = [r]"
| "insert_desc name_le r (x # xs) = (if later name_le r x then r # x # xs else x # insert_desc name_le r xs)"

definition select_last :: "(string \<Rightarrow> string \<Rightarrow> bool) \<Rightarrow> int \<Rightarrow> schema \<times> records \<Rightarrow> (go_error + string list) \<times> schema \<times> records" where
  "select_last name_le steps st =
     (case snd st of
        None \<Rightarrow> (Inl undefined_table, st)
      | Some rs \<Rightarrow> (Inr (take (nat steps) (map fst (foldr (insert_desc name_le) rs []))), st))"

fun down_each :: "migratable list \<Rightarrow> string list \<Rightarrow> (mig_db, go_error, unit) call" where
  "down_each migrations [] db = (Inr (), db)"
| "down_each migrations (name # names) db =
     (case find (\<lambda>m. mi_Name m = name) (rev migrations) of
        None \<Rightarrow> (Inl (FmtError (''recorded migration '' @ go_quote name @ '' is not registered'')), db)
      | Some m \<Rightarrow>
          (case in_transaction (mi_Down m) (''rollback '' @ name) (\<lambda>now. delete_record name) db of
             (Inl err, db1) \<Rightarrow> (Inl err, db1)
           | (Inr _, db1) \<Rightarrow> down_each migrations names db1))"

definition migrateDown :: "(string \<Rightarrow> string \<Rightarrow> bool) \<Rightarrow> migratable list \<Rightarrow> int \<Rightarrow> (mig_db, go_error, unit) call" where
  "migrateDown name_le migrations steps db =
     (case mig_call (select_last name_le steps) db of
        (Inl err, db1) \<Rightarrow> (Inl err, db1)
      | (Inr names, db1) \<Rightarrow> down_each migrations names db1)"

record migration_state =
  mst_Name :: string
  mst_Status :: string

definition select_names :: "schema \<times> records \<Rightarrow> (go_error + string list) \<times> schema \<times> records" where
  "select_names st = (case snd st of None \<Rightarrow> (Inl undefined_table, st) | Some rs \<Rightarrow> (Inr (map fst rs), st))"

fun states_of :: "migratable list \<Rightarrow> string list \<Rightarrow> migration_state list \<times> string list" where
  \<comment> \<open>the states, and the executed names no migration has claimed\<close>
  "states_of [] executed = ([], executed)"
| "states_of (m # ms) executed =
     (let st = (if mi_Name m \<in> set executed then ''EXECUTED'' else ''PENDING'')
      in case states_of ms (removeAll (mi_Name m) executed) of
           (states, unknown) \<Rightarrow> (\<lparr>mst_Name = mi_Name m, mst_Status = st\<rparr> # states, unknown))"

text \<open>
  The unknown names are a set in the source, listed in the order of a map's iteration, which is
  any order: here that of the records.
\<close>

definition migrationStates :: "migratable list \<Rightarrow> (mig_db, go_error, migration_state list) call" where
  "migrationStates migrations db =
     (case mig_call select_names db of
        (Inl err, db1) \<Rightarrow> (Inl err, db1)
      | (Inr executed, db1) \<Rightarrow>
          (case states_of migrations executed of
             (states, unknown) \<Rightarrow>
               if unknown \<noteq> []
               then (Inl (FmtError (''unregistered migration records: '' @
                       concat (map (\<lambda>n. n @ '', '') (butlast unknown)) @ last unknown)), db1)
               else (Inr states, db1)))"

text \<open>
  The program: \<open>overload\<close> is \<open>godotenv.Overload\<close> with the environment it leaves, \<open>connect\<close> is
  \<open>pgxpool.New\<close> for the database's URL.
\<close>

definition run_command :: "(string \<Rightarrow> string \<Rightarrow> bool) \<Rightarrow> migratable list \<Rightarrow> string \<Rightarrow> string list \<Rightarrow> (mig_db, go_error, unit) call" where
  "run_command name_le migrations command args db =
     (if command = ''up'' then migrateUp migrations db
      else if command = ''down'' then
        (case parseDownSteps args of Inl err \<Rightarrow> (Inl err, db) | Inr steps \<Rightarrow> migrateDown name_le migrations steps db)
      else if command = ''status'' \<or> command = ''dry-run'' then
        (case migrationStates migrations db of (Inl err, db') \<Rightarrow> (Inl err, db') | (Inr states, db') \<Rightarrow> (Inr (), db'))
      else if command = ''check'' then mig_call (\<lambda>st. (Inr (), st)) db
      else (Inl (FmtError (''unsupported command '' @ go_quote command)), db))"

definition migration_run :: "(string \<Rightarrow> go_error + url_parts) \<Rightarrow> (int \<Rightarrow> int \<Rightarrow> int \<Rightarrow> int) \<Rightarrow> (string \<Rightarrow> string \<Rightarrow> bool)
    \<Rightarrow> environ \<Rightarrow> (string \<Rightarrow> go_error + environ) \<Rightarrow> (database_config \<Rightarrow> go_error option) \<Rightarrow> string list
    \<Rightarrow> (mig_db, go_error, unit) call" where
  "migration_run url_parse fraction name_le getenv overload connect argv db =
     (case parseCLIArgs argv of
        Inl err \<Rightarrow> (Inl err, db)
      | Inr (envName, command, args) \<Rightarrow>
          (case ValidateMigrations GetMigrations of
             Some err \<Rightarrow> (Inl err, db)
           | None \<Rightarrow>
               if command = ''validate'' then (Inr (), db)
               else (case (if envName \<noteq> '''' \<and> envName \<noteq> ''local'' then overload envName else Inr getenv) of
                       Inl err \<Rightarrow> (Inl (FmtWrap (''load environment '' @ go_quote envName @ '': '' @ error_text err) err), db)
                     | Inr environment \<Rightarrow>
                         (case config_Load url_parse fraction environment of
                            Inl err \<Rightarrow> (Inl err, db)
                          | Inr cfg \<Rightarrow>
                              (case connect (cfg_Database cfg) of
                                 Some err \<Rightarrow> (Inl (FmtWrap (''create PostgreSQL pool: '' @ error_text err) err), db)
                               | None \<Rightarrow>
                                   (case mig_call (\<lambda>st. (Inr (), st)) db of
                                      (Inl err, db1) \<Rightarrow> (Inl (FmtWrap (''ping PostgreSQL: '' @ error_text err) err), db1)
                                    | (Inr _, db1) \<Rightarrow>
                                        (case ensureMigrationsTable db1 of
                                           (Inl err, db2) \<Rightarrow> (Inl err, db2)
                                         | (Inr _, db2) \<Rightarrow> run_command name_le (map the GetMigrations) command args db2)))))))"

end
