(* ===== verification/Migration_Runs.thy ===== *)
theory Migration_Runs
  imports Migrations
begin

text \<open>
  What the migration runner does to a database: it is always at one of the stages between no
  migration and all of them, with the records of exactly those that ran, whatever commands fail.
\<close>

subsection \<open>A transaction does everything or nothing\<close>

definition md_state :: "mig_db \<Rightarrow> schema \<times> records" where
  "md_state db = (md_schema db, md_records db)"

lemma mig_call_cases:
  assumes "mig_call f db = (r, db')"
  obtains (run) "f (md_state db) = (r, md_state db')" "md_times db' = md_times db"
    | (lost) e where "r = Inl e" "md_state db' = md_state db" "md_times db' = md_times db"
    | (applied) e r' where "r = Inl e" "f (md_state db) = (r', md_state db')" "md_times db' = md_times db"
proof -
  obtain s rs fs where f: "faulty (md_faults db) f (md_schema db, md_records db) = (r, (s, rs), fs)"
    and d: "db' = db\<lparr>md_schema := s, md_records := rs, md_faults := fs\<rparr>"
    using assms by (auto simp: mig_call_def split: prod.splits)
  from f show ?thesis by (cases rule: faulty_cases) (auto simp: d md_state_def intro: that)
qed

lemma mig_call_read:
  assumes "mig_call f db = (r, db')" "\<And>st. snd (f st) = st"
  shows "md_state db' = md_state db \<and> md_times db' = md_times db \<and> (\<forall>x. r = Inr x \<longrightarrow> fst (f (md_state db)) = Inr x)"
  using assms(1)
proof (cases rule: mig_call_cases)
  case run
  with assms(2) [of "md_state db"] show ?thesis by simp
next
  case (lost e)
  then show ?thesis by simp
next
  case (applied e r')
  with assms(2) [of "md_state db"] show ?thesis by simp
qed

lemma mig_rollback_state [simp]: "md_state (mig_rollback st db) = st" "md_times (mig_rollback st db) = md_times db"
  by (auto simp: mig_rollback_def md_state_def split: prod.splits)

lemma mig_commit_cases:
  assumes "mig_commit st db = (r, db')"
  shows "md_times db' = md_times db \<and> (md_state db' = md_state db \<or> isl r \<and> md_state db' = st)"
  using assms by (auto simp: mig_commit_def faulty_def md_state_def split: prod.splits list.splits fault.splits)

lemma mig_clock_state: "mig_clock db = (now, db') \<Longrightarrow>
    md_state db' = md_state db \<and> now = fst (time_now (md_times db)) \<and> md_times db' = snd (time_now (md_times db))"
  by (auto simp: mig_clock_def md_state_def split: prod.splits)

lemma in_transaction_cases:
  assumes "in_transaction change failure rc db = (r, db')"
  obtains (unchanged) "isl r" "md_state db' = md_state db"
      "md_times db' = md_times db \<or> md_times db' = snd (time_now (md_times db))"
    | (all) sc st where "change (md_schema db) = (Inr (), sc)"
        "rc (fst (time_now (md_times db))) (sc, md_records db) = (Inr (), st)"
        "md_state db' = st" "md_times db' = snd (time_now (md_times db))"
proof -
  obtain rb db0 where b: "mig_call (\<lambda>st. (Inr (), st)) db = (rb, db0)" by fastforce
  have b0: "md_state db0 = md_state db" "md_times db0 = md_times db" using mig_call_read [OF b] by auto
  obtain now db1 where c: "mig_clock db0 = (now, db1)" by fastforce
  have c1: "md_state db1 = md_state db" "now = fst (time_now (md_times db))" "md_times db1 = snd (time_now (md_times db))"
    using mig_clock_state [OF c] b0 by auto
  let ?ch = "\<lambda>(s, rs). case change s of (r, s') \<Rightarrow> (r, s', rs)"
  obtain r2 db2 where d: "mig_call ?ch db1 = (r2, db2)" by fastforce
  have d2: "md_times db2 = md_times db1" using d by (cases rule: mig_call_cases)
  obtain r3 db3 where e: "mig_call (rc now) db2 = (r3, db3)" by fastforce
  have e3: "md_times db3 = md_times db1" using e d2 by (cases rule: mig_call_cases) auto
  have snap: "(md_schema db1, md_records db1) = md_state db" using c1(1) by (simp add: md_state_def)
  consider (no_tx) "isl rb" | (first) "\<not> isl rb" "isl r2" | (second) "\<not> isl rb" "\<not> isl r2" "isl r3"
    | (commit) "\<not> isl rb" "r2 = Inr ()" "r3 = Inr ()"
    by (cases rb; cases r2; cases r3) auto
  then show ?thesis
  proof cases
    case no_tx
    then have r: "isl r" and d0: "db' = db0" using assms b by (auto simp: in_transaction_def isl_def)
    show ?thesis by (rule unchanged [OF r]) (simp_all add: d0 b0)
  next
    case first
    then have "isl r" "db' = mig_rollback (md_state db) db2"
      using assms b c d snap by (auto simp: in_transaction_def isl_def Let_def split: sum.splits)
    with c1 d2 show ?thesis by (intro unchanged) simp_all
  next
    case second
    then have "isl r" "db' = mig_rollback (md_state db) db3"
      using assms b c d e snap by (auto simp: in_transaction_def isl_def Let_def split: sum.splits)
    with c1 e3 show ?thesis by (intro unchanged) simp_all
  next
    case commit
    have cm: "mig_commit (md_state db) db3 = (r, db')"
      using assms b c d e snap commit by (auto simp: in_transaction_def Let_def split: sum.splits)
    obtain sc where sc: "change (md_schema db) = (Inr (), sc)" "md_state db2 = (sc, md_records db)"
      using d unfolding commit(2) by (cases rule: mig_call_cases) (use c1(1) in \<open>auto simp: md_state_def split: prod.splits\<close>)
    have st: "rc now (sc, md_records db) = (Inr (), md_state db3)"
      using e unfolding commit(3) by (cases rule: mig_call_cases) (use sc(2) in auto)
    from mig_commit_cases [OF cm] have "md_times db' = md_times db3" "md_state db' = md_state db3 \<or> isl r \<and> md_state db' = md_state db"
      by auto
    with sc st c1 e3 show ?thesis by (auto intro: unchanged all)
  qed
qed

subsection \<open>The stages\<close>

definition registered :: "migratable list" where
  "registered = [CreateAuthSchema, SeedRoles, CreateDocuments]"

definition stage_names :: "string list" where
  "stage_names = [''01_create_auth_schema'', ''02_seed_roles'', ''03_create_documents'']"

definition schema_at :: "nat \<Rightarrow> schema \<Rightarrow> bool" where
  "schema_at k s \<longleftrightarrow> sch_users s = (1 \<le> k) \<and> sch_sessions s = (1 \<le> k) \<and> (sch_roles s \<noteq> None) = (1 \<le> k) \<and>
     sch_documents s = (3 \<le> k) \<and> (2 \<le> k \<longrightarrow> (\<exists>rs. sch_roles s = Some rs \<and> {''admin'', ''user''} \<subseteq> set rs))"

text \<open>The clock does not run backwards, and no record is from the future.\<close>

definition clock_ok :: "instant list \<Rightarrow> (string \<times> instant) list \<Rightarrow> bool" where
  "clock_ok ts rs \<longleftrightarrow> ts \<noteq> [] \<and> sorted ts \<and> sorted (map snd rs) \<and> (\<forall>r \<in> set rs. snd r \<le> hd ts)"

definition at_stage :: "nat \<Rightarrow> mig_db \<Rightarrow> bool" where
  "at_stage k db \<longleftrightarrow> k \<le> 3 \<and> schema_at k (md_schema db) \<and>
     (\<exists>rs. md_records db = Some rs \<and> map fst rs = take k stage_names \<and> clock_ok (md_times db) rs)"

lemma clock_ok_advance: "clock_ok ts rs \<Longrightarrow> clock_ok (snd (time_now ts)) rs"
  by (cases ts rule: remdups_adj.cases) (auto simp: clock_ok_def time_now_def)

lemma clock_ok_append:
  assumes "clock_ok ts rs"
  shows "clock_ok (snd (time_now ts)) (rs @ [(n, fst (time_now ts))])"
proof (cases ts)
  case Nil
  with assms show ?thesis by (simp add: clock_ok_def)
next
  case (Cons t ts')
  with assms have "sorted (map snd rs @ [t])" "\<forall>r \<in> set rs. snd r \<le> t" "sorted (t # ts')"
    by (auto simp: clock_ok_def sorted_append)
  with Cons show ?thesis by (cases ts') (auto simp: clock_ok_def time_now_def)
qed

lemma clock_ok_remove: "clock_ok ts (rs @ [r]) \<Longrightarrow> clock_ok ts rs"
  by (simp add: clock_ok_def sorted_append)

lemma at_stage_same:
  assumes "at_stage k db" "md_state db' = md_state db" "md_times db' = md_times db \<or> md_times db' = snd (time_now (md_times db))"
  shows "at_stage k db'"
  using assms clock_ok_advance by (auto simp: at_stage_def md_state_def)

lemma stage_cases: "k \<le> 3 \<Longrightarrow> k = 0 \<or> k = 1 \<or> k = 2 \<or> k = (3::nat)"
  by auto

text \<open>The next migration leads to the next stage, the last one back.\<close>

lemma up_stage:
  assumes "schema_at k s" "k < 3" "mi_Up (registered ! k) s = (Inr (), s')"
  shows "schema_at (Suc k) s'"
proof -
  from assms(2) have "k = 0 \<or> k = 1 \<or> k = 2" by auto
  with assms(1,3) show ?thesis
    by (auto simp: schema_at_def registered_def CreateAuthSchema_def SeedRoles_def CreateDocuments_def split: if_splits)
qed

lemma down_stage:
  assumes "schema_at (Suc k) s" "k < 3" "mi_Down (registered ! k) s = (Inr (), s')"
  shows "schema_at k s'"
proof -
  from assms(2) have "k = 0 \<or> k = 1 \<or> k = 2" by auto
  with assms(1,3) show ?thesis
    by (auto simp: schema_at_def registered_def CreateAuthSchema_def SeedRoles_def CreateDocuments_def split: if_splits)
qed

lemma registered_names: "map mi_Name registered = stage_names"
  by (simp add: registered_def stage_names_def CreateAuthSchema_def SeedRoles_def CreateDocuments_def)

lemma registered_name: "k < 3 \<Longrightarrow> mi_Name (registered ! k) = stage_names ! k"
  using nth_map [of k registered mi_Name] by (simp add: registered_names) (simp add: registered_def)

subsection \<open>The steps of the two loops\<close>

lemma at_stage_records:
  assumes "at_stage k db"
  obtains rs where "md_state db = (md_schema db, Some rs)" "map fst rs = take k stage_names" "k \<le> 3"
    "clock_ok (md_times db) rs" "schema_at k (md_schema db)"
  using assms by (auto simp: at_stage_def md_state_def)

lemma registered_length [simp]: "length registered = 3"
  by (simp add: registered_def)

lemma stage_names_length [simp]: "length stage_names = 3"
  by (simp add: stage_names_def)

lemma stage_names_distinct: "distinct stage_names"
  by (simp add: stage_names_def)

lemma stage_name_executed: "j < 3 \<Longrightarrow> k \<le> 3 \<Longrightarrow> stage_names ! j \<in> set (take k stage_names) \<longleftrightarrow> j < k"
  using stage_names_distinct by (auto simp: in_set_conv_nth nth_eq_iff_index_eq)

lemma take_stage: "k < 3 \<Longrightarrow> take (Suc k) stage_names = take k stage_names @ [stage_names ! k]"
  by (simp add: take_Suc_conv_app_nth)

lemma insert_record_ok:
  "insert_record now name (sc, Some rs) = (Inr (), st) \<Longrightarrow> st = (sc, Some (rs @ [(name, now)]))"
  by (auto simp: insert_record_def split: if_splits)

lemma delete_record_last:
  assumes "map fst rs = take (Suc k) stage_names" "k < 3"
  shows "\<exists>rs' r. rs = rs' @ [r] \<and> map fst rs' = take k stage_names \<and> filter (\<lambda>r. fst r \<noteq> stage_names ! k) rs = rs'"
proof -
  from assms have "map fst rs = take k stage_names @ [stage_names ! k]" by (simp add: take_stage)
  then obtain rs' r where rs: "rs = rs' @ [r]" "map fst rs' = take k stage_names" "fst r = stage_names ! k"
    by (auto simp: map_eq_append_conv)
  have "stage_names ! k \<notin> fst ` set rs'"
    using stage_name_executed [of k k] assms(2) by (simp add: rs(2) flip: set_map)
  then have "filter (\<lambda>r. fst r \<noteq> stage_names ! k) rs' = rs'" by (force simp: filter_id_conv)
  with rs show ?thesis by auto
qed

lemma up_step:
  assumes "at_stage k db" "k < 3"
    and "in_transaction (mi_Up (registered ! k)) w (\<lambda>now. insert_record now (mi_Name (registered ! k))) db = (r, db')"
  shows "at_stage k db' \<and> isl r \<or> at_stage (Suc k) db'"
proof -
  obtain rs where rs: "md_state db = (md_schema db, Some rs)" "map fst rs = take k stage_names"
      "clock_ok (md_times db) rs" "schema_at k (md_schema db)"
    using assms(1) by (rule at_stage_records)
  from assms(3) show ?thesis
  proof (cases rule: in_transaction_cases)
    case unchanged
    with at_stage_same [OF assms(1)] show ?thesis by auto
  next
    case (all sc st)
    from rs(1) have "md_records db = Some rs" by (simp add: md_state_def)
    with all(2,3) have "md_state db' = (sc, Some (rs @ [(stage_names ! k, fst (time_now (md_times db)))]))"
      by (auto simp: registered_name [OF assms(2)] dest!: insert_record_ok)
    moreover have "schema_at (Suc k) sc" using up_stage [OF rs(4) assms(2) all(1)] .
    ultimately have "at_stage (Suc k) db'"
      using rs(2) clock_ok_append [OF rs(3)] all(4) assms(2) by (simp add: at_stage_def md_state_def take_stage)
    then show ?thesis ..
  qed
qed

lemma down_step:
  assumes "at_stage (Suc k) db"
    and "in_transaction (mi_Down (registered ! k)) w (\<lambda>now. delete_record (mi_Name (registered ! k))) db = (r, db')"
  shows "at_stage (Suc k) db' \<and> isl r \<or> at_stage k db'"
proof -
  obtain rs where rs: "md_state db = (md_schema db, Some rs)" "map fst rs = take (Suc k) stage_names" "Suc k \<le> 3"
      "clock_ok (md_times db) rs" "schema_at (Suc k) (md_schema db)"
    using assms(1) by (rule at_stage_records)
  from rs(3) have k: "k < 3" by simp
  from assms(2) show ?thesis
  proof (cases rule: in_transaction_cases)
    case unchanged
    with at_stage_same [OF assms(1)] show ?thesis by auto
  next
    case (all sc st)
    obtain rs' r' where rs': "rs = rs' @ [r']" "map fst rs' = take k stage_names"
        "filter (\<lambda>r. fst r \<noteq> stage_names ! k) rs = rs'"
      using delete_record_last [OF rs(2) k] by blast
    from rs(1) have "md_records db = Some rs" by (simp add: md_state_def)
    with all(2,3) rs'(3) have "md_state db' = (sc, Some rs')"
      by (auto simp: delete_record_def registered_name [OF k])
    moreover have "schema_at k sc" using down_stage [OF rs(5) k all(1)] .
    moreover have "clock_ok (md_times db) rs'" using rs(4) unfolding rs'(1) by (rule clock_ok_remove)
    ultimately have "at_stage k db'"
      using rs'(2) clock_ok_advance all(4) k by (simp add: at_stage_def md_state_def)
    then show ?thesis ..
  qed
qed

subsection \<open>Whole commands\<close>

lemma select_executed_read: "snd (select_executed name st) = st"
  by (auto simp: select_executed_def split: option.splits)

lemma migrateUp_from:
  assumes "at_stage k db" "j \<le> k" "migrateUp (drop j registered) db = (r, db')"
  shows "\<exists>k' \<ge> k. at_stage k' db' \<and> (r = Inr () \<longrightarrow> k' = 3)"
  using assms
proof (induction "drop j registered" arbitrary: j k db rule: list.induct)
  case Nil
  then have "3 \<le> j" by (simp add: registered_def)
  moreover have "k \<le> 3" using Nil.prems(1) by (simp add: at_stage_def)
  ultimately have "k = 3" using Nil.prems(2) by simp
  with Nil show ?case by auto
next
  case (Cons m ms)
  have j: "j < 3" using Cons(2) by (cases "j < 3") auto
  then have d: "drop j registered = registered ! j # drop (Suc j) registered"
    by (simp add: Cons_nth_drop_Suc)
  obtain q db1 where q: "mig_call (select_executed (mi_Name (registered ! j))) db = (q, db1)" by fastforce
  have s1: "md_state db1 = md_state db" and t1: "md_times db1 = md_times db"
      and v1: "\<forall>x. q = Inr x \<longrightarrow> fst (select_executed (mi_Name (registered ! j)) (md_state db)) = Inr x"
    using mig_call_read [OF q select_executed_read] by auto
  have a1: "at_stage k db1" using at_stage_same [OF Cons.prems(1) s1] t1 by simp
  show ?case
  proof (cases q)
    case (Inl e)
    with Cons.prems(3) q a1 show ?thesis by (auto simp: d)
  next
    case (Inr executed)
    obtain rs where rs: "md_state db = (md_schema db, Some rs)" "map fst rs = take k stage_names" "k \<le> 3"
      using Cons.prems(1) by (rule at_stage_records)
    have x: "executed \<longleftrightarrow> j < k"
      using v1 Inr rs(1) stage_name_executed [OF j rs(3)]
      by (simp add: select_executed_def registered_name [OF j] flip: rs(2) set_map)
    show ?thesis
    proof (cases "j < k")
      case True
      then have "migrateUp (drop (Suc j) registered) db1 = (r, db')" using Cons.prems(3) q Inr x by (simp add: d)
      then show ?thesis using Cons(1) [OF _ a1] Cons(2) d True by simp
    next
      case False
      with Cons.prems(2) have k: "k = j" by simp
      obtain q2 db2 where q2: "in_transaction (mi_Up (registered ! j)) (''apply '' @ mi_Name (registered ! j))
          (\<lambda>now. insert_record now (mi_Name (registered ! j))) db1 = (q2, db2)" by fastforce
      have step: "at_stage k db2 \<and> isl q2 \<or> at_stage (Suc k) db2" using up_step q2 a1 j k by simp
      show ?thesis
      proof (cases q2)
        case (Inl e)
        then have "r = Inl e" "db' = db2" using Cons.prems(3) q \<open>q = Inr executed\<close> x False q2 by (auto simp: d)
        with step show ?thesis by (auto intro: le_SucI)
      next
        case (Inr u)
        with step have a2: "at_stage (Suc k) db2" by simp
        have "migrateUp (drop (Suc j) registered) db2 = (r, db')"
          using Cons.prems(3) q \<open>q = Inr executed\<close> x False q2 Inr by (simp add: d)
        then have "\<exists>k' \<ge> Suc k. at_stage k' db' \<and> (r = Inr () \<longrightarrow> k' = 3)"
          using Cons(1) [OF _ a2, of "Suc j"] Cons(2) d k by simp
        then show ?thesis using Suc_leD by blast
      qed
    qed
  qed
qed

text \<open>
  Rolling back. The names come back latest first because the collation orders the registered
  names by their numbers, which settles the records of one instant.
\<close>

definition collation_ok :: "(string \<Rightarrow> string \<Rightarrow> bool) \<Rightarrow> bool" where
  "collation_ok name_le \<longleftrightarrow> sorted_wrt (\<lambda>a b. \<not> name_le b a) stage_names"

lemma insert_desc_last: "\<forall>x \<in> set xs. \<not> later name_le r x \<Longrightarrow> insert_desc name_le r xs = xs @ [r]"
  by (induction xs) auto

lemma insert_desc_rev:
  assumes "sorted (map snd rs)" "sorted_wrt (\<lambda>a b. \<not> name_le b a) (map fst rs)"
  shows "foldr (insert_desc name_le) rs [] = rev rs"
  using assms
proof (induction rs)
  case (Cons r rs)
  have "\<forall>x \<in> set (rev rs). \<not> later name_le r x"
    using Cons.prems by (auto simp: later_def)
  with Cons show ?case by (simp add: insert_desc_last)
qed simp

lemma sorted_wrt_take: "sorted_wrt P xs \<Longrightarrow> sorted_wrt P (take n xs)"
  by (metis append_take_drop_id sorted_wrt_append)

lemma registered_find:
  assumes "k < 3"
  shows "find (\<lambda>m. mi_Name m = stage_names ! k) (rev registered) = Some (registered ! k)"
proof -
  from assms have "k = 0 \<or> k = 1 \<or> k = 2" by auto
  then show ?thesis
    by (auto simp: registered_def stage_names_def CreateAuthSchema_def SeedRoles_def CreateDocuments_def)
qed

lemma down_each_from:
  assumes "at_stage k db" "down_each registered (take n (rev (take k stage_names))) db = (r, db')"
  shows "\<exists>k' \<le> k. k - n \<le> k' \<and> at_stage k' db' \<and> (r = Inr () \<longrightarrow> k' = k - n)"
  using assms
proof (induction n arbitrary: k db)
  case 0
  then show ?case by auto
next
  case (Suc n)
  show ?case
  proof (cases k)
    case 0
    with Suc.prems show ?thesis by auto
  next
    case (Suc j)
    have j: "j < 3" using Suc.prems(1) Suc by (simp add: at_stage_def)
    have names: "take (Suc n) (rev (take k stage_names)) = stage_names ! j # take n (rev (take j stage_names))"
      using j by (simp add: Suc take_stage)
    obtain q db1 where q: "in_transaction (mi_Down (registered ! j)) (''rollback '' @ mi_Name (registered ! j))
        (\<lambda>now. delete_record (mi_Name (registered ! j))) db = (q, db1)" by fastforce
    have step: "at_stage (Suc j) db1 \<and> isl q \<or> at_stage j db1" using down_step q Suc.prems(1) Suc by simp
    show ?thesis
    proof (cases q)
      case (Inl e)
      then have "r = Inl e" "db' = db1"
        using Suc.prems(2) q registered_find [OF j] by (auto simp: names registered_name [OF j])
      with step Suc show ?thesis by (metis Suc_leI Inl_Inr_False diff_le_self le_SucI le_refl diff_Suc_Suc)
    next
      case (Inr u)
      with step have a1: "at_stage j db1" by simp
      have "down_each registered (take n (rev (take j stage_names))) db1 = (r, db')"
        using Suc.prems(2) q registered_find [OF j] Inr by (simp add: names registered_name [OF j])
      from Suc.IH [OF a1 this] show ?thesis using \<open>k = Suc j\<close> by (metis diff_Suc_Suc le_SucI)
    qed
  qed
qed

lemma at_stage_names:
  assumes "at_stage k db" "collation_ok name_le"
  shows "select_last name_le steps (md_state db) = (Inr (take (nat steps) (rev (take k stage_names))), md_state db)"
proof -
  obtain rs where rs: "md_state db = (md_schema db, Some rs)" "map fst rs = take k stage_names" "clock_ok (md_times db) rs"
    using assms(1) by (rule at_stage_records)
  have "map fst (foldr (insert_desc name_le) rs []) = rev (take k stage_names)"
    using insert_desc_rev [of rs name_le] rs(2,3) sorted_wrt_take assms(2)
    by (simp add: clock_ok_def collation_ok_def flip: rev_map)
  with rs(1) show ?thesis by (simp add: select_last_def)
qed

lemma select_last_read: "snd (select_last name_le steps st) = st"
  by (simp add: select_last_def split: option.splits)

lemma migrateDown_from:
  assumes "at_stage k db" "collation_ok name_le" "migrateDown name_le registered steps db = (r, db')"
  shows "\<exists>k' \<le> k. k - nat steps \<le> k' \<and> at_stage k' db' \<and> (r = Inr () \<longrightarrow> k' = k - nat steps)"
proof -
  obtain q db1 where q: "mig_call (select_last name_le steps) db = (q, db1)" by fastforce
  have s1: "md_state db1 = md_state db" and t1: "md_times db1 = md_times db"
      and v1: "\<forall>x. q = Inr x \<longrightarrow> x = take (nat steps) (rev (take k stage_names))"
    using mig_call_read [OF q select_last_read] at_stage_names [OF assms(1,2)] by auto
  have a1: "at_stage k db1" using at_stage_same [OF assms(1) s1] t1 by simp
  show ?thesis
  proof (cases q)
    case (Inl e)
    with assms(3) q a1 show ?thesis by (auto simp: migrateDown_def)
  next
    case (Inr ns)
    with assms(3) q v1 have "down_each registered (take (nat steps) (rev (take k stage_names))) db1 = (r, db')"
      by (simp add: migrateDown_def)
    then show ?thesis by (rule down_each_from [OF a1])
  qed
qed

subsection \<open>Without faults every command succeeds\<close>

lemma mig_call_quiet:
  "md_faults db = [] \<Longrightarrow> mig_call f db = (fst (f (md_state db)),
     db\<lparr>md_schema := fst (snd (f (md_state db))), md_records := snd (snd (f (md_state db))), md_faults := []\<rparr>)"
  by (simp add: mig_call_def faulty_no_fault md_state_def split: prod.splits)

lemma mig_call_quiet_read:
  assumes "md_faults db = []" "\<And>st. snd (f st) = st"
  shows "mig_call f db = (fst (f (md_state db)), db)"
  using assms by (simp add: mig_call_quiet md_state_def)

lemma in_transaction_quiet:
  assumes "md_faults db = []" "change (md_schema db) = (Inr (), sc)"
    and "\<And>now. \<exists>st. rc now (sc, md_records db) = (Inr (), st)"
  shows "\<exists>db'. in_transaction change w rc db = (Inr (), db') \<and> md_faults db' = []"
proof -
  let ?now = "fst (time_now (md_times db))"
  obtain st where st: "rc ?now (sc, md_records db) = (Inr (), st)" using assms(3) by blast
  have clock: "mig_clock d = (fst (time_now (md_times d)), d\<lparr>md_times := snd (time_now (md_times d))\<rparr>)" for d
    by (simp add: mig_clock_def split: prod.splits)
  show ?thesis
    using assms(1,2) st
    by (simp add: in_transaction_def mig_call_quiet clock Let_def md_state_def mig_commit_def faulty_no_fault split: prod.splits)
qed

lemma up_possible: "schema_at k s \<Longrightarrow> k < 3 \<Longrightarrow> \<exists>s'. mi_Up (registered ! k) s = (Inr (), s')"
proof -
  assume s: "schema_at k s" "k < 3"
  from s(2) have "k = 0 \<or> k = 1 \<or> k = 2" by auto
  with s(1) show ?thesis
    by (auto simp: schema_at_def registered_def CreateAuthSchema_def SeedRoles_def CreateDocuments_def)
qed

lemma down_possible: "schema_at (Suc k) s \<Longrightarrow> k < 3 \<Longrightarrow> \<exists>s'. mi_Down (registered ! k) s = (Inr (), s')"
proof -
  assume s: "schema_at (Suc k) s" "k < 3"
  from s(2) have "k = 0 \<or> k = 1 \<or> k = 2" by auto
  with s(1) show ?thesis
    by (auto simp: schema_at_def registered_def CreateAuthSchema_def SeedRoles_def CreateDocuments_def)
qed

lemma stage_name_short: "k < 3 \<Longrightarrow> length (stage_names ! k) \<le> 255"
proof -
  assume "k < 3"
  then have "k = 0 \<or> k = 1 \<or> k = 2" by auto
  then show ?thesis by (auto simp: stage_names_def)
qed

lemma up_step_quiet:
  assumes "at_stage k db" "k < 3" "md_faults db = []"
  shows "\<exists>db'. in_transaction (mi_Up (registered ! k)) w (\<lambda>now. insert_record now (mi_Name (registered ! k))) db = (Inr (), db')
     \<and> md_faults db' = [] \<and> at_stage (Suc k) db'"
proof -
  obtain rs where rs: "md_state db = (md_schema db, Some rs)" "map fst rs = take k stage_names" "k \<le> 3"
      "schema_at k (md_schema db)"
    using assms(1) by (rule at_stage_records)
  from up_possible [OF rs(4) assms(2)] obtain sc where sc: "mi_Up (registered ! k) (md_schema db) = (Inr (), sc)" ..
  have "stage_names ! k \<notin> fst ` set rs" using stage_name_executed [OF assms(2) rs(3)] by (simp flip: rs(2) set_map)
  then have "\<exists>st. insert_record now (mi_Name (registered ! k)) (sc, md_records db) = (Inr (), st)" for now
    using rs(1) stage_name_short [OF assms(2)]
    by (simp add: insert_record_def md_state_def registered_name [OF assms(2)])
  from in_transaction_quiet [OF assms(3), of "mi_Up (registered ! k)", OF sc, of "\<lambda>now. insert_record now (mi_Name (registered ! k))", OF this]
  obtain db' where "in_transaction (mi_Up (registered ! k)) w (\<lambda>now. insert_record now (mi_Name (registered ! k))) db = (Inr (), db')"
      "md_faults db' = []" by blast
  with up_step [OF assms(1,2) this(1)] show ?thesis by simp
qed

lemma down_step_quiet:
  assumes "at_stage (Suc k) db" "md_faults db = []"
  shows "\<exists>db'. in_transaction (mi_Down (registered ! k)) w (\<lambda>now. delete_record (mi_Name (registered ! k))) db = (Inr (), db')
     \<and> md_faults db' = [] \<and> at_stage k db'"
proof -
  obtain rs where rs: "md_state db = (md_schema db, Some rs)" "Suc k \<le> 3" "schema_at (Suc k) (md_schema db)"
    using assms(1) by (rule at_stage_records)
  from rs(2) have "k < 3" by simp
  from down_possible [OF rs(3) this] obtain sc where sc: "mi_Down (registered ! k) (md_schema db) = (Inr (), sc)" ..
  have "\<exists>st. delete_record (mi_Name (registered ! k)) (sc, md_records db) = (Inr (), st)" for now :: instant
    using rs(1) by (simp add: delete_record_def md_state_def)
  from in_transaction_quiet [OF assms(2), of "mi_Down (registered ! k)", OF sc, of "\<lambda>now. delete_record (mi_Name (registered ! k))", OF this]
  obtain db' where "in_transaction (mi_Down (registered ! k)) w (\<lambda>now. delete_record (mi_Name (registered ! k))) db = (Inr (), db')"
      "md_faults db' = []" by blast
  with down_step [OF assms(1) this(1)] show ?thesis by simp
qed

lemma migrateUp_quiet:
  assumes "at_stage k db" "j \<le> k" "md_faults db = []"
  shows "\<exists>db'. migrateUp (drop j registered) db = (Inr (), db') \<and> at_stage 3 db' \<and> md_faults db' = []"
  using assms
proof (induction "3 - j" arbitrary: j k db)
  case 0
  then have "k = 3" by (simp add: at_stage_def)
  with 0 show ?case by auto
next
  case (Suc n)
  then have j: "j < 3" "n = 3 - Suc j" by auto
  then have d: "drop j registered = registered ! j # drop (Suc j) registered"
    by (simp add: Cons_nth_drop_Suc)
  obtain rs where rs: "md_state db = (md_schema db, Some rs)" "map fst rs = take k stage_names" "k \<le> 3"
    using Suc.prems(1) by (rule at_stage_records)
  have q: "mig_call (select_executed (mi_Name (registered ! j))) db = (Inr (j < k), db)"
    using rs(1) stage_name_executed [OF j(1) rs(3)]
    by (simp add: mig_call_quiet_read [OF Suc.prems(3) select_executed_read] select_executed_def registered_name [OF j(1)]
        flip: rs(2) set_map)
  show ?case
  proof (cases "j < k")
    case True
    then show ?thesis using Suc.hyps(1) [OF j(2) Suc.prems(1)] Suc.prems(3) q d by simp
  next
    case False
    with Suc.prems(2) have k: "k = j" by simp
    obtain db2 where "in_transaction (mi_Up (registered ! j)) (''apply '' @ mi_Name (registered ! j))
        (\<lambda>now. insert_record now (mi_Name (registered ! j))) db = (Inr (), db2)" "md_faults db2 = []" "at_stage (Suc j) db2"
      using up_step_quiet Suc.prems(1,3) j(1) k by blast
    then show ?thesis using Suc.hyps(1) [OF j(2), of "Suc j" db2] q False d by simp
  qed
qed

lemma down_each_quiet:
  assumes "at_stage k db" "md_faults db = []"
  shows "\<exists>db'. down_each registered (take n (rev (take k stage_names))) db = (Inr (), db') \<and> at_stage (k - n) db'
     \<and> md_faults db' = []"
  using assms
proof (induction n arbitrary: k db)
  case (Suc n)
  show ?case
  proof (cases k)
    case 0
    with Suc.prems show ?thesis by auto
  next
    case (Suc j)
    have j: "j < 3" using Suc.prems(1) Suc by (simp add: at_stage_def)
    have names: "take (Suc n) (rev (take k stage_names)) = stage_names ! j # take n (rev (take j stage_names))"
      using j by (simp add: Suc take_stage)
    obtain db1 where "in_transaction (mi_Down (registered ! j)) (''rollback '' @ mi_Name (registered ! j))
        (\<lambda>now. delete_record (mi_Name (registered ! j))) db = (Inr (), db1)" "md_faults db1 = []" "at_stage j db1"
      using down_step_quiet Suc.prems Suc by blast
    with Suc.IH [OF this(3,2)] registered_find [OF j] show ?thesis by (simp add: names [unfolded Suc] registered_name [OF j] Suc)
  qed
qed auto

lemma migrateDown_quiet:
  assumes "at_stage k db" "collation_ok name_le" "md_faults db = []"
  shows "\<exists>db'. migrateDown name_le registered steps db = (Inr (), db') \<and> at_stage (k - nat steps) db' \<and> md_faults db' = []"
  using down_each_quiet [OF assms(1,3)]
  by (simp add: migrateDown_def mig_call_quiet_read [OF assms(3) select_last_read] at_stage_names [OF assms(1,2)])

end
