(* ===== verification/Config_Checks.thy ===== *)
theory Config_Checks
  imports App_Config
begin

text \<open>
  What a configuration that loads without an error guarantees to the components that are built
  from it, and how a value written to the environment is read back.
\<close>

definition config_ok :: "config \<Rightarrow> bool" where
  "config_ok c \<longleftrightarrow> 32 \<le> length (jc_Secret (cfg_JWT c)) \<and>
     1 \<le> dc_Port (cfg_Database c) \<and> dc_Port (cfg_Database c) \<le> 65535 \<and>
     1 \<le> dc_MaxOpenConns (cfg_Database c) \<and> dc_MaxOpenConns (cfg_Database c) < 2 ^ 31 \<and>
     0 \<le> dc_MaxIdleConns (cfg_Database c) \<and> dc_MaxIdleConns (cfg_Database c) < 2 ^ 31 \<and>
     0 < dc_ConnMaxLifetime (cfg_Database c) \<and>
     1 \<le> rc_DocumentMaxAttempts (cfg_Redis c) \<and> rc_DocumentMaxAttempts (cfg_Redis c) < 2 ^ 63 \<and>
     1 \<le> sc_MaxUploadBytes (cfg_Storage c) \<and> sc_MaxUploadBytes (cfg_Storage c) < 2 ^ 63 \<and>
     0 < jc_AccessTokenExpiry (cfg_JWT c) \<and> 0 < jc_RefreshTokenExpiry (cfg_JWT c) \<and>
     sc_AllowedMediaTypes (cfg_Storage c) \<noteq> [] \<and>
     (sc_Driver (cfg_Storage c) = ''local'' \<or>
      sc_Driver (cfg_Storage c) = ''s3'' \<and> validS3Prefix (s3c_Prefix (sc_S3 (cfg_Storage c))))"

named_theorems env_ok_iff \<open>when reading a variable succeeds\<close>

lemma envInt_range [env_ok_iff]: "envInt g k d = Inr n \<Longrightarrow> in_int64 d \<Longrightarrow> in_int64 n"
  by (auto simp: envInt_def Let_def split: if_splits sum.splits dest: parse_int_range)

lemma envInt64_range [env_ok_iff]: "envInt64 g k d = Inr n \<Longrightarrow> in_int64 d \<Longrightarrow> in_int64 n"
  by (auto simp: envInt64_def Let_def split: if_splits sum.splits dest: parse_int_range)

lemma envDuration_pos [env_ok_iff]: "envDuration fr g k d = Inr n \<Longrightarrow> 0 < d \<Longrightarrow> 0 < n"
  by (auto simp: envDuration_def Let_def split: if_splits option.splits)

lemma validate_None:
  assumes "config_Validate up c = None"
  shows "32 \<le> length (jc_Secret (cfg_JWT c))" "1 \<le> dc_Port (cfg_Database c)" "dc_Port (cfg_Database c) \<le> 65535"
    "1 \<le> dc_MaxOpenConns (cfg_Database c)" "0 \<le> dc_MaxIdleConns (cfg_Database c)"
    "1 \<le> rc_DocumentMaxAttempts (cfg_Redis c)" "1 \<le> sc_MaxUploadBytes (cfg_Storage c)"
    "sc_AllowedMediaTypes (cfg_Storage c) \<noteq> []" "validate_storage up (cfg_Storage c) = None"
  using assms by (auto simp: config_Validate_def split: if_splits)

lemma load_parts:
  assumes "config_Load up fr g = Inr cfg"
  obtains b dbPort maxOpen maxIdle life redisDB attempts acc ref upl b' where
    "envInt g ''REDIS_DOCUMENT_MAX_ATTEMPTS'' 3 = Inr attempts"
    "envDuration fr g ''DB_CONN_MAX_LIFETIME'' (5 * 60000000000) = Inr life"
    "envDuration fr g ''JWT_ACCESS_TOKEN_EXPIRY'' (8 * 3600000000000) = Inr acc"
    "envDuration fr g ''JWT_REFRESH_TOKEN_EXPIRY'' (720 * 3600000000000) = Inr ref"
    "envInt64 g ''STORAGE_MAX_UPLOAD_BYTES'' (10 * 1024 * 1024) = Inr upl"
    "cfg = make_config g b dbPort maxOpen maxIdle life redisDB attempts acc ref upl b'"
    "config_Validate up cfg = None"
  using assms by (auto simp: config_Load_def on_ok_Inr Let_def split: option.splits)

lemma load_ok:
  assumes "config_Load up fr g = Inr cfg"
  shows "config_ok cfg"
proof (rule load_parts [OF assms])
  fix b dbPort maxOpen maxIdle life redisDB attempts acc ref upl b'
  assume e: "envInt g ''REDIS_DOCUMENT_MAX_ATTEMPTS'' 3 = Inr attempts"
    "envDuration fr g ''DB_CONN_MAX_LIFETIME'' (5 * 60000000000) = Inr life"
    "envDuration fr g ''JWT_ACCESS_TOKEN_EXPIRY'' (8 * 3600000000000) = Inr acc"
    "envDuration fr g ''JWT_REFRESH_TOKEN_EXPIRY'' (720 * 3600000000000) = Inr ref"
    "envInt64 g ''STORAGE_MAX_UPLOAD_BYTES'' (10 * 1024 * 1024) = Inr upl"
    and c: "cfg = make_config g b dbPort maxOpen maxIdle life redisDB attempts acc ref upl b'"
    and v: "config_Validate up cfg = None"
  have "in_int64 attempts" "in_int64 upl" "0 < life" "0 < acc" "0 < ref"
    using envInt_range [OF e(1)] envDuration_pos [OF e(2)] envDuration_pos [OF e(3)] envDuration_pos [OF e(4)]
      envInt64_range [OF e(5)] by (simp_all add: in_int64_def)
  moreover have "wrap_signed 32 x < 2 ^ 31" for x using wrap_signed_range [of 32 x] by simp
  moreover have "sc_Driver (cfg_Storage cfg) = ''local'' \<or>
      sc_Driver (cfg_Storage cfg) = ''s3'' \<and> validS3Prefix (s3c_Prefix (sc_S3 (cfg_Storage cfg)))"
    using validate_None(9) [OF v] by (auto simp: validate_storage_def split: if_splits)
  moreover have "rc_DocumentMaxAttempts (cfg_Redis cfg) = attempts" "sc_MaxUploadBytes (cfg_Storage cfg) = upl"
    "dc_ConnMaxLifetime (cfg_Database cfg) = life" "jc_AccessTokenExpiry (cfg_JWT cfg) = acc"
    "jc_RefreshTokenExpiry (cfg_JWT cfg) = ref" "dc_MaxOpenConns (cfg_Database cfg) = wrap_signed 32 maxOpen"
    "dc_MaxIdleConns (cfg_Database cfg) = wrap_signed 32 maxIdle"
    by (simp_all add: c make_config_def)
  ultimately show ?thesis using validate_None [OF v] by (simp add: config_ok_def in_int64_def)
qed

text \<open>
  C37. Every configuration that loads without an error is within its bounds, whatever the
  environment holds: the secret is long enough, the port is one, the pool sizes fit 32 bits in
  spite of the truncating conversion, attempts and upload limit are positive 64-bit numbers,
  the expiries are positive, and the driver is one of the two with a checked key prefix.
\<close>

theorem loaded_config_ok:
  assumes "config_Load url_parse fraction getenv = Inr cfg"
  shows "config_ok cfg"
  by (rule load_ok) (rule assms)

definition demo_environ :: environ where
  "demo_environ key = (if key = ''JWT_SECRET'' then replicate 32 (CHR ''k'')
     else if key = ''JWT_ACCESS_TOKEN_EXPIRY'' then ''1h30m'' else if key = ''DB_MAX_OPEN_CONNS'' then ''4294967306'' else '''')"

definition demo_fraction :: "int \<Rightarrow> int \<Rightarrow> int \<Rightarrow> int" where
  "demo_fraction f unit scale = f * unit div scale"

theorem loaded_config_ok_witness:
  "case config_Load (\<lambda>s. Inl (FmtError ''no url'')) demo_fraction demo_environ of
     Inl e \<Rightarrow> False
   | Inr cfg \<Rightarrow> config_ok cfg \<and> dc_MaxOpenConns (cfg_Database cfg) = 10 \<and> jc_AccessTokenExpiry (cfg_JWT cfg) = 5400000000000"
proof -
  let ?l = "config_Load (\<lambda>s. Inl (FmtError ''no url'')) demo_fraction demo_environ"
  have c: "case ?l of Inl e \<Rightarrow> False
   | Inr cfg \<Rightarrow> dc_MaxOpenConns (cfg_Database cfg) = 10 \<and> jc_AccessTokenExpiry (cfg_JWT cfg) = 5400000000000"
    by code_simp
  then obtain cfg where l: "?l = Inr cfg" by (cases ?l) auto
  from loaded_config_ok [OF l] c l show ?thesis by simp
qed

lemma trim_space_format_int [simp]: "trim_space (format_int n) = format_int n"
proof -
  have nosp: "\<not> has_prefix s p" if "p \<in> set space_runes" "s \<noteq> []" "is_digit (hd s) \<or> hd s = CHR ''-''" for s p
    using that by (cases s) (auto simp: space_runes_def has_prefix_def is_digit_def)
  have norev: "\<not> has_prefix s p" if "p \<in> set (map rev space_runes)" "s \<noteq> []" "is_digit (hd s)" for s p
    using that by (cases s) (auto simp: space_runes_def has_prefix_def is_digit_def)
  have ne: "format_int n \<noteq> []" by (simp add: format_int_def)
  have "is_digit (hd (format_int n)) \<or> hd (format_int n) = CHR ''-''"
    using format_int_chars ne by (meson hd_in_set)
  then have l: "trim_runes space_runes (format_int n) = format_int n" using nosp ne by (intro trim_runes_id) blast
  have "is_digit (last (format_int n))"
    by (auto simp: format_int_def intro!: format_nat_digits [OF last_in_set])
  then have "is_digit (hd (rev (format_int n)))" by (simp add: hd_rev)
  then have "trim_runes (map rev space_runes) (rev (format_int n)) = rev (format_int n)"
    using norev ne by (intro trim_runes_id) (metis rev_is_Nil_conv)
  with l show ?thesis by (simp add: trim_space_def)
qed



end
