(* ===== verification/Migration_Checks.thy ===== *)
theory Migration_Checks
  imports Migration_Runs Config_Checks
begin

text \<open>
  The properties of the migration program: the databases it can meet and leave behind, what each
  command achieves, and which lists of migrations its check accepts.
\<close>

subsection \<open>The databases of the program\<close>

definition fresh_db :: "mig_db \<Rightarrow> bool" where
  "fresh_db db \<longleftrightarrow> schema_at 0 (md_schema db) \<and> md_records db = None \<and> md_times db \<noteq> [] \<and> sorted (md_times db)"

definition db_consistent :: "mig_db \<Rightarrow> bool" where
  "db_consistent db \<longleftrightarrow> fresh_db db \<or> (\<exists>k. at_stage k db)"

lemma consistent_same: "db_consistent db \<Longrightarrow> md_state db' = md_state db \<Longrightarrow> md_times db' = md_times db \<Longrightarrow> db_consistent db'"
  using at_stage_same [of _ db db'] by (auto simp: db_consistent_def fresh_db_def md_state_def)

lemma consistent_ping: "db_consistent db \<Longrightarrow> mig_call (\<lambda>st. (Inr (), st)) db = (r, db') \<Longrightarrow> db_consistent db'"
  using mig_call_read [of "\<lambda>st. (Inr (), st)" db r db'] consistent_same by simp

lemma ensure_stage:
  assumes "db_consistent db" "ensureMigrationsTable db = (r, db')"
  shows "db_consistent db' \<and> (r = Inr () \<longrightarrow> (\<exists>k. at_stage k db'))"
proof -
  let ?made = "(md_schema db, Some (case md_records db of None \<Rightarrow> [] | Some rs \<Rightarrow> rs))"
  from assms(2) have eff: "md_state db' = ?made \<or> isl r \<and> md_state db' = md_state db" and t: "md_times db' = md_times db"
    by (auto simp: ensureMigrationsTable_def md_state_def elim!: mig_call_cases)
  have made: "\<exists>k. at_stage k db'" if m: "md_state db' = ?made"
  proof (cases "fresh_db db")
    case True
    with m t have "at_stage 0 db'" by (auto simp: fresh_db_def at_stage_def clock_ok_def md_state_def)
    then show ?thesis ..
  next
    case False
    with assms(1) obtain k where k: "at_stage k db" by (auto simp: db_consistent_def)
    with m have "md_state db' = md_state db" by (auto simp: at_stage_def md_state_def)
    with at_stage_same [OF k] t show ?thesis by blast
  qed
  with eff t consistent_same [OF assms(1)] show ?thesis by (auto simp: db_consistent_def)
qed

lemma run_command_stage:
  assumes "at_stage k db" "collation_ok name_le" "run_command name_le registered command args db = (r, db')"
  shows "\<exists>k'. at_stage k' db'"
proof -
  consider (up) "migrateUp registered db = (r, db')"
    | (down) steps where "migrateDown name_le registered steps db = (r, db')"
    | (states) x where "migrationStates registered db = (x, db')"
    | (ping) "mig_call (\<lambda>st. (Inr (), st)) db = (r, db')"
    | (refused) "db' = db"
    using assms(3) by (auto simp: run_command_def split: if_splits sum.splits prod.splits)
  then show ?thesis
  proof cases
    case up
    then show ?thesis using migrateUp_from [OF assms(1), of 0] by auto
  next
    case (down steps)
    then show ?thesis using migrateDown_from [OF assms(1,2)] by blast
  next
    case (states x)
    then obtain q where "mig_call select_names db = (q, db')"
      by (cases "mig_call select_names db") (auto simp: migrationStates_def split: sum.splits prod.splits if_splits)
    from mig_call_read [OF this] have "md_state db' = md_state db" "md_times db' = md_times db"
      by (auto simp: select_names_def split: option.splits)
    with at_stage_same [OF assms(1)] show ?thesis by blast
  next
    case ping
    from mig_call_read [OF this] at_stage_same [OF assms(1)] show ?thesis by auto
  next
    case refused
    with assms(1) show ?thesis by blast
  qed
qed

lemma registered_get: "map the GetMigrations = registered"
  by (simp add: GetMigrations_def registered_def)

text \<open>
  C31. Whatever the command line, the environment and the failures of the connection, a run of the
  migration program takes a database at a stage between no migration and all of them to one at
  such a stage: the schema is always the one of a prefix of the registered migrations and the
  records name exactly that prefix.
\<close>

theorem migration_run_stage:
  assumes "db_consistent db" "collation_ok name_le"
    and "migration_run url_parse fraction name_le getenv overload connect argv db = (r, db')"
  shows "db_consistent db'"
proof -
  consider "db' = db" | r1 where "mig_call (\<lambda>st. (Inr (), st)) db = (r1, db')"
    | (table) db1 r2 where "mig_call (\<lambda>st. (Inr (), st)) db = (Inr (), db1)" "ensureMigrationsTable db1 = (r2, db')"
    | (command) db1 db2 c args where "mig_call (\<lambda>st. (Inr (), st)) db = (Inr (), db1)"
        "ensureMigrationsTable db1 = (Inr (), db2)" "run_command name_le registered c args db2 = (r, db')"
    using assms(3) by (auto simp: migration_run_def registered_get split: sum.splits prod.splits option.splits if_splits)
  then show ?thesis
  proof cases
    case 1
    with assms(1) show ?thesis by simp
  next
    case 2
    with assms(1) consistent_ping show ?thesis by blast
  next
    case table
    with assms(1) consistent_ping ensure_stage show ?thesis by blast
  next
    case command
    then have "db_consistent db2 \<and> (\<exists>k. at_stage k db2)" using assms(1) consistent_ping ensure_stage by blast
    with run_command_stage [OF _ assms(2) command(3)] show ?thesis by (auto simp: db_consistent_def)
  qed
qed

text \<open>A new database, and what \<open>up\<close> makes of it while one answer gets lost.\<close>

definition new_db :: mig_db where
  "new_db = \<lparr>md_schema = \<lparr>sch_roles = None, sch_users = False, sch_sessions = False, sch_documents = False\<rparr>,
     md_records = None, md_faults = replicate 7 Proceed @ [FailAfter (PgErr ''08006'' ''connection failure'')], md_times = [10, 20]\<rparr>"

definition ascii_le :: "string \<Rightarrow> string \<Rightarrow> bool" where
  "ascii_le a b \<longleftrightarrow> map (of_char :: char \<Rightarrow> nat) a = map of_char b \<or>
     (map of_char a, map of_char b) \<in> lexord {(x :: nat, y). x < y}"

lemma ascii_collation: "collation_ok ascii_le"
  by (simp add: collation_ok_def stage_names_def ascii_le_def)

lemma new_db_consistent: "db_consistent new_db"
  by (simp add: db_consistent_def fresh_db_def schema_at_def new_db_def)

theorem migration_run_stage_witness:
  "db_consistent (snd (migration_run (\<lambda>s. Inl (FmtError ''no url'')) demo_fraction ascii_le demo_environ
      (\<lambda>name. Inr demo_environ) (\<lambda>c. None) [''migration'', ''up''] new_db)) \<and>
   md_records (snd (migration_run (\<lambda>s. Inl (FmtError ''no url'')) demo_fraction ascii_le demo_environ
      (\<lambda>name. Inr demo_environ) (\<lambda>c. None) [''migration'', ''up''] new_db)) = Some [(''01_create_auth_schema'', 10)]"
proof -
  let ?d = "migration_run (\<lambda>s. Inl (FmtError ''no url'')) demo_fraction ascii_le demo_environ
      (\<lambda>name. Inr demo_environ) (\<lambda>c. None) [''migration'', ''up''] new_db"
  have "md_records (snd ?d) = Some [(''01_create_auth_schema'', 10)]" by code_simp
  then show ?thesis using migration_run_stage [OF new_db_consistent ascii_collation prod.collapse [symmetric, of ?d]] by blast
qed

subsection \<open>What the commands achieve\<close>


definition migrated_db :: mig_db where
  "migrated_db = \<lparr>md_schema = \<lparr>sch_roles = Some [''admin'', ''user''], sch_users = True, sch_sessions = True, sch_documents = True\<rparr>,
     md_records = Some (zip stage_names [5, 5, 5]), md_faults = [Proceed, FailBefore (PgErr ''57014'' ''canceled'')], md_times = [7]\<rparr>"

lemma migrated_stage: "at_stage 3 migrated_db"
  by (simp add: at_stage_def schema_at_def clock_ok_def migrated_db_def stage_names_def)


text \<open>
  C33. Applying the migrations and rolling the new ones back is a round trip: from stage \<open>k\<close>, with
  a connection that does not fail, \<open>up\<close> succeeds and reaches the last stage, and \<open>down\<close> by the
  number of migrations it ran succeeds and leaves the schema and the records of stage \<open>k\<close>.
\<close>

theorem up_down_roundtrip:
  assumes "at_stage k db" "collation_ok name_le" "md_faults db = []"
  shows "case migrateUp registered db of (r, db1) \<Rightarrow> r = Inr () \<and> at_stage 3 db1 \<and>
    (case migrateDown name_le registered (int (3 - k)) db1 of (r', db2) \<Rightarrow> r' = Inr () \<and> at_stage k db2)"
proof -
  have k: "k \<le> 3" using assms(1) by (simp add: at_stage_def)
  obtain db1 where up: "migrateUp registered db = (Inr (), db1)" "at_stage 3 db1" "md_faults db1 = []"
    using migrateUp_quiet [OF assms(1) _ assms(3), of 0] by auto
  obtain db2 where "migrateDown name_le registered (int (3 - k)) db1 = (Inr (), db2)" "at_stage (3 - (3 - k)) db2"
    using migrateDown_quiet [OF up(2) assms(2) up(3), of "int (3 - k)"] unfolding nat_int by blast
  with up k show ?thesis by simp
qed

theorem up_down_roundtrip_witness:
  "case migrateUp registered (migrated_db\<lparr>md_faults := []\<rparr>) of (r, db1) \<Rightarrow> r = Inr () \<and> at_stage 3 db1 \<and>
    (case migrateDown ascii_le registered (int (3 - 3)) db1 of (r', db2) \<Rightarrow> r' = Inr () \<and> at_stage 3 db2)"
  by (rule up_down_roundtrip [OF _ ascii_collation]) (use migrated_stage in \<open>simp_all add: at_stage_def\<close>)

lemma states_of_stage:
  assumes "k \<le> 3"
  shows "states_of registered (take k stage_names) =
     (map (\<lambda>j. \<lparr>mst_Name = stage_names ! j, mst_Status = (if j < k then ''EXECUTED'' else ''PENDING'')\<rparr>) [0..<3], [])"
proof -
  from assms have "k = 0 \<or> k = 1 \<or> k = 2 \<or> k = 3" by auto
  then show ?thesis
    by (auto simp: registered_def stage_names_def CreateAuthSchema_def SeedRoles_def CreateDocuments_def upt_conv_Cons)
qed



subsection \<open>The check of the registered migrations\<close>

definition well_registered :: "migratable option list \<Rightarrow> bool" where
  "well_registered ms \<longleftrightarrow> None \<notin> set ms \<and> list_all (\<lambda>m. migration_name_pattern (mi_Name (the m))) ms \<and>
     distinct (map (\<lambda>m. mi_Name (the m)) ms)"

lemma validate_from_ok: "validate_from index seen ms = None \<longleftrightarrow>
    well_registered ms \<and> set seen \<inter> (\<lambda>m. mi_Name (the m)) ` set ms = {}"
  by (induction index seen ms rule: validate_from.induct) (auto simp: well_registered_def)

text \<open>
  C35. The check accepts exactly the lists of migrations without a nil, with names of the form two
  digits, underscore, lower-case rest, and no name twice; the list the program registers passes.
\<close>

theorem ValidateMigrations_iff:
  "(ValidateMigrations ms = None \<longleftrightarrow> well_registered ms) \<and> ValidateMigrations GetMigrations = None"
proof -
  have "ValidateMigrations GetMigrations = None" by code_simp
  then show ?thesis by (simp add: ValidateMigrations_def validate_from_ok)
qed

end
