(* ===== verification/Http_Context.thy ===== *)
theory Http_Context
  imports App_Errors Auth_Service Document_Service
begin

text \<open>
  The HTTP side of the program: requests, the Gin context a chain of handlers works on, the error
  answer of \<open>pkg/errors/gin.go\<close> and the middlewares of \<open>internal/middleware\<close>. Gin is a third-party
  package: its binding of bodies, multipart files and routes are parameters, collected in
  \<open>gin_lib\<close>; a context is the record of what the program reads and writes of it. Answers carry
  the values the program hands to \<open>c.JSON\<close>, not their encoding.
\<close>

subsection \<open>Requests and answers\<close>

record http_request =
  rq_Method :: string
  rq_Path :: string
  rq_Header :: "string \<Rightarrow> string"
  rq_Query :: "string \<Rightarrow> string"
  rq_Body :: bytes

datatype context_value = ActorValue actor | TextValue string

datatype http_body =
    NoBody
  | HealthBody
  | ErrorBody (eb_Code: string) (eb_Message: string) (eb_RequestID: string)
  | AuthBody auth_result
  | UserBody user
  | DocumentBody document
  | PageBody "document page"
  | StreamBody int string source

record gin_context =
  gc_Request :: http_request
  gc_Param :: "string \<Rightarrow> string"
  gc_Keys :: "string \<Rightarrow> context_value option"
  gc_Status :: int
  gc_Header :: "string \<Rightarrow> string option"
  gc_Body :: http_body
  gc_Aborted :: bool

type_synonym 'w handler = "gin_context \<Rightarrow> 'w \<Rightarrow> gin_context \<times> 'w"

definition new_context :: "http_request \<Rightarrow> gin_context" where
  "new_context r = \<lparr>gc_Request = r, gc_Param = (\<lambda>_. ''''), gc_Keys = (\<lambda>_. None), gc_Status = 200,
     gc_Header = (\<lambda>_. None), gc_Body = NoBody, gc_Aborted = False\<rparr>"

definition c_JSON :: "int \<Rightarrow> http_body \<Rightarrow> gin_context \<Rightarrow> gin_context" where
  "c_JSON status body c = c\<lparr>gc_Status := status, gc_Body := body\<rparr>"

text \<open>A chain: a handler runs unless an earlier one aborted.\<close>

fun run_chain :: "'w handler list \<Rightarrow> 'w handler" where
  "run_chain [] c w = (c, w)"
| "run_chain (h # hs) c w =
     (if gc_Aborted c then (c, w) else case h c w of (c', w') \<Rightarrow> run_chain hs c' w')"

subsection \<open>pkg/errors/gin.go\<close>

definition RequestIDContextKey :: string where "RequestIDContextKey = ''request_id''"

definition stringValue :: "context_value option \<Rightarrow> string" where
  "stringValue v = (case v of Some (TextValue t) \<Rightarrow> t | _ \<Rightarrow> '''')"

definition WriteGin :: "go_error \<Rightarrow> gin_context \<Rightarrow> gin_context" where
  "WriteGin err c =
     (let appErr = As err; requestID = gc_Keys c RequestIDContextKey
      in c_JSON (Status appErr) (ErrorBody (Code appErr) (Message appErr) (stringValue requestID)) c)"

definition AbortGin :: "go_error \<Rightarrow> gin_context \<Rightarrow> gin_context" where
  "AbortGin err c = (WriteGin err c)\<lparr>gc_Aborted := True\<rparr>"

subsection \<open>The middlewares\<close>

definition RequestIDHeader :: string where "RequestIDHeader = ''X-Request-ID''"
definition ActorContextKey :: string where "ActorContextKey = ''actor''"

definition newRequestID :: "entropy \<Rightarrow> string \<times> entropy" where
  "newRequestID es = (case rand_read 16 es of
     (Inl err, es') \<Rightarrow> (''request-unavailable'', es')
   | (Inr buffer, es') \<Rightarrow> (hex_encode buffer, es'))"

text \<open>\<open>entropy_call\<close> runs a function of the entropy source on the server's state.\<close>

definition RequestID :: "((entropy \<Rightarrow> string \<times> entropy) \<Rightarrow> 'w \<Rightarrow> string \<times> 'w) \<Rightarrow> 'w handler" where
  "RequestID entropy_call c w =
     (let given = trim_space (rq_Header (gc_Request c) RequestIDHeader);
          (requestID, w1) = (if given = '''' \<or> 128 < length given then entropy_call newRequestID w else (given, w))
      in (c\<lparr>gc_Keys := (gc_Keys c)(RequestIDContextKey \<mapsto> TextValue requestID),
            gc_Header := (gc_Header c)(RequestIDHeader \<mapsto> requestID)\<rparr>, w1))"

text \<open>\<open>validate\<close> is \<open>ValidateAccessToken\<close> of the manager on the server's state.\<close>

definition middleware_Auth :: "(string \<Rightarrow> ('w, go_error, claims) call) \<Rightarrow> 'w handler" where
  "middleware_Auth validate c w =
     (let token = ExtractBearerToken (rq_Header (gc_Request c) ''Authorization'')
      in if token = '''' then (AbortGin ErrAuthInvalidTokenFormat c, w)
         else case validate token w of
           (Inl err, w1) \<Rightarrow> (AbortGin ErrAuthInvalidToken c, w1)
         | (Inr claims, w1) \<Rightarrow>
             (case parse_int (cl_UserID claims) of
                Inl _ \<Rightarrow> (AbortGin ErrAuthInvalidToken c, w1)
              | Inr userID \<Rightarrow>
                  if userID \<le> 0 then (AbortGin ErrAuthInvalidToken c, w1)
                  else (c\<lparr>gc_Keys := (gc_Keys c)(ActorContextKey \<mapsto>
                            ActorValue \<lparr>act_UserID = userID, act_Role = cl_Role claims\<rparr>)\<rparr>, w1)))"

definition GetActor :: "gin_context \<Rightarrow> actor option" where
  "GetActor c = (case gc_Keys c ActorContextKey of Some (ActorValue a) \<Rightarrow> Some a | _ \<Rightarrow> None)"

subsection \<open>Facts\<close>

lemma c_JSON_simps [simp]:
  "gc_Status (c_JSON s b c) = s" "gc_Body (c_JSON s b c) = b" "gc_Keys (c_JSON s b c) = gc_Keys c"
  "gc_Header (c_JSON s b c) = gc_Header c" "gc_Aborted (c_JSON s b c) = gc_Aborted c" "gc_Request (c_JSON s b c) = gc_Request c"
  by (simp_all add: c_JSON_def)

lemma WriteGin_simps [simp]:
  "gc_Status (WriteGin e c) = Status (As e)"
  "gc_Body (WriteGin e c) = ErrorBody (Code (As e)) (Message (As e)) (stringValue (gc_Keys c RequestIDContextKey))"
  "gc_Keys (WriteGin e c) = gc_Keys c" "gc_Header (WriteGin e c) = gc_Header c"
  "gc_Aborted (WriteGin e c) = gc_Aborted c" "gc_Request (WriteGin e c) = gc_Request c"
  by (simp_all add: WriteGin_def Let_def)

lemma AbortGin_simps [simp]:
  "gc_Status (AbortGin e c) = Status (As e)"
  "gc_Body (AbortGin e c) = ErrorBody (Code (As e)) (Message (As e)) (stringValue (gc_Keys c RequestIDContextKey))"
  "gc_Keys (AbortGin e c) = gc_Keys c" "gc_Header (AbortGin e c) = gc_Header c"
  "gc_Aborted (AbortGin e c)" "gc_Request (AbortGin e c) = gc_Request c"
  by (simp_all add: AbortGin_def)

lemma run_chain_aborted [simp]: "gc_Aborted c \<Longrightarrow> run_chain hs c w = (c, w)"
  by (cases hs) auto

lemma run_chain_append: "run_chain (hs @ hs') c w = (case run_chain hs c w of (c', w') \<Rightarrow> run_chain hs' c' w')"
  by (induction hs arbitrary: c w) (auto split: prod.splits)

end
