(* ===== verification/Http_Handlers.thy ===== *)
theory Http_Handlers
  imports Http_Context Request_Validator
begin

text \<open>
  \<open>internal/handler\<close>: the endpoints over the two services, which are the interfaces the
  handlers declare, and the header of a download, for which \<open>mime.FormatMediaType\<close> of the
  standard library is modelled.
\<close>

record file_header =
  fh_Filename :: string
  fh_Size :: int
  fh_ContentType :: string
  fh_Open :: "go_error + source"

text \<open>
  Gin: binding a JSON body to a struct whose fields are all required, the multipart file of a
  name, the route of a request among the registered methods and patterns with its parameters,
  and \<open>gin-contrib/cors\<close>.
\<close>

record cors_config =
  cors_AllowOrigins :: "string list"
  cors_AllowMethods :: "string list"
  cors_AllowHeaders :: "string list"
  cors_ExposeHeaders :: "string list"
  cors_MaxAge :: int

record gin_lib =
  gin_BindCredentials :: "http_request \<Rightarrow> go_error + string \<times> string"
  gin_BindRefresh :: "http_request \<Rightarrow> go_error + string"
  gin_FormFile :: "http_request \<Rightarrow> string \<Rightarrow> go_error + file_header"
  gin_Route :: "(string \<times> string) list \<Rightarrow> http_request \<Rightarrow> (nat \<times> (string \<Rightarrow> string)) option"
  gin_Cors :: "cors_config \<Rightarrow> gin_context \<Rightarrow> gin_context"

subsection \<open>mime.FormatMediaType\<close>

definition is_tspecial :: "char \<Rightarrow> bool" where
  "is_tspecial c \<longleftrightarrow> c \<in> set ''()<>@,;:/[]?='' \<or> c = CHR 0x22 \<or> c = backslash"

definition is_token_char :: "char \<Rightarrow> bool" where
  "is_token_char c \<longleftrightarrow> (let n = (of_char c :: nat) in 0x20 < n \<and> n < 0x7F \<and> \<not> is_tspecial c)"

definition needs_encoding :: "string \<Rightarrow> bool" where
  "needs_encoding s \<longleftrightarrow> list_ex (\<lambda>c. let n = (of_char c :: nat) in (n < 0x20 \<or> 0x7E < n) \<and> n \<noteq> 9) s"

definition upper_hex :: "nat \<Rightarrow> char" where
  "upper_hex n = ''0123456789ABCDEF'' ! n"

definition percent_byte :: "char \<Rightarrow> string" where
  "percent_byte c =
     (let n = (of_char c :: nat)
      in if n \<le> 0x20 \<or> 0x7F \<le> n \<or> c = CHR ''*'' \<or> c = CHR 0x27 \<or> c = CHR ''%'' \<or> is_tspecial c
         then [CHR ''%'', upper_hex (n div 16), upper_hex (n mod 16)] else [c])"

definition quoted_byte :: "char \<Rightarrow> string" where
  "quoted_byte c = (if c = CHR 0x22 \<or> c = backslash then [backslash, c] else [c])"

definition format_parameter :: "string \<Rightarrow> string \<Rightarrow> string" where
  "format_parameter attribute v =
     (if needs_encoding v then attribute @ ''*=utf-8'' @ [CHR 0x27, CHR 0x27] @ concat (map percent_byte v)
      else if v \<noteq> '''' \<and> list_all is_token_char v then attribute @ ''='' @ v
      else attribute @ ''='' @ [CHR 0x22] @ concat (map quoted_byte v) @ [CHR 0x22])"

definition content_disposition :: "string \<Rightarrow> string" where
  \<comment> \<open>\<open>mime.FormatMediaType("attachment", map[string]string{"filename": name})\<close>\<close>
  "content_disposition name = ''attachment; '' @ format_parameter ''filename'' name"

subsection \<open>auth.go\<close>

record 'w auth_api =
  aap_Register :: "register_input \<Rightarrow> ('w, go_error, auth_result) call"
  aap_Login :: "login_input \<Rightarrow> ('w, go_error, auth_result) call"
  aap_Refresh :: "string \<Rightarrow> ('w, go_error, auth_result) call"
  aap_Logout :: "string \<Rightarrow> ('w, go_error, unit) call"
  aap_Me :: "int \<Rightarrow> ('w, go_error, user) call"

definition h_Register :: "gin_lib \<Rightarrow> 'w auth_api \<Rightarrow> 'w handler" where
  "h_Register gin api c w =
     (case gin_BindCredentials gin (gc_Request c) of
        Inl err \<Rightarrow> (WriteGin (WithMessage ErrAuthInvalidBody ''email and password are required'') c, w)
      | Inr (email, password) \<Rightarrow>
          (case aap_Register api \<lparr>ri_Email = email, ri_Password = password\<rparr> w of
             (Inl err, w1) \<Rightarrow> (WriteGin err c, w1)
           | (Inr result, w1) \<Rightarrow> (c_JSON 201 (AuthBody result) c, w1)))"

definition h_Login :: "gin_lib \<Rightarrow> 'w auth_api \<Rightarrow> 'w handler" where
  "h_Login gin api c w =
     (case gin_BindCredentials gin (gc_Request c) of
        Inl err \<Rightarrow> (WriteGin ErrAuthInvalidBody c, w)
      | Inr (email, password) \<Rightarrow>
          (case aap_Login api \<lparr>li_Email = email, li_Password = password\<rparr> w of
             (Inl err, w1) \<Rightarrow> (WriteGin err c, w1)
           | (Inr result, w1) \<Rightarrow> (c_JSON 200 (AuthBody result) c, w1)))"

definition h_Refresh :: "gin_lib \<Rightarrow> 'w auth_api \<Rightarrow> 'w handler" where
  "h_Refresh gin api c w =
     (case gin_BindRefresh gin (gc_Request c) of
        Inl err \<Rightarrow> (WriteGin ErrAuthInvalidBody c, w)
      | Inr token \<Rightarrow>
          (case aap_Refresh api token w of
             (Inl err, w1) \<Rightarrow> (WriteGin err c, w1)
           | (Inr result, w1) \<Rightarrow> (c_JSON 200 (AuthBody result) c, w1)))"

definition h_Logout :: "gin_lib \<Rightarrow> 'w auth_api \<Rightarrow> 'w handler" where
  "h_Logout gin api c w =
     (case gin_BindRefresh gin (gc_Request c) of
        Inl err \<Rightarrow> (WriteGin ErrAuthInvalidBody c, w)
      | Inr token \<Rightarrow>
          (case aap_Logout api token w of
             (Inl err, w1) \<Rightarrow> (WriteGin err c, w1)
           | (Inr _, w1) \<Rightarrow> (c\<lparr>gc_Status := 204\<rparr>, w1)))"

definition h_Me :: "'w auth_api \<Rightarrow> 'w handler" where
  "h_Me api c w =
     (case GetActor c of
        None \<Rightarrow> (WriteGin ErrAuthUnauthorized c, w)
      | Some actor \<Rightarrow>
          (case aap_Me api (act_UserID actor) w of
             (Inl err, w1) \<Rightarrow> (WriteGin err c, w1)
           | (Inr user, w1) \<Rightarrow> (c_JSON 200 (UserBody user) c, w1)))"

subsection \<open>document.go\<close>

record 'w document_api =
  dap_Create :: "actor \<Rightarrow> upload_input \<Rightarrow> 'w \<Rightarrow> (document option \<times> go_error option) \<times> 'w"
  dap_Get :: "actor \<Rightarrow> int \<Rightarrow> ('w, go_error, document) call"
  dap_List :: "actor \<Rightarrow> pagination \<Rightarrow> ('w, go_error, document page) call"
  dap_Download :: "actor \<Rightarrow> int \<Rightarrow> ('w, go_error, stored_object \<times> document) call"
  dap_Delete :: "actor \<Rightarrow> int \<Rightarrow> ('w, go_error, unit) call"

text \<open>
  A service that returns neither a document nor an error would make gin answer \<open>null\<close>; no
  branch of the service does.
\<close>

definition h_Create :: "gin_lib \<Rightarrow> 'w document_api \<Rightarrow> 'w handler" where
  "h_Create gin api c w =
     (case GetActor c of
        None \<Rightarrow> (WriteGin ErrDocumentUnauthorized c, w)
      | Some actor \<Rightarrow>
          (case gin_FormFile gin (gc_Request c) ''file'' of
             Inl err \<Rightarrow> (WriteGin (WithMessage ErrDocumentInvalidRequest ''multipart file field is required'') c, w)
           | Inr header \<Rightarrow>
               (case fh_Open header of
                  Inl err \<Rightarrow> (WriteGin ErrDocumentInvalidRequest c, w)
                | Inr body \<Rightarrow>
                    (case dap_Create api actor \<lparr>in_OriginalName = fh_Filename header, in_MediaType = fh_ContentType header,
                            in_SizeBytes = fh_Size header, in_Body = Some body\<rparr> w of
                       ((_, Some err), w1) \<Rightarrow> (WriteGin err c, w1)
                     | ((Some document, None), w1) \<Rightarrow> (c_JSON 201 (DocumentBody document) c, w1)
                     | ((None, None), w1) \<Rightarrow> (c_JSON 201 NoBody c, w1)))))"

definition actorAndID :: "gin_context \<Rightarrow> gin_context + actor \<times> int" where
  \<comment> \<open>\<open>Inl\<close> when the answer has been written\<close>
  "actorAndID c =
     (case GetActor c of
        None \<Rightarrow> Inl (WriteGin ErrDocumentUnauthorized c)
      | Some actor \<Rightarrow>
          let rejected = WriteGin (WithMessage ErrDocumentInvalidRequest (''invalid document id '' @ go_quote (gc_Param c ''id''))) c
          in (case parse_int (gc_Param c ''id'') of
                Inl _ \<Rightarrow> Inl rejected
              | Inr did \<Rightarrow> if did \<le> 0 then Inl rejected else Inr (actor, did)))"

definition h_Get :: "'w document_api \<Rightarrow> 'w handler" where
  "h_Get api c w =
     (case actorAndID c of
        Inl c1 \<Rightarrow> (c1, w)
      | Inr (actor, did) \<Rightarrow>
          (case dap_Get api actor did w of
             (Inl err, w1) \<Rightarrow> (WriteGin err c, w1)
           | (Inr document, w1) \<Rightarrow> (c_JSON 200 (DocumentBody document) c, w1)))"

definition h_List :: "'w document_api \<Rightarrow> 'w handler" where
  "h_List api c w =
     (case GetActor c of
        None \<Rightarrow> (WriteGin ErrDocumentUnauthorized c, w)
      | Some actor \<Rightarrow>
          (case valid_Pagination (rq_Query (gc_Request c) ''page'') (rq_Query (gc_Request c) ''page_size'') 20 100 of
             Inl err \<Rightarrow> (WriteGin (WithMessage ErrDocumentInvalidRequest (error_text err)) c, w)
           | Inr (page, pageSize) \<Rightarrow>
               (case dap_List api actor \<lparr>pgn_Page = page, pgn_PageSize = pageSize\<rparr> w of
                  (Inl err, w1) \<Rightarrow> (WriteGin err c, w1)
                | (Inr result, w1) \<Rightarrow> (c_JSON 200 (PageBody result) c, w1))))"

definition h_Download :: "'w document_api \<Rightarrow> 'w handler" where
  "h_Download api c w =
     (case actorAndID c of
        Inl c1 \<Rightarrow> (c1, w)
      | Inr (actor, did) \<Rightarrow>
          (case dap_Download api actor did w of
             (Inl err, w1) \<Rightarrow> (WriteGin err c, w1)
           | (Inr (object, document), w1) \<Rightarrow>
               (c\<lparr>gc_Status := 200,
                  gc_Header := (gc_Header c)(''Content-Disposition'' \<mapsto> content_disposition (doc_OriginalName document)),
                  gc_Body := StreamBody (obj_SizeBytes object) (doc_MediaType document) (obj_Body object)\<rparr>, w1)))"

definition h_Delete :: "'w document_api \<Rightarrow> 'w handler" where
  "h_Delete api c w =
     (case actorAndID c of
        Inl c1 \<Rightarrow> (c1, w)
      | Inr (actor, did) \<Rightarrow>
          (case dap_Delete api actor did w of
             (Inl err, w1) \<Rightarrow> (WriteGin err c, w1)
           | (Inr _, w1) \<Rightarrow> (c\<lparr>gc_Status := 204\<rparr>, w1)))"

end
