(* ===== verification/Http_Router.thy ===== *)
theory Http_Router
  imports Http_Handlers
begin

text \<open>
  \<open>internal/router/router.go\<close>: the middlewares and the table of routes, and what the engine does
  with a request. Which route a request takes is Gin's; the chain it runs is the program's.
\<close>

record 'w engine =
  en_Use :: "'w handler list"
  en_Routes :: "((string \<times> string) \<times> 'w handler list) list"

record 'w router_config =
  rt_JWT :: "(string \<Rightarrow> ('w, go_error, claims) call) option"
  rt_AuthHandler :: "'w auth_api option"
  rt_DocumentHandler :: "'w document_api option"
  rt_AllowedOrigins :: "string list"

definition health :: "'w handler" where
  "health c w = (c_JSON 200 HealthBody c, w)"

definition cors_settings :: "string list \<Rightarrow> cors_config" where
  "cors_settings origins =
     \<lparr>cors_AllowOrigins = origins, cors_AllowMethods = [''GET'', ''POST'', ''DELETE'', ''OPTIONS''],
      cors_AllowHeaders = [''Authorization'', ''Content-Type'', ''X-Request-ID''],
      cors_ExposeHeaders = [''X-Request-ID'', ''Content-Disposition''], cors_MaxAge = 12 * 3600 * 1000000000\<rparr>"

definition middlewares :: "gin_lib \<Rightarrow> ((entropy \<Rightarrow> string \<times> entropy) \<Rightarrow> 'w \<Rightarrow> string \<times> 'w) \<Rightarrow> string list \<Rightarrow> 'w handler list" where
  \<comment> \<open>\<open>gin.Recovery\<close> does nothing unless a later handler panics\<close>
  "middlewares gin entropy_call origins =
     RequestID entropy_call #
     (if origins \<noteq> [] then [\<lambda>c w. (gin_Cors gin (cors_settings origins) c, w)] else [])"

definition auth_routes :: "gin_lib \<Rightarrow> (string \<Rightarrow> ('w, go_error, claims) call) \<Rightarrow> 'w auth_api \<Rightarrow> ((string \<times> string) \<times> 'w handler list) list" where
  "auth_routes gin jwt h =
     [((''POST'', ''/api/v1/auth/register''), [h_Register gin h]),
      ((''POST'', ''/api/v1/auth/login''), [h_Login gin h]),
      ((''POST'', ''/api/v1/auth/refresh''), [h_Refresh gin h]),
      ((''POST'', ''/api/v1/auth/logout''), [h_Logout gin h]),
      ((''GET'', ''/api/v1/auth/me''), [middleware_Auth jwt, h_Me h])]"

definition document_routes :: "gin_lib \<Rightarrow> (string \<Rightarrow> ('w, go_error, claims) call) \<Rightarrow> 'w document_api \<Rightarrow> ((string \<times> string) \<times> 'w handler list) list" where
  "document_routes gin jwt h =
     [((''POST'', ''/api/v1/documents''), [middleware_Auth jwt, h_Create gin h]),
      ((''GET'', ''/api/v1/documents''), [middleware_Auth jwt, h_List h]),
      ((''GET'', ''/api/v1/documents/:id''), [middleware_Auth jwt, h_Get h]),
      ((''GET'', ''/api/v1/documents/:id/download''), [middleware_Auth jwt, h_Download h]),
      ((''DELETE'', ''/api/v1/documents/:id''), [middleware_Auth jwt, h_Delete h])]"

definition router_New :: "gin_lib \<Rightarrow> ((entropy \<Rightarrow> string \<times> entropy) \<Rightarrow> 'w \<Rightarrow> string \<times> 'w) \<Rightarrow> 'w router_config \<Rightarrow> 'w engine" where
  "router_New gin entropy_call cfg =
     \<lparr>en_Use = middlewares gin entropy_call (rt_AllowedOrigins cfg),
      en_Routes = ((''GET'', ''/health''), [health]) #
        (case (rt_JWT cfg, rt_AuthHandler cfg, rt_DocumentHandler cfg) of
           (Some jwt, Some ah, Some dh) \<Rightarrow> auth_routes gin jwt ah @ document_routes gin jwt dh
         | _ \<Rightarrow> [])\<rparr>"

text \<open>
  A request: the middlewares, then the chain of the route Gin picks, or its 404 answer.
\<close>

definition no_route :: "'w handler" where
  "no_route c w = (c\<lparr>gc_Status := 404\<rparr>, w)"

definition serve :: "gin_lib \<Rightarrow> 'w engine \<Rightarrow> http_request \<Rightarrow> 'w \<Rightarrow> gin_context \<times> 'w" where
  "serve gin e r w =
     (case gin_Route gin (map fst (en_Routes e)) r of
        None \<Rightarrow> run_chain (en_Use e @ [no_route]) (new_context r) w
      | Some (n, ps) \<Rightarrow>
          if n < length (en_Routes e)
          then run_chain (en_Use e @ snd (en_Routes e ! n)) ((new_context r)\<lparr>gc_Param := ps\<rparr>) w
          else run_chain (en_Use e @ [no_route]) (new_context r) w)"

end
