(* ===== verification/Server_Frames.thy ===== *)
theory Server_Frames
  imports Auth_Steps Program_Steps
begin

text \<open>
  The two services share one database. A relation between its states that every statement of a
  repository keeps is kept by every operation of the service over it: that is how the accounts
  stay untouched by work on documents, and the documents by work on accounts.
\<close>

subsection \<open>Operations of the authentication service\<close>

locale auth_frame =
  fixes s :: "'p auth_service" and R :: "'p \<Rightarrow> 'p \<Rightarrow> bool"
  assumes R_refl: "R p p"
    and R_trans: "R p q \<Longrightarrow> R q r \<Longrightarrow> R p r"
    and R_CreateUser: "ar_CreateUser (as_repository s) e h ro p = (ru, p') \<Longrightarrow> R p p'"
    and R_GetUserByEmail: "ar_GetUserByEmail (as_repository s) e p = (ru, p') \<Longrightarrow> R p p'"
    and R_GetUserByID: "ar_GetUserByID (as_repository s) uid p = (ru, p') \<Longrightarrow> R p p'"
    and R_CreateSession: "ar_CreateRefreshSession (as_repository s) ss p = (rn, p') \<Longrightarrow> R p p'"
    and R_GetSession: "ar_GetRefreshSessionByTokenID (as_repository s) tid p = (rs, p') \<Longrightarrow> R p p'"
    and R_Rotate: "ar_RotateRefreshSession (as_repository s) tid ss p = (rn, p') \<Longrightarrow> R p p'"
    and R_Revoke: "ar_RevokeRefreshSession (as_repository s) tid p = (rn, p') \<Longrightarrow> R p p'"
begin

abbreviation "K w w' \<equiv> R (aw_repository w) (aw_repository w')"

lemma K_trans: "K w w1 \<Longrightarrow> K w1 w2 \<Longrightarrow> K w w2"
  by (rule R_trans)

lemma newSession_frame: "newSession L s u w = (r, w') \<Longrightarrow> K w w'"
  using newSession_repository R_refl by metis

lemma users_frames:
  "on_users (ar_CreateUser (as_repository s) e h ro) w = (ru, w') \<Longrightarrow> K w w'"
  "on_users (ar_GetUserByEmail (as_repository s) e) w = (ru, w') \<Longrightarrow> K w w'"
  "on_users (ar_GetUserByID (as_repository s) uid) w = (ru, w') \<Longrightarrow> K w w'"
  "on_users (ar_CreateRefreshSession (as_repository s) ss) w = (rn, w') \<Longrightarrow> K w w'"
  "on_users (ar_GetRefreshSessionByTokenID (as_repository s) tid) w = (rs, w') \<Longrightarrow> K w w'"
  "on_users (ar_RotateRefreshSession (as_repository s) tid ss) w = (rn, w') \<Longrightarrow> K w w'"
  "on_users (ar_RevokeRefreshSession (as_repository s) tid) w = (rn, w') \<Longrightarrow> K w w'"
  by (auto simp: on_users_def split: prod.splits
      intro: R_CreateUser R_GetUserByEmail R_GetUserByID R_CreateSession R_GetSession R_Rotate R_Revoke)

lemma hash_frame: "HashPassword lib pw w = (r, w') \<Longrightarrow> K w w'"
  using HashPassword_repository R_refl by metis

lemma usable_frame: "session_usable L token ss w = (b, w') \<Longrightarrow> K w w'"
  using session_usable_repository R_refl by metis

lemma validate_frame: "ValidateRefreshToken lib m v w = (r, w') \<Longrightarrow> K w w'"
  unfolding ValidateRefreshToken_def using jwt_validate_repository R_refl by metis

lemmas frames = newSession_frame users_frames hash_frame usable_frame validate_frame

lemma issue_frame: "issueAndPersist L s u w = (r, w') \<Longrightarrow> K w w'"
  by (auto simp: issueAndPersist_def split: prod.splits sum.splits dest!: frames) (meson R_trans)+

lemma register_frame: "as_Register L s ri w = (r, w') \<Longrightarrow> K w w'"
  by (auto simp: as_Register_def R_refl split: prod.splits sum.splits if_splits dest!: frames issue_frame) (meson R_trans)+

lemma login_frame: "as_Login L s li w = (r, w') \<Longrightarrow> K w w'"
  by (auto simp: as_Login_def R_refl split: prod.splits sum.splits if_splits dest!: frames issue_frame) (meson R_trans)+

lemma rotate_frame: "rotate_session L s tid u w = (r, w') \<Longrightarrow> K w w'"
  by (auto simp: rotate_session_def R_refl split: prod.splits sum.splits if_splits dest!: frames) (meson R_trans)+

lemma refresh_frame: "as_Refresh L s token w = (r, w') \<Longrightarrow> K w w'"
  by (auto simp: as_Refresh_def split: prod.splits sum.splits if_splits dest!: frames rotate_frame) (meson R_trans)+

lemma logout_frame: "as_Logout L s token w = (r, w') \<Longrightarrow> K w w'"
  by (auto simp: as_Logout_def split: prod.splits sum.splits dest!: frames) (meson R_trans)+

lemma me_frame: "as_Me s uid w = (r, w') \<Longrightarrow> K w w'"
  by (auto simp: as_Me_def split: prod.splits sum.splits dest!: frames)

end

text \<open>The authentication service keeps the documents, and keeps the ids of all users.\<close>

definition keeps_documents :: "pg \<Rightarrow> pg \<Rightarrow> bool" where
  "keeps_documents db db' \<longleftrightarrow> t_documents (pg_tables db') = t_documents (pg_tables db) \<and>
     t_documents_seq (pg_tables db') = t_documents_seq (pg_tables db) \<and>
     dbu_ID ` set (t_users (pg_tables db)) \<subseteq> dbu_ID ` set (t_users (pg_tables db'))"

definition documents_kept :: "tables \<Rightarrow> tables \<Rightarrow> bool" where
  "documents_kept t0 t \<longleftrightarrow> t_documents t = t_documents t0 \<and> t_documents_seq t = t_documents_seq t0 \<and>
     dbu_ID ` set (t_users t0) \<subseteq> dbu_ID ` set (t_users t)"

lemma documents_kept_statements:
  "preserves (documents_kept t0) (sql_CreateRefreshSession p)" "preserves (documents_kept t0) (sql_CreateUser lower e h ro)"
  "preserves (documents_kept t0) (sql_GetRefreshSessionByTokenID tid)" "preserves (documents_kept t0) (sql_GetUserByEmail lower e)"
  "preserves (documents_kept t0) (sql_GetUserByID uid)" "preserves (documents_kept t0) (sql_RevokeRefreshSession tid)"
  "preserves (documents_kept t0) (sql_RotateRefreshSession rep tid)"
  by (auto simp: preserves_def documents_kept_def sql_CreateRefreshSession_def sql_CreateUser_def
      sql_GetRefreshSessionByTokenID_def sql_GetUserByEmail_def sql_GetUserByID_def sql_RevokeRefreshSession_def
      sql_RotateRefreshSession_def Let_def split: sum.splits option.splits list.splits)

lemma documents_kept_iff: "keeps_documents db db' \<longleftrightarrow> documents_kept (pg_tables db) (pg_tables db')"
  by (simp add: keeps_documents_def documents_kept_def)

lemma documents_kept_refl [simp]: "documents_kept t t"
  by (simp add: documents_kept_def)

lemma pg_call_keeps_documents:
  assumes "\<And>t0. preserves (documents_kept t0) stmt" "pg_call stmt db = (r, db')"
  shows "keeps_documents db db'"
  using pg_call_preserves [OF assms(1) assms(2)] by (simp add: documents_kept_iff)

lemmas auth_calls_keep = documents_kept_statements [THEN pg_call_keeps_documents]

lemma keeps_documents_refl [simp]: "keeps_documents db db"
  by (simp add: documents_kept_iff)

lemma keeps_documents_trans: "keeps_documents a b \<Longrightarrow> keeps_documents b c \<Longrightarrow> keeps_documents a c"
  by (auto simp: keeps_documents_def)

lemma tx_begin_keeps: "tx_begin db = (r, db') \<Longrightarrow> keeps_documents db db'"
  unfolding tx_begin_def by (rule pg_call_keeps_documents) (auto simp: preserves_def)

lemma tx_rollback_keeps: "keeps_documents db0 db \<Longrightarrow> keeps_documents db0 (tx_rollback (pg_tables db0) db)"
  by (auto simp: keeps_documents_def tx_rollback_def rolled_back_def split: prod.splits)

lemma tx_commit_keeps: "keeps_documents db0 db \<Longrightarrow> tx_commit (pg_tables db0) db = (r, db') \<Longrightarrow> keeps_documents db0 db'"
  by (auto simp: keeps_documents_def tx_commit_def rolled_back_def split: prod.splits if_splits)

lemma rotate_keeps_documents:
  assumes "au_RotateRefreshSession old ss db = (r, db')"
  shows "keeps_documents db db'"
proof -
  obtain rb db1 where b: "tx_begin db = (rb, db1)" by fastforce
  obtain r1 db2 where r1: "pg_call (sql_RotateRefreshSession (ses_TokenID ss) old) db1 = (r1, db2)" by fastforce
  obtain r2 db3 where r2: "pg_call (sql_CreateRefreshSession (refreshSessionParams ss)) db2 = (r2, db3)" by fastforce
  have k: "keeps_documents db db1" "keeps_documents db1 db2" "keeps_documents db2 db3"
    using tx_begin_keeps [OF b] auth_calls_keep(7) [OF r1] auth_calls_keep(1) [OF r2] by auto
  have "keeps_documents db1 db' \<or> db' = db1"
    using assms b r1 r2 k(2) keeps_documents_trans [OF k(2,3)] tx_rollback_keeps tx_commit_keeps
    by (auto simp: au_RotateRefreshSession_def Let_def split: sum.splits if_splits)
  with k(1) keeps_documents_trans show ?thesis by blast
qed

interpretation auth_documents: auth_frame "app_auth lower m" keeps_documents
  for lower m
proof (unfold_locales, goal_cases)
  case 8
  then show ?case by (auto simp: pg_auth_repository_def intro: rotate_keeps_documents)
qed (auto simp: pg_auth_repository_def au_CreateUser_def au_GetUserByEmail_def au_GetUserByID_def au_CreateRefreshSession_def
    au_GetRefreshSessionByTokenID_def au_RevokeRefreshSession_def keeps_documents_trans split: prod.splits sum.splits
    intro: keeps_documents_trans dest: auth_calls_keep)

subsection \<open>Operations on documents\<close>

locale document_frame =
  fixes repo :: "'p document_repository" and R :: "'p \<Rightarrow> 'p \<Rightarrow> bool"
  assumes R_refl: "R p p"
    and R_trans: "R p q \<Longrightarrow> R q r \<Longrightarrow> R p r"
    and R_Create: "repo_Create repo nd p = (rd, p') \<Longrightarrow> R p p'"
    and R_GetByID: "repo_GetByID repo did p = (rd, p') \<Longrightarrow> R p p'"
    and R_List: "repo_List repo ow pgn p = (rl, p') \<Longrightarrow> R p p'"
    and R_SoftDelete: "repo_SoftDelete repo did p = (rn, p') \<Longrightarrow> R p p'"
    and R_Claim: "repo_ClaimProcessing repo did p = (rb, p') \<Longrightarrow> R p p'"
    and R_MarkReady: "repo_MarkReady repo did chk n p = (rn, p') \<Longrightarrow> R p p'"
    and R_MarkFailed: "repo_MarkFailed repo did msg p = (rn, p') \<Longrightarrow> R p p'"
begin

abbreviation "K w w' \<equiv> R (sur_repository w) (sur_repository w')"

lemma repository_frames:
  "on_repository (repo_Create repo nd) w = (rd, w') \<Longrightarrow> K w w'"
  "on_repository (repo_GetByID repo did) w = (rd, w') \<Longrightarrow> K w w'"
  "on_repository (repo_List repo ow pgn) w = (rl, w') \<Longrightarrow> K w w'"
  "on_repository (repo_SoftDelete repo did) w = (rn, w') \<Longrightarrow> K w w'"
  "on_repository (repo_ClaimProcessing repo did) w = (rb, w') \<Longrightarrow> K w w'"
  "on_repository (repo_MarkReady repo did chk n) w = (rn, w') \<Longrightarrow> K w w'"
  "on_repository (repo_MarkFailed repo did msg) w = (rn, w') \<Longrightarrow> K w w'"
  by (auto simp: on_repository_def split: prod.splits
      intro: R_Create R_GetByID R_List R_SoftDelete R_Claim R_MarkReady R_MarkFailed)

lemma other_frames:
  "on_storage f w = (r, w') \<Longrightarrow> K w w'" "on_queue g w = (rq, w') \<Longrightarrow> K w w'" "on_random h w = (rx, w') \<Longrightarrow> K w w'"
  by (auto simp: on_storage_def on_queue_def on_random_def R_refl split: prod.splits)

lemmas frames = repository_frames other_frames

lemma persist_frame:
  assumes "sv_repository s = repo"
  shows "persist s nd w = (r, w') \<Longrightarrow> K w w'"
  by (auto simp: persist_def assms Let_def split: prod.splits sum.splits dest!: frames) (meson R_trans)+

lemma store_frame:
  assumes "sv_repository s = repo"
  shows "store_upload s uid name mt body oid w = (r, w') \<Longrightarrow> K w w'"
  by (auto simp: store_upload_def assms Let_def split: prod.splits sum.splits dest!: other_frames persist_frame [OF assms]) (meson R_trans)+

lemma create_frame:
  assumes "sv_repository s = repo"
  shows "ds_Create ul s a input w = (r, w') \<Longrightarrow> K w w'"
  by (auto simp: ds_Create_def assms Let_def R_refl split: prod.splits sum.splits option.splits if_splits
      dest!: other_frames store_frame [OF assms]) (meson R_trans)+

lemma get_frame:
  assumes "sv_repository s = repo"
  shows "ds_Get s a did w = (r, w') \<Longrightarrow> K w w'"
  by (auto simp: ds_Get_def assms split: prod.splits sum.splits option.splits dest!: frames)

lemma list_frame:
  assumes "sv_repository s = repo"
  shows "ds_List s a pgn w = (r, w') \<Longrightarrow> K w w'"
  by (auto simp: ds_List_def assms Let_def R_refl split: prod.splits sum.splits if_splits dest!: frames)

lemma download_frame:
  assumes "sv_repository s = repo"
  shows "ds_Download s a did w = (r, w') \<Longrightarrow> K w w'"
  by (auto simp: ds_Download_def assms split: prod.splits sum.splits if_splits dest!: get_frame [OF assms] other_frames) (meson R_trans)+

lemma delete_frame:
  assumes "sv_repository s = repo"
  shows "ds_Delete s a did w = (r, w') \<Longrightarrow> K w w'"
  by (auto simp: ds_Delete_def assms split: prod.splits sum.splits dest!: get_frame [OF assms] frames) (meson R_trans)+

lemma fail_frame:
  assumes "wk_repository k = repo"
  shows "wk_fail k did e w = (r, w') \<Longrightarrow> K w w'"
  by (auto simp: wk_fail_def assms split: prod.splits sum.splits dest!: frames)

lemma finish_frame:
  assumes "wk_repository k = repo"
  shows "wk_finish sha256 k d ob w = (r, w') \<Longrightarrow> K w w'"
  by (auto simp: wk_finish_def assms Let_def R_refl split: prod.splits sum.splits option.splits if_splits dest!: frames fail_frame [OF assms])

lemma process_frame:
  assumes "wk_repository k = repo"
  shows "wk_Process sha256 k job w = (r, w') \<Longrightarrow> K w w'"
  by (auto simp: wk_Process_def assms split: prod.splits sum.splits if_splits dest!: frames fail_frame [OF assms] finish_frame [OF assms]) (meson R_trans)+

end

text \<open>They keep roles, users and sessions.\<close>

definition accounts_kept :: "tables \<Rightarrow> tables \<Rightarrow> bool" where
  "accounts_kept t0 t \<longleftrightarrow> t_roles t = t_roles t0 \<and> t_users t = t_users t0 \<and> t_users_seq t = t_users_seq t0 \<and>
     t_refresh_sessions t = t_refresh_sessions t0"

definition keeps_accounts :: "pg \<Rightarrow> pg \<Rightarrow> bool" where
  "keeps_accounts db db' \<longleftrightarrow> accounts_kept (pg_tables db) (pg_tables db')"

lemma accounts_kept_statements:
  "preserves (accounts_kept t0) (sql_ClaimDocumentProcessing did)" "preserves (accounts_kept t0) sql_CountAllDocuments"
  "preserves (accounts_kept t0) (sql_CountDocumentsByOwner ow)" "preserves (accounts_kept t0) (sql_CreateDocument nd)"
  "preserves (accounts_kept t0) (sql_GetDocumentByID did)" "preserves (accounts_kept t0) (sql_ListAllDocuments off lim)"
  "preserves (accounts_kept t0) (sql_ListDocumentsByOwner ow off lim)" "preserves (accounts_kept t0) (sql_MarkDocumentFailed msg did)"
  "preserves (accounts_kept t0) (sql_MarkDocumentReady chk n did)" "preserves (accounts_kept t0) (sql_SoftDeleteDocument did)"
  by (auto simp: preserves_def accounts_kept_def sql_ClaimDocumentProcessing_def sql_CountAllDocuments_def
      sql_CountDocumentsByOwner_def sql_CreateDocument_def sql_GetDocumentByID_def sql_ListAllDocuments_def
      sql_ListDocumentsByOwner_def sql_MarkDocumentFailed_def sql_MarkDocumentReady_def sql_SoftDeleteDocument_def
      Let_def split: sum.splits option.splits)

lemma pg_call_keeps_accounts:
  assumes "\<And>t0. preserves (accounts_kept t0) stmt" "pg_call stmt db = (r, db')"
  shows "keeps_accounts db db'"
  using pg_call_preserves [OF assms(1) assms(2)] by (simp add: keeps_accounts_def accounts_kept_def)

lemmas document_calls_keep = accounts_kept_statements [THEN pg_call_keeps_accounts]

lemma keeps_accounts_trans: "keeps_accounts a b \<Longrightarrow> keeps_accounts b c \<Longrightarrow> keeps_accounts a c"
  by (simp add: keeps_accounts_def accounts_kept_def)

interpretation document_accounts: document_frame pg_repository keeps_accounts
  by (unfold_locales) (auto simp: pg_repository_def dr_Create_def dr_GetByID_def dr_List_def dr_SoftDelete_def
      dr_ClaimProcessing_def dr_MarkReady_def dr_MarkFailed_def keeps_accounts_def accounts_kept_def
      split: prod.splits sum.splits option.splits
      dest!: document_calls_keep [unfolded keeps_accounts_def accounts_kept_def])

end
