(* ===== verification/Http_Server.thy ===== *)
theory Http_Server
  imports Http_Router Server_Frames
begin

text \<open>
  The server \<open>Build\<close> puts together: both services behind one engine, over one database, one
  storage, one queue, one entropy source and one clock. Each service runs on its own part of the
  state.
\<close>

record 's server_over =
  srv_pg :: pg
  srv_storage :: 's
  srv_queue :: redis
  srv_random :: entropy
  srv_times :: "instant list"

type_synonym server = "local_fs server_over"

definition accounts_of :: "'s server_over \<Rightarrow> pg auth_world" where
  "accounts_of w = \<lparr>aw_repository = srv_pg w, aw_random = srv_random w, aw_times = srv_times w\<rparr>"

definition documents_of :: "'s server_over \<Rightarrow> (pg, 's, redis) surroundings" where
  "documents_of w = \<lparr>sur_repository = srv_pg w, sur_storage = srv_storage w, sur_queue = srv_queue w, sur_random = srv_random w\<rparr>"

definition on_accounts :: "(pg auth_world \<Rightarrow> 'a \<times> pg auth_world) \<Rightarrow> 's server_over \<Rightarrow> 'a \<times> 's server_over" where
  "on_accounts f w = (case f (accounts_of w) of
     (r, a) \<Rightarrow> (r, w\<lparr>srv_pg := aw_repository a, srv_random := aw_random a, srv_times := aw_times a\<rparr>))"

definition on_documents :: "((pg, 's, redis) surroundings \<Rightarrow> 'a \<times> (pg, 's, redis) surroundings)
    \<Rightarrow> 's server_over \<Rightarrow> 'a \<times> 's server_over" where
  "on_documents f w = (case f (documents_of w) of
     (r, d) \<Rightarrow> (r, w\<lparr>srv_pg := sur_repository d, srv_storage := sur_storage d, srv_queue := sur_queue d, srv_random := sur_random d\<rparr>))"

definition on_entropy_of :: "(entropy \<Rightarrow> 'a \<times> entropy) \<Rightarrow> 's server_over \<Rightarrow> 'a \<times> 's server_over" where
  "on_entropy_of f w = (case f (srv_random w) of (r, es) \<Rightarrow> (r, w\<lparr>srv_random := es\<rparr>))"

definition app_auth_api :: "auth_libs \<Rightarrow> pg auth_service \<Rightarrow> 's server_over auth_api" where
  \<comment> \<open>\<open>handler.NewAuth\<close> of the service\<close>
  "app_auth_api L s = \<lparr>aap_Register = (\<lambda>i. on_accounts (as_Register L s i)), aap_Login = (\<lambda>i. on_accounts (as_Login L s i)),
     aap_Refresh = (\<lambda>t. on_accounts (as_Refresh L s t)), aap_Logout = (\<lambda>t. on_accounts (as_Logout L s t)),
     aap_Me = (\<lambda>u. on_accounts (as_Me s u))\<rparr>"

type_synonym 's app_documents_over = "(pg, 's, redis, claimed_job) document_service"
type_synonym app_documents = "local_fs app_documents_over"

definition app_document_api :: "(string \<Rightarrow> string) \<Rightarrow> 's app_documents_over \<Rightarrow> 's server_over document_api" where
  \<comment> \<open>\<open>handler.NewDocument\<close> of the service\<close>
  "app_document_api ul s = \<lparr>dap_Create = (\<lambda>a i. on_documents (ds_Create ul s a i)), dap_Get = (\<lambda>a d. on_documents (ds_Get s a d)),
     dap_List = (\<lambda>a p. on_documents (ds_List s a p)), dap_Download = (\<lambda>a d. on_documents (ds_Download s a d)),
     dap_Delete = (\<lambda>a d. on_documents (ds_Delete s a d))\<rparr>"

definition validate_token :: "auth_libs \<Rightarrow> jwt_manager \<Rightarrow> string \<Rightarrow> ('s server_over, go_error, claims) call" where
  "validate_token L m t = on_accounts (ValidateAccessToken (al_jwt L) m t)"

definition app_engine :: "gin_lib \<Rightarrow> auth_libs \<Rightarrow> (string \<Rightarrow> string) \<Rightarrow> jwt_manager \<Rightarrow> 's app_documents_over \<Rightarrow> string list
    \<Rightarrow> 's server_over engine" where
  \<comment> \<open>\<open>lower\<close> is the database's \<open>LOWER\<close>\<close>
  "app_engine gin L lower m s origins =
     router_New gin on_entropy_of
       \<lparr>rt_JWT = Some (validate_token L m), rt_AuthHandler = Some (app_auth_api L (app_auth lower m)),
        rt_DocumentHandler = Some (app_document_api (al_unicode_lower L) s), rt_AllowedOrigins = origins\<rparr>"

definition app_serve :: "gin_lib \<Rightarrow> auth_libs \<Rightarrow> (string \<Rightarrow> string) \<Rightarrow> jwt_manager \<Rightarrow> app_documents \<Rightarrow> string list
    \<Rightarrow> http_request \<Rightarrow> server \<Rightarrow> gin_context \<times> server" where
  "app_serve gin L lower m s origins = serve gin (app_engine gin L lower m s origins)"

text \<open>The route of a request: its place in the table, and the values of the parameters.\<close>

definition route_table :: "gin_lib \<Rightarrow> auth_libs \<Rightarrow> (string \<Rightarrow> string) \<Rightarrow> jwt_manager \<Rightarrow> app_documents \<Rightarrow> ((string \<times> string) \<times> server handler list) list" where
  "route_table gin L lower m s = ((''GET'', ''/health''), [health]) #
     auth_routes gin (validate_token L m) (app_auth_api L (app_auth lower m)) @
     document_routes gin (validate_token L m) (app_document_api (al_unicode_lower L) s)"

lemma app_engine_fields:
  "en_Use (app_engine gin L lower m s origins) = middlewares gin on_entropy_of origins"
  "en_Routes (app_engine gin L lower m s origins) = route_table gin L lower m s"
  by (simp_all add: app_engine_def router_New_def route_table_def)

text \<open>What the program relies on of \<open>cors\<close>: it sets headers of its own, or answers itself.\<close>

definition cors_ok :: "gin_lib \<Rightarrow> bool" where
  "cors_ok gin \<longleftrightarrow> (\<forall>cfg c. \<not> gc_Aborted c \<longrightarrow> (let c' = gin_Cors gin cfg c in
     gc_Request c' = gc_Request c \<and> gc_Param c' = gc_Param c \<and> gc_Keys c' = gc_Keys c \<and>
     gc_Header c' RequestIDHeader = gc_Header c RequestIDHeader \<and> gc_Body c' = gc_Body c \<and>
     (if gc_Aborted c' then gc_Status c' = 204 \<or> gc_Status c' = 403 else gc_Status c' = gc_Status c)))"

text \<open>A context as the middlewares leave it.\<close>

definition request_id_of :: "gin_context \<Rightarrow> string" where
  "request_id_of c = stringValue (gc_Keys c RequestIDContextKey)"

definition traced :: "gin_context \<Rightarrow> bool" where
  \<comment> \<open>the request has an id, and the answer names it\<close>
  "traced c \<longleftrightarrow> request_id_of c \<noteq> '''' \<and> length (request_id_of c) \<le> 128 \<and>
     gc_Header c RequestIDHeader = Some (request_id_of c) \<and>
     (case gc_Body c of ErrorBody code msg rid \<Rightarrow> rid = request_id_of c | _ \<Rightarrow> True)"

definition same_data :: "server \<Rightarrow> server \<Rightarrow> bool" where
  \<comment> \<open>nothing but the clock and the entropy source, which has been read, may differ\<close>
  "same_data w w' \<longleftrightarrow> srv_pg w' = srv_pg w \<and> srv_storage w' = srv_storage w \<and> srv_queue w' = srv_queue w \<and>
     (\<exists>n. srv_random w' = drop n (srv_random w))"

lemma rand_read_drop: "rand_read k es = (r, es') \<Longrightarrow> es' = drop 1 es"
  by (auto simp: rand_read_def split: list.splits sum.splits)

lemma newRequestID_drop: "newRequestID es = (rid, es') \<Longrightarrow> es' = drop 1 es"
  by (auto simp: newRequestID_def split: prod.splits sum.splits dest: rand_read_drop)

lemma newRequestID_length: "newRequestID es = (rid, es') \<Longrightarrow> rid \<noteq> '''' \<and> length rid \<le> 128"
proof -
  assume n: "newRequestID es = (rid, es')"
  show ?thesis
  proof (cases "rand_read 16 es")
    case (Pair r e)
    show ?thesis
    proof (cases r)
      case (Inr b)
      have "length b = 16" using Pair Inr by (auto simp: rand_read_def split: list.splits sum.splits)
      with n Pair Inr show ?thesis using length_hex_encode [of b] by (auto simp: newRequestID_def)
    qed (use n Pair in \<open>auto simp: newRequestID_def\<close>)
  qed
qed

lemma run_middlewares:
  assumes "cors_ok gin" "run_chain (middlewares gin on_entropy_of origins) ((new_context r)\<lparr>gc_Param := ps\<rparr>) w = (c, w')"
  shows "same_data w w' \<and> srv_times w' = srv_times w \<and> traced c \<and> gc_Request c = r \<and> gc_Param c = ps \<and> GetActor c = None \<and>
    gc_Body c = NoBody \<and> (gc_Aborted c \<longrightarrow> gc_Status c = 204 \<or> gc_Status c = 403)"
proof -
  obtain c1 w1 where q: "RequestID on_entropy_of ((new_context r)\<lparr>gc_Param := ps\<rparr>) w = (c1, w1)" by fastforce
  have c1: "same_data w w1 \<and> srv_times w1 = srv_times w \<and> traced c1 \<and> gc_Request c1 = r \<and> gc_Param c1 = ps \<and> gc_Body c1 = NoBody \<and>
      \<not> gc_Aborted c1 \<and> gc_Keys c1 ActorContextKey = None"
  proof (cases "trim_space (rq_Header r RequestIDHeader) = '''' \<or> 128 < length (trim_space (rq_Header r RequestIDHeader))")
    case True
    obtain rid es' where n: "newRequestID (srv_random w) = (rid, es')" by fastforce
    from newRequestID_length [OF this] newRequestID_drop [OF this] q True n show ?thesis
      by (auto intro: exI [of _ 1] simp: RequestID_def Let_def new_context_def on_entropy_of_def same_data_def traced_def request_id_of_def
          stringValue_def RequestIDContextKey_def ActorContextKey_def)
  next
    case False
    with q show ?thesis
      by (auto intro: exI [of _ 0] simp: RequestID_def Let_def new_context_def same_data_def traced_def request_id_of_def
          stringValue_def RequestIDContextKey_def ActorContextKey_def)
  qed
  let ?c2 = "gin_Cors gin (cors_settings origins) c1"
  have c2: "traced ?c2 \<and> gc_Request ?c2 = r \<and> gc_Param ?c2 = ps \<and> gc_Body ?c2 = NoBody \<and>
      (gc_Aborted ?c2 \<longrightarrow> gc_Status ?c2 = 204 \<or> gc_Status ?c2 = 403) \<and> gc_Keys ?c2 ActorContextKey = None"
    using c1 assms(1) by (auto simp: cors_ok_def Let_def traced_def request_id_of_def)
  have na: "\<not> gc_Aborted ((new_context r)\<lparr>gc_Param := ps\<rparr>)" by (simp add: new_context_def)
  have "(c, w') = (c1, w1) \<or> (c, w') = (?c2, w1)"
    using assms(2) na q c1 by (auto simp: middlewares_def split: if_splits)
  with c1 c2 show ?thesis by (auto simp: GetActor_def)
qed

end
