(* ===== verification/Http_Requests.thy ===== *)
theory Http_Requests
  imports Http_Server
begin

text \<open>
  What a request runs: the middlewares, and on the routes below \<open>/documents\<close> and on \<open>/auth/me\<close> the
  check of the access token before the handler. The cases of a request, shared by the
  properties of the endpoints.
\<close>

lemma route_table_length [simp]: "length (route_table gin L lower m s) = 11"
  by (simp add: route_table_def auth_routes_def document_routes_def)

text \<open>The places of the routes in the table.\<close>

definition route_me :: nat where "route_me = 5"
definition route_upload :: nat where "route_upload = 6"
definition route_list :: nat where "route_list = 7"
definition route_get :: nat where "route_get = 8"
definition route_download :: nat where "route_download = 9"
definition route_delete :: nat where "route_delete = 10"

lemmas route_defs = route_me_def route_upload_def route_list_def route_get_def route_download_def route_delete_def

definition app_route :: "gin_lib \<Rightarrow> auth_libs \<Rightarrow> (string \<Rightarrow> string) \<Rightarrow> jwt_manager \<Rightarrow> app_documents \<Rightarrow> http_request \<Rightarrow> (nat \<times> (string \<Rightarrow> string)) option" where
  "app_route gin L lower m s r = gin_Route gin (map fst (route_table gin L lower m s)) r"

abbreviation bearer_token :: "http_request \<Rightarrow> string" where
  "bearer_token r \<equiv> ExtractBearerToken (rq_Header r ''Authorization'')"

definition token_actor :: "auth_libs \<Rightarrow> jwt_manager \<Rightarrow> http_request \<Rightarrow> actor \<Rightarrow> bool" where
  \<comment> \<open>the actor an accepted access token of the request names\<close>
  "token_actor L m r a \<longleftrightarrow> (\<exists>claims. token_claims (al_jwt L) m (bearer_token r) claims \<and>
     cl_TokenType claims = AccessTokenType \<and> parse_int (cl_UserID claims) = Inr (act_UserID a) \<and>
     act_Role a = cl_Role claims \<and> 0 < act_UserID a)"

lemma same_data_refl [simp]: "same_data w w"
  by (auto simp: same_data_def intro: exI [of _ 0])

lemma same_data_trans: "same_data a b \<Longrightarrow> same_data b c \<Longrightarrow> same_data a c"
  unfolding same_data_def by (metis drop_drop)

lemma read_clock_random [simp]: "read_clock w = (t, w') \<Longrightarrow> aw_random w' = aw_random w"
  unfolding read_clock_def by (cases "time_now (aw_times w)") auto

lemma jwt_validate_random: "jwt_validate lib m v ty w = (r, w') \<Longrightarrow> aw_random w' = aw_random w"
  by (auto simp: jwt_validate_def split: prod.splits sum.splits if_splits option.splits)

lemma validate_token_ok:
  assumes "validate_token L m t w = (r, w')"
  shows "same_data w w' \<and> (\<forall>cl. r = Inr cl \<longrightarrow> token_claims (al_jwt L) m t cl \<and> cl_TokenType cl = AccessTokenType)"
proof -
  obtain a where v: "ValidateAccessToken (al_jwt L) m t (accounts_of w) = (r, a)"
    and w': "w' = w\<lparr>srv_pg := aw_repository a, srv_random := aw_random a, srv_times := aw_times a\<rparr>"
    using assms by (auto simp: validate_token_def on_accounts_def split: prod.splits)
  from v have "aw_repository a = srv_pg w" "aw_random a = srv_random w"
    using jwt_validate_repository [of "al_jwt L" m t AccessTokenType "accounts_of w"]
      jwt_validate_random [of "al_jwt L" m t AccessTokenType "accounts_of w"]
    by (simp_all add: ValidateAccessToken_def accounts_of_def)
  with w' have "same_data w w'" by (auto simp: same_data_def intro: exI [of _ 0])
  moreover have "token_claims (al_jwt L) m t cl \<and> cl_TokenType cl = AccessTokenType" if "r = Inr cl" for cl
    using jwt_validate_ok [of "al_jwt L" m t AccessTokenType "accounts_of w" cl a] v that by (simp add: ValidateAccessToken_def)
  ultimately show ?thesis by blast
qed

lemma traced_keys:
  "traced c \<Longrightarrow> gc_Keys c' RequestIDContextKey = gc_Keys c RequestIDContextKey \<Longrightarrow>
   gc_Header c' RequestIDHeader = gc_Header c RequestIDHeader \<Longrightarrow>
   (\<And>code msg rid. gc_Body c' = ErrorBody code msg rid \<Longrightarrow> rid = request_id_of c) \<Longrightarrow> traced c'"
  by (auto simp: traced_def request_id_of_def split: http_body.splits)

lemma traced_Write [simp]: "traced c \<Longrightarrow> traced (WriteGin e c)" "traced c \<Longrightarrow> traced (AbortGin e c)"
  by (auto simp: traced_def request_id_of_def)

text \<open>The token check: it refuses with 401, or passes on the actor of the token.\<close>

lemma run_auth:
  assumes "middleware_Auth (validate_token L m) c w = (c', w')" "traced c" "gc_Body c = NoBody" "\<not> gc_Aborted c"
  obtains (refused) "gc_Aborted c'" "gc_Status c' = 401" "same_data w w'" "traced c'" "\<exists>code msg rid. gc_Body c' = ErrorBody code msg rid"
    | (passed) a where "token_actor L m (gc_Request c) a" "GetActor c' = Some a" "\<not> gc_Aborted c'" "same_data w w'" "traced c'"
        "gc_Request c' = gc_Request c" "gc_Param c' = gc_Param c" "gc_Body c' = NoBody"
proof -
  let ?t = "bearer_token (gc_Request c)"
  obtain q w1 where q: "validate_token L m ?t w = (q, w1)" by fastforce
  note ok = validate_token_ok [OF q]
  have st: "Status (As ErrAuthInvalidTokenFormat) = 401" "Status (As ErrAuthInvalidToken) = 401"
    by (simp_all add: As_def ErrAuthInvalidTokenFormat_def ErrAuthInvalidToken_def)
  consider (none) "?t = ''''" | (bad) e where "?t \<noteq> ''''" "q = Inl e"
    | (badid) cl where "?t \<noteq> ''''" "q = Inr cl" "\<nexists>uid. parse_int (cl_UserID cl) = Inr uid \<and> 0 < uid"
    | (good) cl uid where "?t \<noteq> ''''" "q = Inr cl" "parse_int (cl_UserID cl) = Inr uid" "0 < uid"
    by (cases q) auto
  then show ?thesis
  proof cases
    case none
    with assms(1) have "c' = AbortGin ErrAuthInvalidTokenFormat c" "w' = w" by (auto simp: middleware_Auth_def)
    with assms(2) st show ?thesis by (intro refused) auto
  next
    case bad
    with assms(1) q have "c' = AbortGin ErrAuthInvalidToken c" "w' = w1" by (auto simp: middleware_Auth_def)
    with assms(2) st ok show ?thesis by (intro refused) auto
  next
    case badid
    with assms(1) q have "c' = AbortGin ErrAuthInvalidToken c" "w' = w1"
      by (auto simp: middleware_Auth_def split: sum.splits if_splits)
    with assms(2) st ok show ?thesis by (intro refused) auto
  next
    case good
    with assms(1) q have c': "c' = c\<lparr>gc_Keys := (gc_Keys c)(ActorContextKey \<mapsto> ActorValue \<lparr>act_UserID = uid, act_Role = cl_Role cl\<rparr>)\<rparr>"
        "w' = w1"
      by (auto simp: middleware_Auth_def)
    have "traced c'"
      by (rule traced_keys [OF assms(2)]) (simp_all add: c' assms(3) ActorContextKey_def RequestIDContextKey_def)
    moreover have "token_actor L m (gc_Request c) \<lparr>act_UserID = uid, act_Role = cl_Role cl\<rparr>"
      using good ok by (auto simp: token_actor_def)
    ultimately show ?thesis
      using c' ok good assms(3,4) by (intro passed [of "\<lparr>act_UserID = uid, act_Role = cl_Role cl\<rparr>"]) (auto simp: GetActor_def)
  qed
qed

text \<open>What the middlewares hand to the chain of the route.\<close>

definition admitted :: "http_request \<Rightarrow> (string \<Rightarrow> string) \<Rightarrow> server \<Rightarrow> gin_context \<Rightarrow> server \<Rightarrow> bool" where
  "admitted r ps w c w1 \<longleftrightarrow> same_data w w1 \<and> traced c \<and> gc_Request c = r \<and> gc_Param c = ps \<and> gc_Body c = NoBody \<and> \<not> gc_Aborted c"

lemma serve_route:
  assumes "cors_ok gin" "app_route gin L lower m s r = Some (n, ps)" "n < 11"
    "app_serve gin L lower m s origins r w = (c, w')"
  obtains (preflight) "same_data w w'" "traced c" "gc_Body c = NoBody" "gc_Status c = 204 \<or> gc_Status c = 403" "gc_Aborted c"
    | (run) c1 w1 where "admitted r ps w c1 w1" "GetActor c1 = None"
        "run_chain (snd (route_table gin L lower m s ! n)) c1 w1 = (c, w')"
proof -
  obtain c1 w1 where q: "run_chain (middlewares gin on_entropy_of origins) ((new_context r)\<lparr>gc_Param := ps\<rparr>) w = (c1, w1)"
    by fastforce
  note mw = run_middlewares [OF assms(1) q]
  have rest: "run_chain (snd (route_table gin L lower m s ! n)) c1 w1 = (c, w')"
    using assms(2-4) q by (simp add: app_serve_def serve_def app_engine_fields app_route_def run_chain_append)
  show ?thesis
  proof (cases "gc_Aborted c1")
    case True
    with rest mw show ?thesis by (intro preflight) auto
  next
    case False
    with mw rest show ?thesis by (intro run [of c1 w1]) (auto simp: admitted_def)
  qed
qed

text \<open>A request on a protected route: refused without effect, or handled for the token's actor.\<close>

definition guarded_handler :: "gin_lib \<Rightarrow> auth_libs \<Rightarrow> (string \<Rightarrow> string) \<Rightarrow> jwt_manager \<Rightarrow> app_documents \<Rightarrow> nat \<Rightarrow> server handler" where
  "guarded_handler gin L lower m s n =
     (let docs = app_document_api (al_unicode_lower L) s
      in if n = route_me then h_Me (app_auth_api L (app_auth lower m))
         else if n = route_upload then h_Create gin docs else if n = route_list then h_List docs
         else if n = route_get then h_Get docs else if n = route_download then h_Download docs else h_Delete docs)"

lemma guarded_chain:
  assumes "5 \<le> n" "n < 11"
  shows "snd (route_table gin L lower m s ! n) = [middleware_Auth (validate_token L m), guarded_handler gin L lower m s n]"
proof -
  from assms have "n \<in> {5, 6, 7, 8, 9, 10}" by auto
  then show ?thesis
    by (auto simp: route_table_def auth_routes_def document_routes_def guarded_handler_def route_defs Let_def)
qed

lemma serve_guarded:
  assumes "cors_ok gin" "app_route gin L lower m s r = Some (n, ps)" "5 \<le> n" "n < 11"
    "app_serve gin L lower m s origins r w = (c, w')"
  obtains (refused) "same_data w w'" "traced c" "gc_Status c \<in> {204, 401, 403}" "gc_Aborted c"
        "gc_Body c = NoBody \<or> gc_Status c = 401 \<and> (\<exists>code msg rid. gc_Body c = ErrorBody code msg rid)"
    | (handled) a c1 w1 where "token_actor L m r a" "GetActor c1 = Some a" "admitted r ps w c1 w1"
        "guarded_handler gin L lower m s n c1 w1 = (c, w')"
  using assms(1,2,4,5)
proof (cases rule: serve_route)
  case preflight
  then show ?thesis by (intro refused) auto
next
  case (run c1 w1)
  note adm = run(1) [unfolded admitted_def]
  obtain c2 w2 where q: "middleware_Auth (validate_token L m) c1 w1 = (c2, w2)" by fastforce
  have rest: "run_chain [guarded_handler gin L lower m s n] c2 w2 = (c, w')"
    using run(3) q adm by (simp add: guarded_chain [OF assms(3,4)])
  have c1: "traced c1" "gc_Body c1 = NoBody" "\<not> gc_Aborted c1" using adm by auto
  from q c1 show ?thesis
  proof (cases rule: run_auth)
    case refused': refused
    with rest adm same_data_trans show ?thesis by (intro refused) auto
  next
    case (passed a)
    with rest have "guarded_handler gin L lower m s n c2 w2 = (c, w')" by (auto split: prod.splits)
    with passed adm same_data_trans show ?thesis by (intro handled [of a c2 w2]) (auto simp: admitted_def)
  qed
qed

subsection \<open>Every handler keeps the request id\<close>

lemma traced_updates [simp]:
  "traced c \<Longrightarrow> traced (c_JSON st HealthBody c)" "traced c \<Longrightarrow> traced (c_JSON st (AuthBody ar) c)" "traced c \<Longrightarrow> traced (c_JSON st (UserBody u) c)"
  "traced c \<Longrightarrow> traced (c_JSON st (DocumentBody d) c)" "traced c \<Longrightarrow> traced (c_JSON st (PageBody pg) c)" "traced c \<Longrightarrow> traced (c_JSON st NoBody c)"
  "traced c \<Longrightarrow> traced (c\<lparr>gc_Status := st\<rparr>)"
  "traced c \<Longrightarrow> traced (c\<lparr>gc_Status := st, gc_Header := (gc_Header c)(''Content-Disposition'' \<mapsto> v), gc_Body := StreamBody n mt src\<rparr>)"
  by (auto simp: traced_def request_id_of_def RequestIDHeader_def split: http_body.splits)

lemma actorAndID_traced: "traced c \<Longrightarrow> actorAndID c = Inl c' \<Longrightarrow> traced c'"
  by (auto simp: actorAndID_def Let_def split: option.splits sum.splits if_splits)

definition keeps_trace :: "server handler \<Rightarrow> bool" where
  "keeps_trace h \<longleftrightarrow> (\<forall>c w c' w'. traced c \<longrightarrow> h c w = (c', w') \<longrightarrow> traced c')"

lemma keeps_trace_auth:
  "keeps_trace (h_Register gin ah)" "keeps_trace (h_Login gin ah)" "keeps_trace (h_Refresh gin ah)"
  "keeps_trace (h_Logout gin ah)" "keeps_trace (h_Me ah)" "keeps_trace health" "keeps_trace no_route"
  by (auto simp: keeps_trace_def h_Register_def h_Login_def h_Refresh_def h_Logout_def h_Me_def health_def no_route_def
      split: sum.splits prod.splits option.splits)

lemma keeps_trace_documents:
  "keeps_trace (h_Create gin dh)" "keeps_trace (h_Get dh)" "keeps_trace (h_List dh)"
  "keeps_trace (h_Download dh)" "keeps_trace (h_Delete dh)"
  by (auto simp: keeps_trace_def h_Create_def h_Get_def h_List_def h_Download_def h_Delete_def
      split: sum.splits prod.splits option.splits dest: actorAndID_traced)

lemma keeps_trace_middleware: "keeps_trace (middleware_Auth validate)"
proof -
  have "traced (c\<lparr>gc_Keys := (gc_Keys c)(ActorContextKey \<mapsto> v)\<rparr>)" if "traced c" for c v
    using that by (auto simp: traced_def request_id_of_def ActorContextKey_def RequestIDContextKey_def split: http_body.splits)
  then show ?thesis
    by (auto simp: keeps_trace_def middleware_Auth_def Let_def split: sum.splits prod.splits if_splits)
qed

lemma keeps_trace_chain: "list_all keeps_trace hs \<Longrightarrow> traced c \<Longrightarrow> run_chain hs c w = (c', w') \<Longrightarrow> traced c'"
proof (induction hs arbitrary: c w)
  case (Cons h hs)
  obtain c1 w1 where h: "h c w = (c1, w1)" by fastforce
  with Cons.prems have "traced c1" by (auto simp: keeps_trace_def)
  with Cons h show ?case by (auto split: if_splits)
qed simp

lemma route_chains_trace: "n < 11 \<Longrightarrow> list_all keeps_trace (snd (route_table gin L lower m s ! n))"
proof -
  assume n: "n < 11"
  have "list_all (\<lambda>x. list_all keeps_trace (snd x)) (route_table gin L lower m s)"
    by (simp add: route_table_def auth_routes_def document_routes_def keeps_trace_auth keeps_trace_documents keeps_trace_middleware)
  with n show ?thesis by (simp add: list_all_length)
qed

lemma serve_traced:
  assumes "cors_ok gin" "app_serve gin L lower m s origins r w = (c, w')"
  shows "traced c"
proof -
  have run: "traced c" if "list_all keeps_trace hs"
    "run_chain (middlewares gin on_entropy_of origins @ hs) ((new_context r)\<lparr>gc_Param := ps\<rparr>) w = (c, w')" for hs ps
  proof -
    obtain c1 w1 where q: "run_chain (middlewares gin on_entropy_of origins) ((new_context r)\<lparr>gc_Param := ps\<rparr>) w = (c1, w1)"
      by fastforce
    from run_middlewares [OF assms(1) q] that(2) q show ?thesis
      by (auto simp: run_chain_append intro: keeps_trace_chain [OF that(1)])
  qed
  have nr: "list_all keeps_trace [no_route]" by (simp add: keeps_trace_auth)
  have nc: "(new_context r)\<lparr>gc_Param := \<lambda>_. ''''\<rparr> = new_context r" by (simp add: new_context_def)
  from assms(2) run [OF nr, of "\<lambda>_. ''''", unfolded nc] run [OF route_chains_trace] show ?thesis
    by (auto simp: app_serve_def serve_def app_engine_fields split: option.splits prod.splits if_splits)
qed

definition proper_files :: "gin_lib \<Rightarrow> bool" where
  \<comment> \<open>a multipart file is a reader that never answers a read with no bytes and no error\<close>
  "proper_files gin \<longleftrightarrow> (\<forall>r name h body. gin_FormFile gin r name = Inr h \<longrightarrow> fh_Open h = Inr body \<longrightarrow> proper_source body)"

end
