(* ===== verification/Http_Demo.thy ===== *)
theory Http_Demo
  imports Http_Requests Demo_Run
begin

text \<open>
  A concrete Gin, a concrete server and concrete requests, at which the witnesses of the HTTP
  properties evaluate the definitions.
\<close>

fun match_path :: "string list \<Rightarrow> string list \<Rightarrow> (string \<times> string) list option" where
  "match_path [] [] = Some []"
| "match_path (p # ps) (s # ss) =
     (if p = s then match_path ps ss
      else case p of
        [] \<Rightarrow> None
      | c # name \<Rightarrow> if c = CHR '':'' then map_option ((#) (name, s)) (match_path ps ss) else None)"
| "match_path _ _ = None"

fun find_route :: "nat \<Rightarrow> (string \<times> string) list \<Rightarrow> http_request \<Rightarrow> (nat \<times> (string \<Rightarrow> string)) option" where
  "find_route n [] r = None"
| "find_route n (mp # rs) r =
     (case (if fst mp = rq_Method r then match_path (split_on slash (snd mp)) (split_on slash (rq_Path r)) else None) of
        None \<Rightarrow> find_route (n + 1) rs r
      | Some ps \<Rightarrow> Some (n, \<lambda>name. case map_of ps name of None \<Rightarrow> '''' | Some v \<Rightarrow> v))"

definition demo_gin :: gin_lib where
  "demo_gin =
     \<lparr>gin_BindCredentials = (\<lambda>r. case split_on CHR '' '' (rq_Body r) of [e, p] \<Rightarrow> Inr (e, p) | _ \<Rightarrow> Inl (FmtError ''EOF'')),
      gin_BindRefresh = (\<lambda>r. if rq_Body r = '''' then Inl (FmtError ''EOF'') else Inr (rq_Body r)),
      gin_FormFile = (\<lambda>r name. Inr \<lparr>fh_Filename = ''a.txt'', fh_Size = int (length (rq_Body r)),
         fh_ContentType = ''text/plain'', fh_Open = Inr (if rq_Body r = '''' then [] else [(rq_Body r, None)])\<rparr>),
      gin_Route = find_route 0,
      gin_Cors = (\<lambda>cfg c. c)\<rparr>"

definition demo_server :: server where
  "demo_server =
     \<lparr>srv_pg = demo_pg\<lparr>pg_tables := demo_tables\<lparr>t_users := [demo_user 9 ''w@x.org''], t_users_seq := 10\<rparr>\<rparr>,
      srv_storage = demo_fs, srv_queue = demo_redis,
      srv_random = [Inr (\<lambda>i. CHR 0x5A), Inr (\<lambda>i. CHR 0x5B), Inr (\<lambda>i. CHR 0x5C), Inr (\<lambda>i. CHR 0x5D)], srv_times = [1000]\<rparr>"

definition demo_serve :: "http_request \<Rightarrow> server \<Rightarrow> gin_context \<times> server" where
  "demo_serve = app_serve demo_gin demo_libs demo_lower demo_manager demo_service []"

definition demo_request :: "string \<Rightarrow> string \<Rightarrow> string \<Rightarrow> bytes \<Rightarrow> http_request" where
  "demo_request token method p body =
     \<lparr>rq_Method = method, rq_Path = p, rq_Header = (\<lambda>h. if h = ''Authorization'' then ''Bearer '' @ token else ''''),
      rq_Query = (\<lambda>_. ''''), rq_Body = body\<rparr>"

definition post_document :: http_request where
  "post_document = demo_request ''access:'' ''POST'' ''/api/v1/documents'' ''hello''"

definition get_file :: http_request where
  "get_file = demo_request ''access:'' ''GET'' ''/api/v1/documents/1/download'' ''''"

definition posted :: server where
  "posted = snd (demo_serve post_document demo_server)"

text \<open>The worker has processed the document.\<close>

definition worked :: server where
  "worked = snd (on_documents (wk_Process demo_sha256 (app_worker demo_root) \<lparr>job_DocumentID = 1, job_Attempt = 1\<rparr>) posted)"

lemma demo_cors: "cors_ok demo_gin"
  by (simp add: cors_ok_def demo_gin_def)

lemma demo_proper_files: "proper_files demo_gin"
  by (auto simp: proper_files_def demo_gin_def proper_source_def)

end
