(* ===== verification/Http_Properties.thy ===== *)
theory Http_Properties
  imports Http_Demo
begin

text \<open>
  The properties of the HTTP interface: nothing protected is reached without a valid access token,
  what a client can rely on when it reads 201 or 200, and what every answer looks like.
\<close>

lemma documents_of_same: "same_data w w1 \<Longrightarrow> documents (documents_of w1) = documents (documents_of w) \<and>
    objects rc (documents_of w1) = objects rc (documents_of w) \<and> sur_queue (documents_of w1) = sur_queue (documents_of w) \<and>
    program_ok rc (documents_of w1) = program_ok rc (documents_of w)"
  by (simp add: same_data_def documents_of_def program_ok_def)

lemma on_documents_Pair:
  "on_documents f w = (r, w') \<longleftrightarrow> (\<exists>d. f (documents_of w) = (r, d) \<and>
     w' = w\<lparr>srv_pg := sur_repository d, srv_storage := sur_storage d, srv_queue := sur_queue d, srv_random := sur_random d\<rparr>)"
  by (auto simp: on_documents_def split: prod.splits)

lemma documents_of_set [simp]:
  "documents_of (w\<lparr>srv_pg := sur_repository d, srv_storage := sur_storage d, srv_queue := sur_queue d, srv_random := sur_random d\<rparr>) = d"
  by (simp add: documents_of_def)



text \<open>
  C21. An upload answered with a document: the status is 201, the request carried an access token of some user, the body of
  its multipart file was stored whole under a key of that user, a pending document of that user
  was inserted, which is the one shown, and its first job was queued.
\<close>

theorem upload_answered_created:
  assumes "cors_ok gin" "proper_files gin" "program_ok rc (documents_of w)" "0 < mx" "mx < 2 ^ 63"
    and s: "s = app_service (al_unicode_lower L) rc (queue_of main processing dead k) mx mts cdn"
    and ro: "app_route gin L lower m s r = Some (route_upload, ps)"
    and run: "app_serve gin L lower m s origins r w = (c, w')" and ok: "gc_Body c = DocumentBody shown"
  shows "\<exists>a h body oid nd d. token_actor L m r a \<and> gin_FormFile gin r ''file'' = Inr h \<and> fh_Open h = Inr body \<and>
    nd_OwnerID nd = act_UserID a \<and> nd_SizeBytes nd = int (length (source_bytes body)) \<and> source_fin body = io_EOF \<and>
    nd_StorageKey nd = object_key '''' (act_UserID a) oid \<and> gc_Status c = 201 \<and> shown = setPublicURL s d \<and>
    doc_created nd d (documents (documents_of w)) (documents (documents_of w')) \<and>
    objects rc (documents_of w') = (objects rc (documents_of w))(nd_StorageKey nd \<mapsto> source_bytes body) \<and>
    jobs_in main (documents_of w') = jobs_in main (documents_of w) @ [first_job d]"
proof -
  have n: "5 \<le> route_upload" "route_upload < 11" by (simp_all add: route_defs)
  from assms(1) ro n run show ?thesis
  proof (cases rule: serve_guarded)
    case refused
    with ok show ?thesis by auto
  next
    case (handled a c1 w1)
    have h: "h_Create gin (app_document_api (al_unicode_lower L) s) c1 w1 = (c, w')"
      using handled(4) by (simp add: guarded_handler_def route_defs Let_def)
    have adm: "same_data w w1" "gc_Request c1 = r" using handled(3) by (auto simp: admitted_def)
    obtain fh body where f: "gin_FormFile gin r ''file'' = Inr fh" "fh_Open fh = Inr body"
      using h ok handled(2) adm(2) by (auto simp: h_Create_def split: sum.splits)
    let ?in = "\<lparr>in_OriginalName = fh_Filename fh, in_MediaType = fh_ContentType fh, in_SizeBytes = fh_Size fh, in_Body = Some body\<rparr>"
    obtain x w2 where x: "ds_Create (al_unicode_lower L) s a ?in (documents_of w1) = (x, w2)" by fastforce
    note same = documents_of_same [OF adm(1)]
    have sok: "app.sur_ok rc (documents_of w1)" using assms(3) same by (simp add: program_ok_app)
    have conf: "configured s" using assms(4,5) by (simp add: s configured_local)
    have body_ok: "proper_source b" if "in_Body ?in = Some b" for b using that assms(2) f by (auto simp: proper_files_def)
    show ?thesis
    proof (rule app.create_cases [OF sok body_ok x [unfolded s] conf [unfolded s], folded s], goal_cases)
      case (2 oid b nd d)
      from 2(3) h handled(2) adm(2) f x have c: "gc_Status c = 201" "gc_Body c = DocumentBody (setPublicURL s d)" and w': "documents_of w' = w2"
        by (auto simp: h_Create_def app_document_api_def on_documents_Pair split: prod.splits)
      have "sv_storageKeyPrefix s = ''''" by (simp add: s)
      with 2(2) have nd: "b = body" "nd_OwnerID nd = act_UserID a" "nd_SizeBytes nd = int (length (source_bytes body))"
          "source_fin body = io_EOF" "nd_StorageKey nd = object_key '''' (act_UserID a) oid"
        by (auto simp: accepted_upload_def)
      from 2(5-7) nd c ok w' handled(1) f same show ?case
        by (intro exI [of _ a] exI [of _ fh] exI [of _ body] exI [of _ oid] exI [of _ nd] exI [of _ d]) simp
    qed (use h ok handled(2) adm(2) f x in \<open>auto simp: h_Create_def app_document_api_def on_documents_Pair split: prod.splits\<close>)
  qed
qed

lemma demo_server_ok: "program_ok demo_root (documents_of demo_server)"
proof -
  have "store_ok demo_root demo_fs" using demo_program_ok by (simp add: program_ok_def demo_state_def)
  moreover have "pg_inv (srv_pg demo_server)"
    by (simp add: demo_server_def pg_inv_def docs_inv_def demo_pg_def demo_tables_def)
  ultimately show ?thesis by (simp add: program_ok_def documents_of_def demo_server_def)
qed

theorem upload_answered_created_witness:
  "jobs_in ''main'' (documents_of posted) = [\<lparr>job_DocumentID = 1, job_Attempt = 1\<rparr>] \<and>
   (\<exists>k. objects demo_root (documents_of posted) k = Some ''hello'')"
proof -
  let ?r = post_document
  have "app_route demo_gin demo_libs demo_lower demo_manager demo_service ?r \<noteq> None \<and>
      fst (the (app_route demo_gin demo_libs demo_lower demo_manager demo_service ?r)) = route_upload" by code_simp
  then obtain ps where ro: "app_route demo_gin demo_libs demo_lower demo_manager demo_service ?r = Some (route_upload, ps)" by auto
  have "case gc_Body (fst (demo_serve ?r demo_server)) of DocumentBody d \<Rightarrow> doc_ID d = 1 | _ \<Rightarrow> False" by code_simp
  then obtain d where d: "gc_Body (fst (demo_serve ?r demo_server)) = DocumentBody d" "doc_ID d = 1"
    by (auto split: http_body.splits)
  have s: "demo_service = app_service (al_unicode_lower demo_libs) demo_root (queue_of ''main'' ''processing'' ''dead'' 3) 16 [''text/plain''] ''''"
    by (simp add: demo_service_app demo_libs_def)
  have none: "jobs_in ''main'' (documents_of demo_server) = []" by code_simp
  have run: "app_serve demo_gin demo_libs demo_lower demo_manager demo_service [] ?r demo_server =
      (fst (demo_serve ?r demo_server), posted)" by (simp add: posted_def demo_serve_def)
  have content: "gin_FormFile demo_gin ?r ''file'' = Inr h \<Longrightarrow> fh_Open h = Inr b \<Longrightarrow> source_bytes b = ''hello''" for h b
    by (auto simp: demo_gin_def post_document_def demo_request_def)
  show ?thesis
    using upload_answered_created [OF demo_cors demo_proper_files demo_server_ok _ _ s ro run d(1)] none d(2) content
    by (auto simp: first_job_def)
qed



definition header_char :: "char \<Rightarrow> bool" where
  "header_char ch \<longleftrightarrow> (let n = (of_char ch :: nat) in n = 9 \<or> 0x20 \<le> n \<and> n < 0x7F)"

lemma upper_hex_token: "n < 16 \<Longrightarrow> is_token_char (upper_hex n)"
proof -
  have "list_all (\<lambda>n. is_token_char (upper_hex n)) [0..<16]" by code_simp
  then show "n < 16 \<Longrightarrow> is_token_char (upper_hex n)" by (simp add: list_all_iff)
qed

lemma token_header_char: "is_token_char ch \<Longrightarrow> header_char ch"
  by (simp add: is_token_char_def header_char_def Let_def)

lemma percent_byte_token: "list_all is_token_char (percent_byte ch)"
proof -
  have "(of_char ch :: nat) div 16 < 16" "(of_char ch :: nat) mod 16 < 16"
    by (rule less_mult_imp_div_less, simp_all)
  then show ?thesis using upper_hex_token
    by (auto simp: percent_byte_def Let_def is_token_char_def is_tspecial_def backslash_def)
qed

lemma plain_bytes: "\<not> needs_encoding v \<Longrightarrow> list_all header_char v"
  by (auto simp: needs_encoding_def header_char_def list_all_iff list_ex_iff Let_def)

lemma quoted_bytes: "list_all header_char v \<Longrightarrow> list_all header_char (concat (map quoted_byte v))"
  by (auto simp: list_all_iff quoted_byte_def header_char_def backslash_def split: if_splits)

lemma encoded_bytes: "list_all header_char (concat (map percent_byte v))"
  using percent_byte_token token_header_char by (fastforce simp: list_all_iff)



text \<open>
  C30. What an error answer discloses: its status, code and message are those of the application
  error in the chain, whatever caused it, and an error without one is answered with the generic
  internal error; the texts of causes never reach a client.
\<close>

theorem error_answers_opaque:
  "(case gc_Body (WriteGin (Wrap (AppError code msg st re k) (Some reason)) c) of
      ErrorBody code' msg' rid \<Rightarrow> code' = code \<and> msg' = msg | _ \<Rightarrow> False) \<and>
   gc_Status (WriteGin (Wrap (AppError code msg st re k) (Some reason)) c) = st \<and>
   WriteGin (FmtWrap text (AppError code msg st re k)) c = WriteGin (AppError code msg st re None) c \<and>
   (as_app_error err = None \<longrightarrow> WriteGin err c = WriteGin ErrCommonInternal c \<and> gc_Status (WriteGin err c) = 500)"
  by (simp add: Wrap_def As_def WriteGin_def Let_def c_JSON_def ErrCommonInternal_def)

theorem error_answers_opaque_witness:
  "gc_Status (WriteGin (PgErr ''08006'' ''password=secret'') (new_context get_file)) = 500"
proof -
  have "as_app_error (PgErr ''08006'' ''password=secret'') = None \<longrightarrow>
      gc_Status (WriteGin (PgErr ''08006'' ''password=secret'') (new_context get_file)) = 500"
    using error_answers_opaque [where err = "PgErr ''08006'' ''password=secret''" and c = "new_context get_file"] by blast
  then show ?thesis by (rule mp) simp
qed

end
