(* ===== verification/Server_Steps.thy ===== *)
theory Server_Steps
  imports Http_Requests
begin

text \<open>
  The whole server as a transition system: HTTP requests, jobs of the worker beside it, and the
  surroundings. Every request comes down to calls of the two services; each call keeps the
  invariant of its own part, and leaves the other part of the shared database alone.
\<close>

subsection \<open>Calls of the services\<close>

definition put_accounts :: "server \<Rightarrow> pg auth_world \<Rightarrow> server" where
  "put_accounts w a = w\<lparr>srv_pg := aw_repository a, srv_random := aw_random a, srv_times := aw_times a\<rparr>"

definition put_documents :: "server \<Rightarrow> program_state \<Rightarrow> server" where
  "put_documents w d = w\<lparr>srv_pg := sur_repository d, srv_storage := sur_storage d, srv_queue := sur_queue d, srv_random := sur_random d\<rparr>"

lemma documents_of_put [simp]: "documents_of (put_documents w d) = d"
  by (simp add: documents_of_def put_documents_def)

lemma accounts_of_put [simp]: "accounts_of (put_accounts w a) = a"
  by (simp add: accounts_of_def put_accounts_def)

lemma on_accounts_Pair: "on_accounts f w = (r, w') \<longleftrightarrow> (\<exists>a. f (accounts_of w) = (r, a) \<and> w' = put_accounts w a)"
  by (auto simp: on_accounts_def put_accounts_def split: prod.splits)

lemma on_documents_put: "on_documents f w = (r, w') \<longleftrightarrow> (\<exists>d. f (documents_of w) = (r, d) \<and> w' = put_documents w d)"
  by (auto simp: on_documents_def put_documents_def split: prod.splits)

inductive service_call :: "auth_libs \<Rightarrow> (string \<Rightarrow> string) \<Rightarrow> jwt_manager \<Rightarrow> (bytes \<Rightarrow> bytes) \<Rightarrow> app_documents \<Rightarrow> string list
    \<Rightarrow> server \<Rightarrow> server \<Rightarrow> bool" for L lower m sha256 s rc where
  accounts: "auth_step L (app_auth lower m) (accounts_of w) a \<Longrightarrow> service_call L lower m sha256 s rc w (put_accounts w a)"
| documents: "program_step sha256 (al_unicode_lower L) s rc (documents_of w) d \<Longrightarrow>
    service_call L lower m sha256 s rc w (put_documents w d)"

inductive_cases service_callE: "service_call L lower m sha256 s rc w w'"

lemma same_data_call: "same_data w w' \<Longrightarrow> service_call L lower m sha256 s rc w w'"
proof -
  assume d: "same_data w w'"
  let ?a = "accounts_of w"
  let ?a' = "?a\<lparr>aw_repository := (aw_repository ?a)\<lparr>pg_now := pg_now (srv_pg w), pg_faults := pg_faults (srv_pg w)\<rparr>,
       aw_random := srv_random w', aw_times := srv_times w'\<rparr>"
  have "auth_step L (app_auth lower m) ?a ?a'"
    using auth_step.environment [where w = ?a and n = "pg_now (srv_pg w)" and fs = "pg_faults (srv_pg w)"
        and es = "srv_random w'" and ts = "srv_times w'"]
    by (simp add: accounts_of_def)
  then have "service_call L lower m sha256 s rc w (put_accounts w ?a')" by (rule accounts)
  moreover have "put_accounts w ?a' = w'"
    using d by (simp add: put_accounts_def accounts_of_def same_data_def)
  ultimately show ?thesis by simp
qed

text \<open>What a handler does to the server: nothing, or one call.\<close>

definition one_call :: "auth_libs \<Rightarrow> (string \<Rightarrow> string) \<Rightarrow> jwt_manager \<Rightarrow> (bytes \<Rightarrow> bytes) \<Rightarrow> app_documents \<Rightarrow> string list
    \<Rightarrow> (server \<Rightarrow> bool) \<Rightarrow> server handler \<Rightarrow> bool" where
  "one_call L lower m sha256 s rc P h \<longleftrightarrow> (\<forall>c w c' w'. P w \<longrightarrow> h c w = (c', w') \<longrightarrow> w' = w \<or> service_call L lower m sha256 s rc w w')"

lemma account_handlers:
  "one_call L lower m sha256 s rc P (h_Register gin (app_auth_api L (app_auth lower m)))"
  "one_call L lower m sha256 s rc P (h_Login gin (app_auth_api L (app_auth lower m)))"
  "one_call L lower m sha256 s rc P (h_Refresh gin (app_auth_api L (app_auth lower m)))"
  "one_call L lower m sha256 s rc P (h_Logout gin (app_auth_api L (app_auth lower m)))"
  "one_call L lower m sha256 s rc P (h_Me (app_auth_api L (app_auth lower m)))"
  "one_call L lower m sha256 s rc P health"
  by (auto simp: one_call_def h_Register_def h_Login_def h_Refresh_def h_Logout_def h_Me_def health_def app_auth_api_def
      on_accounts_Pair split: sum.splits prod.splits option.splits intro: accounts auth_step.intros)

definition fresh_keys :: "app_documents \<Rightarrow> string list \<Rightarrow> server \<Rightarrow> bool" where
  "fresh_keys s rc w \<longleftrightarrow> fresh_object s rc (documents_of w)"

lemma document_handlers:
  "one_call L lower m sha256 s rc P (h_Get (app_document_api (al_unicode_lower L) s))"
  "one_call L lower m sha256 s rc P (h_List (app_document_api (al_unicode_lower L) s))"
  "one_call L lower m sha256 s rc P (h_Download (app_document_api (al_unicode_lower L) s))"
  "one_call L lower m sha256 s rc P (h_Delete (app_document_api (al_unicode_lower L) s))"
  by (auto simp: one_call_def h_Get_def h_List_def h_Download_def h_Delete_def app_document_api_def
      on_documents_put split: sum.splits prod.splits option.splits
      intro!: documents intro: program_step.get program_step.list program_step.download program_step.delete)

lemma upload_handler:
  "proper_files gin \<Longrightarrow> one_call L lower m sha256 s rc (fresh_keys s rc) (h_Create gin (app_document_api (al_unicode_lower L) s))"
  by (auto simp: one_call_def h_Create_def app_document_api_def on_documents_put fresh_keys_def proper_files_def proper_upload_def
      split: sum.splits prod.splits option.splits intro!: documents program_step.upload)

subsection \<open>Requests\<close>

lemma unrouted:
  assumes "cors_ok gin" "run_chain (middlewares gin on_entropy_of origins @ [no_route]) (new_context r) w = (c, w')"
  shows "same_data w w'"
proof -
  obtain c1 w1 where q: "run_chain (middlewares gin on_entropy_of origins) ((new_context r)\<lparr>gc_Param := \<lambda>_. ''''\<rparr>) w = (c1, w1)"
    by fastforce
  have "(new_context r)\<lparr>gc_Param := \<lambda>_. ''''\<rparr> = new_context r" by (simp add: new_context_def)
  with assms(2) q have "w' = w1" by (auto simp: run_chain_append no_route_def split: if_splits)
  with run_middlewares [OF assms(1) q] show ?thesis by simp
qed

text \<open>The keys of the coming uploads are not in use, whatever entropy the middlewares have read.\<close>

definition fresh_uploads :: "app_documents \<Rightarrow> string list \<Rightarrow> server \<Rightarrow> bool" where
  "fresh_uploads s rc w \<longleftrightarrow> (\<forall>n. fresh_keys s rc (w\<lparr>srv_random := drop n (srv_random w)\<rparr>))"

lemma fresh_uploads_keys: "fresh_uploads s rc w \<Longrightarrow> same_data w w1 \<Longrightarrow> fresh_keys s rc w1"
  unfolding fresh_uploads_def fresh_keys_def same_data_def documents_of_def by fastforce

lemma public_chain:
  assumes "n < 5"
  obtains h where "snd (route_table gin L lower m s ! n) = [h]" "\<And>P. one_call L lower m sha256 s rc P h"
proof -
  from assms have "n = 0 \<or> n = 1 \<or> n = 2 \<or> n = 3 \<or> n = 4" by auto
  then show ?thesis
    by (elim disjE) (auto simp: route_table_def auth_routes_def account_handlers intro: that)
qed

lemma guarded_one_call:
  assumes "proper_files gin"
  shows "one_call L lower m sha256 s rc (fresh_keys s rc) (guarded_handler gin L lower m s n)"
  using assms by (auto simp: guarded_handler_def Let_def account_handlers document_handlers upload_handler)

lemma request_calls:
  assumes "cors_ok gin" "proper_files gin" "fresh_uploads s rc w" "app_serve gin L lower m s origins r w = (c, w')"
  shows "(service_call L lower m sha256 s rc)\<^sup>*\<^sup>* w w'"
proof -
  let ?calls = "(service_call L lower m sha256 s rc)\<^sup>*\<^sup>*"
  have same: "?calls w w1" if "same_data w w1" for w1 using same_data_call [OF that] by blast
  have later: "?calls w w'" if "same_data w w1" "one_call L lower m sha256 s rc (fresh_keys s rc) h" "h c1 w1 = (c2, w')" for w1 h c1 c2
  proof -
    have "w' = w1 \<or> service_call L lower m sha256 s rc w1 w'"
      using that(2,3) fresh_uploads_keys [OF assms(3) that(1)] unfolding one_call_def by blast
    with same [OF that(1)] show ?thesis by (auto intro: rtranclp.rtrancl_into_rtrancl)
  qed
  show ?thesis
  proof (cases "app_route gin L lower m s r")
    case None
    with assms(4) have "same_data w w'"
      by (intro unrouted [OF assms(1)]) (simp add: app_serve_def serve_def app_engine_fields app_route_def)
    then show ?thesis by (rule same)
  next
    case (Some np)
    obtain n ps where np: "np = (n, ps)" by fastforce
    consider "n < 5" | "5 \<le> n" "n < 11" | "\<not> n < 11" by linarith
    then show ?thesis
    proof cases
      case 1
      then obtain h where h: "snd (route_table gin L lower m s ! n) = [h]" "one_call L lower m sha256 s rc (fresh_keys s rc) h"
        by (rule public_chain) blast
      from 1 have "n < 11" by simp
      from assms(1) Some [unfolded np] this assms(4) show ?thesis
      proof (cases rule: serve_route)
        case preflight
        with same show ?thesis by simp
      next
        case (run c1 w1)
        then have "h c1 w1 = (c, w')" by (simp add: h(1) admitted_def split: prod.splits)
        with run(1) h(2) show ?thesis by (auto simp: admitted_def intro: later)
      qed
    next
      case 2
      from assms(1) Some [unfolded np] 2 assms(4) show ?thesis
      proof (cases rule: serve_guarded)
        case refused
        with same show ?thesis by simp
      next
        case (handled a c1 w1)
        then show ?thesis by (intro later [OF _ guarded_one_call [OF assms(2)] handled(4)]) (simp add: admitted_def)
      qed
    next
      case 3
      with assms(4) Some np have "same_data w w'"
        by (intro unrouted [OF assms(1)]) (simp add: app_serve_def serve_def app_engine_fields app_route_def)
      then show ?thesis by (rule same)
    qed
  qed
qed

subsection \<open>The invariant of the server\<close>

definition server_inv :: "(bytes \<Rightarrow> bytes) \<Rightarrow> string list \<Rightarrow> (string \<Rightarrow> string) \<Rightarrow> server \<Rightarrow> bool" where
  "server_inv sha256 rc lower w \<longleftrightarrow> program_inv sha256 rc (documents_of w) \<and> auth_ok lower (accounts_of w)"

lemma docs_inv_kept: "docs_inv t \<Longrightarrow> documents_kept t t' \<Longrightarrow> docs_inv t'"
  by (fastforce simp: docs_inv_def documents_kept_def)

lemma account_step_keeps:
  assumes "auth_step L (app_auth lower m) a a'"
  shows "keeps_documents (aw_repository a) (aw_repository a')"
  using assms
proof cases
  case (register ri ra)
  then show ?thesis using auth_documents.register_frame by blast
next
  case (login li ra)
  then show ?thesis using auth_documents.login_frame by blast
next
  case (refresh token ra)
  then show ?thesis using auth_documents.refresh_frame by blast
next
  case (logout token ru)
  then show ?thesis using auth_documents.logout_frame by blast
next
  case (me uid rm)
  then show ?thesis using auth_documents.me_frame by blast
next
  case (environment n fs es ts)
  then show ?thesis by (simp add: keeps_documents_def)
qed

lemma document_step_keeps:
  assumes "program_step sha256 ul s rc d d'" "sv_repository s = pg_repository"
  shows "keeps_accounts (sur_repository d) (sur_repository d')"
  using assms(1)
proof cases
  case (upload input a r)
  then show ?thesis using document_accounts.create_frame [OF assms(2)] by blast
next
  case (get a did rg)
  then show ?thesis using document_accounts.get_frame [OF assms(2)] by blast
next
  case (list a pgn rl)
  then show ?thesis using document_accounts.list_frame [OF assms(2)] by blast
next
  case (download a did ro)
  then show ?thesis using document_accounts.download_frame [OF assms(2)] by blast
next
  case (delete a did ru)
  then show ?thesis using document_accounts.delete_frame [OF assms(2)] by blast
next
  case (process job ru)
  then show ?thesis using document_accounts.process_frame [of "app_worker rc"] by simp
next
  case (queue q)
  then show ?thesis by (simp add: keeps_accounts_def accounts_kept_def)
qed

lemma program_inv_kept:
  assumes "program_inv sha256 rc (documents_of w)" "keeps_documents (srv_pg w) (srv_pg w')" "srv_storage w' = srv_storage w"
  shows "program_inv sha256 rc (documents_of w')"
proof -
  have k: "documents_kept (pg_tables (srv_pg w)) (pg_tables (srv_pg w'))" using assms(2) by (simp add: documents_kept_iff)
  then have "pg_documents (srv_pg w') = pg_documents (srv_pg w)"
    by (auto simp: pg_documents_def docs_of_def documents_kept_def fun_eq_iff)
  with docs_inv_kept [OF _ k] assms(1,3) show ?thesis
    by (auto simp: program_inv_def program_ok_def documents_of_def pg_inv_def)
qed

lemma auth_inv_kept: "auth_ok lower (accounts_of w) \<Longrightarrow> keeps_accounts (srv_pg w) (srv_pg w') \<Longrightarrow>
    auth_ok lower (accounts_of w') \<and> sessions (accounts_of w') = sessions (accounts_of w)"
  by (auto simp: accounts_of_def pg_view_defs keeps_accounts_def accounts_kept_def auth_inv_def sessions_of_def fun_eq_iff)

text \<open>One call keeps the invariant, and a refresh token that is spent stays spent.\<close>

lemma service_call_inv:
  assumes "service_call L lower m sha256 s rc w w'" "server_inv sha256 rc lower w" "\<And>b. length (sha256 b) = 32"
    "deployed (al_unicode_lower L) rc mx s" "0 < mx" "mx < 2 ^ 63"
  shows "server_inv sha256 rc lower w' \<and> (\<forall>tid. spent (sessions (accounts_of w)) tid \<longrightarrow> spent (sessions (accounts_of w')) tid)"
  using assms(1)
proof cases
  case (accounts a)
  from auth_step_ok [OF this(2)] assms(2) have ok: "auth_ok lower a" "session_step (sessions (accounts_of w)) (sessions a)"
    by (auto simp: server_inv_def)
  have "keeps_documents (srv_pg w) (srv_pg w')" "srv_storage w' = srv_storage w"
    using account_step_keeps [OF accounts(2)] by (simp_all add: accounts(1) put_accounts_def accounts_of_def)
  moreover have "program_inv sha256 rc (documents_of w)" using assms(2) by (simp add: server_inv_def)
  ultimately have "program_inv sha256 rc (documents_of w')" using program_inv_kept by blast
  with ok accounts(1) spent_step show ?thesis by (auto simp: server_inv_def)
next
  case (documents d)
  have "sv_repository s = pg_repository" using assms(4) by (auto simp: deployed_def)
  from document_step_keeps [OF documents(2) this] have "keeps_accounts (srv_pg w) (srv_pg w')"
    by (simp add: documents(1) put_documents_def documents_of_def)
  with auth_inv_kept assms(2) have "auth_ok lower (accounts_of w') \<and> sessions (accounts_of w') = sessions (accounts_of w)"
    by (auto simp: server_inv_def)
  moreover have "program_inv sha256 rc d"
    using step_inv [OF documents(2) _ assms(3-6)] assms(2) by (auto simp: server_inv_def)
  ultimately show ?thesis by (simp add: server_inv_def documents(1))
qed

lemma service_calls_inv:
  assumes "(service_call L lower m sha256 s rc)\<^sup>*\<^sup>* w w'" "server_inv sha256 rc lower w" "\<And>b. length (sha256 b) = 32"
    "deployed (al_unicode_lower L) rc mx s" "0 < mx" "mx < 2 ^ 63"
  shows "server_inv sha256 rc lower w' \<and> (\<forall>tid. spent (sessions (accounts_of w)) tid \<longrightarrow> spent (sessions (accounts_of w')) tid)"
  using assms(1)
proof (induction rule: rtranclp_induct)
  case base
  with assms(2) show ?case by simp
next
  case (step y z)
  with service_call_inv [OF step(2) _ assms(3-6)] show ?case by blast
qed

text \<open>A step of the server: a request, a job, or a change of the surroundings.\<close>

inductive server_step :: "gin_lib \<Rightarrow> auth_libs \<Rightarrow> (string \<Rightarrow> string) \<Rightarrow> jwt_manager \<Rightarrow> (bytes \<Rightarrow> bytes) \<Rightarrow> app_documents
    \<Rightarrow> string list \<Rightarrow> string list \<Rightarrow> server \<Rightarrow> server \<Rightarrow> bool" for gin L lower m sha256 s origins rc where
  request: "fresh_uploads s rc w \<Longrightarrow> app_serve gin L lower m s origins r w = (c, w') \<Longrightarrow>
    server_step gin L lower m sha256 s origins rc w w'"
| job: "on_documents (wk_Process sha256 (app_worker rc) j) w = (ru, w') \<Longrightarrow> server_step gin L lower m sha256 s origins rc w w'"
| queue: "server_step gin L lower m sha256 s origins rc w (w\<lparr>srv_queue := q\<rparr>)"
| environment: "server_step gin L lower m sha256 s origins rc w
    (w\<lparr>srv_pg := (srv_pg w)\<lparr>pg_now := n, pg_faults := fs\<rparr>, srv_random := es, srv_times := ts\<rparr>)"

lemma server_step_calls:
  assumes "server_step gin L lower m sha256 s origins rc w w'" "cors_ok gin" "proper_files gin"
  shows "(service_call L lower m sha256 s rc)\<^sup>*\<^sup>* w w'"
  using assms(1)
proof cases
  case (request r c)
  with request_calls [OF assms(2,3)] show ?thesis by blast
next
  case (job j ru)
  then obtain d where "wk_Process sha256 (app_worker rc) j (documents_of w) = (ru, d)" "w' = put_documents w d"
    by (auto simp: on_documents_put)
  then show ?thesis using documents [OF program_step.process] by blast
next
  case (queue q)
  have "w' = put_documents w ((documents_of w)\<lparr>sur_queue := q\<rparr>)"
    by (simp add: queue put_documents_def documents_of_def)
  then show ?thesis using documents [OF program_step.queue] by blast
next
  case (environment ts es fs n)
  let ?a = "\<lparr>aw_repository = (aw_repository (accounts_of w))\<lparr>pg_now := n, pg_faults := fs\<rparr>, aw_random = es, aw_times = ts\<rparr>"
  have "service_call L lower m sha256 s rc w (put_accounts w ?a)" by (rule accounts) (rule auth_step.environment)
  moreover have "w' = put_accounts w ?a" by (simp add: environment put_accounts_def accounts_of_def)
  ultimately show ?thesis by blast
qed

lemma server_steps_calls:
  assumes "(server_step gin L lower m sha256 s origins rc)\<^sup>*\<^sup>* w w'" "cors_ok gin" "proper_files gin"
  shows "(service_call L lower m sha256 s rc)\<^sup>*\<^sup>* w w'"
  using assms(1)
proof (induction rule: rtranclp_induct)
  case (step y z)
  from server_step_calls [OF step(2) assms(2,3)] step(3) show ?case by (rule rtranclp_trans [rotated])
qed simp

end
