(* ===== verification/Server_Properties.thy ===== *)
theory Server_Properties
  imports Server_Steps Http_Demo
begin

text \<open>
  The properties of the whole server: its invariant over any sequence of requests, jobs and
  failures, the delivery of stored files, and the round trip of an access token.
\<close>

text \<open>
  C18. Any interleaving of HTTP requests on any routes, jobs of the worker, changes of the queue and
  failures of the connections keeps the invariant of the server: documents and accounts are
  consistent, every live document that is marked ready has its object with the recorded size
  and SHA-256, and a refresh token once revoked stays revoked.
\<close>

theorem server_invariant:
  assumes "(server_step gin L lower m sha256 s origins rc)\<^sup>*\<^sup>* w w'" "server_inv sha256 rc lower w"
    and "cors_ok gin" "proper_files gin" "\<forall>b. length (sha256 b) = 32"
    and "deployed (al_unicode_lower L) rc mx s" "0 < mx" "mx < 2 ^ 63"
  shows "server_inv sha256 rc lower w' \<and> intact sha256 (documents (documents_of w')) (objects rc (documents_of w')) \<and>
    (\<forall>tid. spent (sessions (accounts_of w)) tid \<longrightarrow> spent (sessions (accounts_of w')) tid)"
proof -
  from service_calls_inv [OF server_steps_calls [OF assms(1,3,4)] assms(2) _ assms(6-8)] assms(5) show ?thesis
    by (auto simp: server_inv_def program_inv_def)
qed

lemma demo_server_inv: "server_inv demo_sha256 demo_root demo_lower demo_server"
proof -
  have "store_ok demo_root demo_fs" using demo_program_ok by (simp add: program_ok_def demo_state_def)
  moreover have "pg_inv (srv_pg demo_server)"
    by (simp add: demo_server_def pg_inv_def docs_inv_def demo_pg_def demo_tables_def)
  moreover have "documents (documents_of demo_server) = Map.empty"
    by (rule ext) (simp add: documents_of_def demo_server_def pg_documents_def docs_of_def demo_pg_def demo_tables_def row_by_def)
  moreover have "auth_ok demo_lower (accounts_of demo_server)"
    by (simp add: accounts_of_def demo_server_def pg_auth_inv_def demo_pg_def demo_tables_def auth_inv_def demo_user_def live_user_def)
  ultimately show ?thesis
    by (simp add: server_inv_def program_inv_def program_ok_def documents_of_def demo_server_def keys_ok_def intact_def)
qed

lemma demo_server_fresh: "fresh_uploads demo_service demo_root demo_server"
proof -
  have "sur_storage (documents_of (demo_server\<lparr>srv_random := es\<rparr>)) = sur_storage demo_state" for es
    by (simp add: documents_of_def demo_server_def demo_state_def)
  with demo_no_objects show ?thesis by (simp add: fresh_uploads_def fresh_keys_def fresh_object_def)
qed

lemma demo_steps:
  "(server_step demo_gin demo_libs demo_lower demo_manager demo_sha256 demo_service [] demo_root)\<^sup>*\<^sup>* demo_server worked"
proof -
  have "server_step demo_gin demo_libs demo_lower demo_manager demo_sha256 demo_service [] demo_root demo_server posted"
    by (rule server_step.request [OF demo_server_fresh, where r = post_document and c = "fst (demo_serve post_document demo_server)"])
      (simp add: posted_def demo_serve_def)
  moreover have "server_step demo_gin demo_libs demo_lower demo_manager demo_sha256 demo_service [] demo_root posted worked"
    unfolding worked_def by (rule server_step.job) (rule prod.collapse [symmetric])
  ultimately show ?thesis by auto
qed

theorem server_invariant_witness:
  "\<exists>d b. documents (documents_of worked) 1 = Some d \<and> doc_Status d = DocumentReady \<and>
     objects demo_root (documents_of worked) (doc_StorageKey d) = Some b \<and> doc_ChecksumSHA256 d = Some (hex_encode (demo_sha256 b))"
proof -
  have dep: "deployed (al_unicode_lower demo_libs) demo_root 16 demo_service"
    using demo_deployed by (simp add: demo_libs_def)
  have "case documents (documents_of worked) 1 of None \<Rightarrow> False | Some d \<Rightarrow> doc_Status d = DocumentReady" by code_simp
  then obtain d where d: "documents (documents_of worked) 1 = Some d" "doc_Status d = DocumentReady"
    by (auto split: option.splits)
  from server_invariant [OF demo_steps demo_server_inv demo_cors demo_proper_files _ dep] demo_sha256_length
  have "intact demo_sha256 (documents (documents_of worked)) (objects demo_root (documents_of worked))" by simp
  with d show ?thesis by (auto simp: intact_def)
qed

text \<open>
  C19. A download answered with a file: the status is 200, the token's user may access the document,
  which is ready, the media type is the document's, the name in the header is the original one,
  and a body that ends is, byte for byte, the stored object; nothing is changed.
\<close>

theorem download_answered_file:
  assumes "cors_ok gin" "server_inv sha256 rc lower w"
    and s: "s = app_service (al_unicode_lower L) rc (queue_of main processing dead k) mx mts cdn"
    and ro: "app_route gin L lower m s r = Some (route_download, ps)"
    and run: "app_serve gin L lower m s origins r w = (c, w')" and ok: "gc_Body c = StreamBody n mt src"
  shows "\<exists>a did d. token_actor L m r a \<and> parse_int (ps ''id'') = Inr did \<and> documents (documents_of w) did = Some d \<and>
    may_access a d \<and> doc_Status d = DocumentReady \<and> mt = doc_MediaType d \<and> gc_Status c = 200 \<and>
    gc_Header c ''Content-Disposition'' = Some (content_disposition (doc_OriginalName d)) \<and>
    (source_fin src = io_EOF \<longrightarrow> objects rc (documents_of w) (doc_StorageKey d) = Some (source_bytes src)) \<and>
    documents (documents_of w') = documents (documents_of w) \<and> objects rc (documents_of w') = objects rc (documents_of w)"
proof -
  have n: "5 \<le> route_download" "route_download < 11" by (simp_all add: route_defs)
  from assms(1) ro n run show ?thesis
  proof (cases rule: serve_guarded)
    case refused
    with ok show ?thesis by auto
  next
    case (handled a c1 w1)
    have h: "h_Download (app_document_api (al_unicode_lower L) s) c1 w1 = (c, w')"
      using handled(4) by (simp add: guarded_handler_def route_defs Let_def)
    have adm: "same_data w w1" "gc_Param c1 = ps" "gc_Body c1 = NoBody" using handled(3) by (auto simp: admitted_def)
    obtain did where did: "parse_int (ps ''id'') = Inr did" "actorAndID c1 = Inr (a, did)"
      using h ok handled(2) adm(2) by (auto simp: h_Download_def actorAndID_def Let_def split: sum.splits if_splits)
    obtain q e where q: "ds_Download s a did (documents_of w1) = (q, e)" by fastforce
    then have call: "dap_Download (app_document_api (al_unicode_lower L) s) a did w1 = (q, put_documents w1 e)"
      by (simp add: app_document_api_def on_documents_put)
    note run' = h [unfolded h_Download_def did(2) sum.case prod.case call]
    have "\<nexists>err. q = Inl err"
    proof
      assume "\<exists>err. q = Inl err"
      with run' have "\<exists>err. c = WriteGin err c1" by auto
      with ok show False by auto
    qed
    then obtain ob d where qd: "q = Inr (ob, d)" by (cases q) auto
    note e = q [unfolded qd]
    from run' qd have c: "gc_Status c = 200" "gc_Header c ''Content-Disposition'' = Some (content_disposition (doc_OriginalName d))"
        "gc_Body c = StreamBody (obj_SizeBytes ob) (doc_MediaType d) (obj_Body ob)" and w': "w' = put_documents w1 e"
      by auto
    from c(3) ok have body: "src = obj_Body ob" "mt = doc_MediaType d" by simp_all
    have i: "program_inv sha256 rc (documents_of w)" using assms(2) by (simp add: server_inv_def)
    have same: "documents (documents_of w1) = documents (documents_of w)" "objects rc (documents_of w1) = objects rc (documents_of w)"
        "program_ok rc (documents_of w1)"
      using adm(1) program_invD(1) [OF i] by (simp_all add: same_data_def documents_of_def program_ok_def)
    have sok: "app.sur_ok rc (documents_of w1)" using same(3) by (simp add: program_ok_app)
    have key: "storable (doc_StorageKey d)" if "documents (documents_of w1) x = Some d" for x d
      using that same(1) program_invD(2) [OF i] by (auto simp: keys_ok_def)
    obtain d0 where "documents (documents_of w1) did = Some d0" "may_access a d0" "doc_Status d0 = DocumentReady" "d = setPublicURL s d0"
        "source_fin (obj_Body ob) = io_EOF \<longrightarrow> objects rc (documents_of w1) (doc_StorageKey d0) = Some (source_bytes (obj_Body ob))"
        "documents e = documents (documents_of w1)" "objects rc e = objects rc (documents_of w1)"
      by (rule app.download_ok [OF sok e [unfolded s] key, folded s]) auto
    moreover from this(4) have "doc_MediaType d = doc_MediaType d0" "doc_OriginalName d = doc_OriginalName d0"
      by (simp_all add: setPublicURL_def)
    ultimately show ?thesis using handled(1) did(1) c(1,2) body w' same(1,2)
      by (intro exI [of _ a] exI [of _ did] exI [of _ d0]) simp
  qed
qed

theorem download_answered_file_witness:
  "gc_Body (fst (demo_serve get_file worked)) = StreamBody 5 ''text/plain'' [(''hello'', None)] \<and>
   (\<exists>d. documents (documents_of worked) 1 = Some d \<and> objects demo_root (documents_of worked) (doc_StorageKey d) = Some ''hello'')"
proof -
  have "app_route demo_gin demo_libs demo_lower demo_manager demo_service get_file \<noteq> None \<and>
      fst (the (app_route demo_gin demo_libs demo_lower demo_manager demo_service get_file)) = route_download \<and>
      snd (the (app_route demo_gin demo_libs demo_lower demo_manager demo_service get_file)) ''id'' = ''1''" by code_simp
  then obtain ps where ro: "app_route demo_gin demo_libs demo_lower demo_manager demo_service get_file = Some (route_download, ps)"
    and ps: "ps ''id'' = ''1''" by auto
  have b: "gc_Body (fst (demo_serve get_file worked)) = StreamBody 5 ''text/plain'' [(''hello'', None)]" by code_simp
  have s: "demo_service = app_service (al_unicode_lower demo_libs) demo_root (queue_of ''main'' ''processing'' ''dead'' 3) 16 [''text/plain''] ''''"
    by (simp add: demo_service_app demo_libs_def)
  have run: "app_serve demo_gin demo_libs demo_lower demo_manager demo_service [] get_file worked =
      (fst (demo_serve get_file worked), snd (demo_serve get_file worked))" by (simp add: demo_serve_def)
  have dep: "deployed (al_unicode_lower demo_libs) demo_root 16 demo_service"
    using demo_deployed by (simp add: demo_libs_def)
  have calls: "(service_call demo_libs demo_lower demo_manager demo_sha256 demo_service demo_root)\<^sup>*\<^sup>* demo_server worked"
    by (rule server_steps_calls [OF demo_steps demo_cors demo_proper_files])
  have inv: "server_inv demo_sha256 demo_root demo_lower worked"
    using service_calls_inv [OF calls demo_server_inv demo_sha256_length dep] by simp
  have "parse_int ''1'' = Inr 1" by code_simp
  with download_answered_file [OF demo_cors inv s ro run b] ps b show ?thesis by auto
qed

end
