(* ===== verification/Token_Roundtrip.thy ===== *)
theory Token_Roundtrip
  imports Http_Demo
begin

text \<open>
  From the tokens the manager issues to the actor the middleware reads: what the program relies
  on of the JWT library, and that a client that sends back its access token is recognised as the
  user it was issued for.
\<close>

subsection \<open>Visible text\<close>

definition visible :: "char \<Rightarrow> bool" where
  "visible ch \<longleftrightarrow> (let n = (of_char ch :: nat) in 33 \<le> n \<and> n < 127)"

definition token_text :: "string \<Rightarrow> bool" where
  "token_text v \<longleftrightarrow> v \<noteq> '''' \<and> list_all visible v"

lemma visible_not_space: "p \<in> set space_runes \<Longrightarrow> visible ch \<Longrightarrow> \<not> has_prefix (ch # s) p"
  by (auto simp: space_runes_def has_prefix_def visible_def)

lemma visible_not_space_rev: "p \<in> set (map rev space_runes) \<Longrightarrow> visible ch \<Longrightarrow> \<not> has_prefix (ch # s) p"
  by (auto simp: space_runes_def has_prefix_def visible_def)

lemma trim_space_token: "token_text v \<Longrightarrow> trim_space v = v"
proof -
  assume v: "token_text v"
  then obtain ch s where cs: "v = ch # s" "visible ch" by (cases v) (auto simp: token_text_def)
  have "trim_runes space_runes v = v"
    by (rule trim_runes_id) (use visible_not_space [OF _ cs(2)] cs(1) in auto)
  moreover obtain ch' s' where cs': "rev v = ch' # s'" "visible ch'"
    using v by (cases "rev v") (auto simp: token_text_def list_all_iff dest: arg_cong [of _ _ set])
  have "trim_runes (map rev space_runes) (rev v) = rev v"
    by (rule trim_runes_id) (use visible_not_space_rev [OF _ cs'(2)] cs'(1) in metis)
  ultimately show ?thesis by (simp add: trim_space_def)
qed

lemma token_no_blank: "list_all visible v \<Longrightarrow> \<not> contains v '' ''"
  by (induction v) (auto simp: has_prefix_def visible_def)

lemma ExtractBearerToken_token:
  assumes "token_text v"
  shows "ExtractBearerToken (''Bearer '' @ v) = v"
proof -
  have "has_prefix (''Bearer '' @ v) ''Bearer ''" by (simp add: has_prefix_def)
  moreover have "v \<noteq> ''''" "\<not> contains v '' ''" using assms token_no_blank by (auto simp: token_text_def)
  ultimately show ?thesis by (simp add: ExtractBearerToken_def trim_space_token [OF assms])
qed

subsection \<open>The library\<close>

definition jwt_accepts :: "jwt_lib \<Rightarrow> jwt_manager \<Rightarrow> bool" where
  \<comment> \<open>a signed token is text without blanks, and parses to its claims within its time\<close>
  "jwt_accepts lib m \<longleftrightarrow> (\<forall>c v. jl_sign lib c (jm_secret m) = Inr v \<longrightarrow> token_text v \<and>
     (\<forall>opts now e nb. cl_ExpiresAt c = Some e \<longrightarrow> now < e \<longrightarrow> cl_NotBefore c = Some nb \<longrightarrow> nb \<le> now \<longrightarrow>
        jp_methods opts = [''HS256''] \<longrightarrow> jp_issuer opts \<in> {None, Some (cl_Issuer c)} \<longrightarrow>
        (jp_audience opts = None \<or> the (jp_audience opts) \<in> set (cl_Audience c)) \<longrightarrow>
        jl_parse lib opts (jm_secret m) now v = Inr (c, True)))"

lemma issued_access_token:
  assumes "GenerateTokenPair lib m u w0 = (Inr pair, w1)"
  obtains c t0 t1 where "jl_sign lib c (jm_secret m) = Inr (tp_AccessToken pair)" "cl_UserID c = format_int (usr_ID u)"
    "cl_Role c = usr_Role u" "cl_TokenType c = AccessTokenType" "cl_Issuer c = jm_issuer m" "cl_Audience c = [jm_audience m]"
    "fst (read_clock w0) = t0" "fst (read_clock (snd (read_clock w0))) = t1" "tp_ExpiresAt pair = t0 + jm_accessTTL m"
    "cl_ExpiresAt c = Some (jl_numericDate lib (tp_ExpiresAt pair))" "cl_NotBefore c = Some (jl_numericDate lib t1)"
proof -
  obtain t0 w where r0: "read_clock w0 = (t0, w)" by fastforce
  obtain t1 w' where r1: "read_clock w = (t1, w')" by fastforce
  let ?c = "\<lparr>cl_UserID = format_int (usr_ID u), cl_Email = usr_Email u, cl_Role = usr_Role u,
              cl_TokenType = AccessTokenType, cl_Issuer = jm_issuer m, cl_Subject = format_int (usr_ID u),
              cl_Audience = [jm_audience m], cl_ExpiresAt = Some (jl_numericDate lib (t0 + jm_accessTTL m)),
              cl_NotBefore = Some (jl_numericDate lib t1), cl_IssuedAt = Some (jl_numericDate lib t1), cl_ID = ''''\<rparr>"
  have "jl_sign lib ?c (jm_secret m) = Inr (tp_AccessToken pair) \<and> tp_ExpiresAt pair = t0 + jm_accessTTL m"
    using assms r0 r1
    by (auto simp: GenerateTokenPair_def jwt_sign_def Let_def split: prod.splits sum.splits)
  then show ?thesis by (intro that [of ?c t0 t1]) (simp_all add: r0 r1)
qed

text \<open>
  C20. An access token is good for what it was issued: a request that carries the access token of a
  generated pair in its header, at an instant within the token's time, passes the middleware
  with exactly the id and the role of the user the pair was generated for.
\<close>

theorem bearer_token_roundtrip:
  assumes "jwt_accepts (al_jwt L) m" "GenerateTokenPair (al_jwt L) m u w0 = (Inr pair, w1)" "0 < usr_ID u" "usr_ID u < 2 ^ 63"
    and "rq_Header (gc_Request c) ''Authorization'' = ''Bearer '' @ tp_AccessToken pair"
    and "jl_numericDate (al_jwt L) (fst (read_clock (snd (read_clock w0)))) \<le> fst (time_now (srv_times w))"
    and "fst (time_now (srv_times w)) < jl_numericDate (al_jwt L) (tp_ExpiresAt pair)"
    and "middleware_Auth (validate_token L m) c w = (c', w')"
  shows "GetActor c' = Some \<lparr>act_UserID = usr_ID u, act_Role = usr_Role u\<rparr> \<and> gc_Aborted c' = gc_Aborted c"
proof -
  obtain now ts where tn: "time_now (srv_times w) = (now, ts)" by fastforce
  obtain cl t0 t1 where cl: "jl_sign (al_jwt L) cl (jm_secret m) = Inr (tp_AccessToken pair)" "cl_UserID cl = format_int (usr_ID u)"
    "cl_Role cl = usr_Role u" "cl_TokenType cl = AccessTokenType" "cl_Issuer cl = jm_issuer m" "cl_Audience cl = [jm_audience m]"
    "fst (read_clock (snd (read_clock w0))) = t1" "cl_ExpiresAt cl = Some (jl_numericDate (al_jwt L) (tp_ExpiresAt pair))"
    "cl_NotBefore cl = Some (jl_numericDate (al_jwt L) t1)"
    by (rule issued_access_token [OF assms(2)]) blast
  have tok: "token_text (tp_AccessToken pair)" using assms(1) cl(1) by (auto simp: jwt_accepts_def)
  have parse: "jl_parse (al_jwt L) (parser_options m) (jm_secret m) now (tp_AccessToken pair) = Inr (cl, True)"
    using assms(1) assms(6,7) [unfolded tn fst_conv] cl by (auto simp: jwt_accepts_def parser_options_def)
  have uid: "cl_UserID cl \<noteq> ''''" by (simp add: cl(2))
  have "read_clock (accounts_of w) = (now, (accounts_of w)\<lparr>aw_times := ts\<rparr>)"
    unfolding read_clock_def by (subst (1) accounts_of_def) (simp add: tn)
  then have "jwt_validate (al_jwt L) m (tp_AccessToken pair) AccessTokenType (accounts_of w) = (Inr cl, (accounts_of w)\<lparr>aw_times := ts\<rparr>)"
    by (simp add: jwt_validate_def parse check_claims_def cl(4) uid AccessTokenType_def RefreshTokenType_def)
  then obtain w2 where v: "validate_token L m (tp_AccessToken pair) w = (Inr cl, w2)"
    by (simp add: validate_token_def on_accounts_def ValidateAccessToken_def)
  have p: "parse_int (cl_UserID cl) = Inr (usr_ID u)"
    using parse_int_format [of "usr_ID u"] assms(3,4) by (simp add: cl(2) in_int64_def)
  have "tp_AccessToken pair \<noteq> ''''" using tok by (simp add: token_text_def)
  moreover have "ExtractBearerToken (rq_Header (gc_Request c) ''Authorization'') = tp_AccessToken pair"
    unfolding assms(5) by (rule ExtractBearerToken_token [OF tok])
  ultimately show ?thesis
    using assms(3,8) v p cl(3) by (auto simp: middleware_Auth_def GetActor_def)
qed

text \<open>A library that issues visible tokens.\<close>

definition visible_jwt :: jwt_lib where
  "visible_jwt = demo_jwt\<lparr>jl_sign := (\<lambda>c key. let v = cl_TokenType c @ '':'' @ cl_ID c
     in if demo_claims v = c \<and> token_text v \<and> key = ''secret'' then Inr v else Inl (FmtError ''cannot sign''))\<rparr>"

lemma visible_jwt_accepts: "jwt_accepts visible_jwt demo_manager"
  by (auto simp: jwt_accepts_def visible_jwt_def demo_jwt_def demo_manager_def NewJWTManager_def Let_def split: if_splits)

theorem bearer_token_roundtrip_witness:
  "GetActor (fst (middleware_Auth (validate_token (demo_libs\<lparr>al_jwt := visible_jwt\<rparr>) demo_manager) (new_context get_file) demo_server)) =
     Some \<lparr>act_UserID = 9, act_Role = ''user''\<rparr>"
proof -
  let ?L = "demo_libs\<lparr>al_jwt := visible_jwt\<rparr>"
  let ?u = "\<lparr>usr_ID = 9, usr_Email = ''w@x.org'', usr_PasswordHash = '''', usr_Role = ''user'', usr_IsActive = True,
     usr_CreatedAt = 0, usr_UpdatedAt = 0, usr_DeletedAt = None\<rparr>"
  let ?g = "GenerateTokenPair visible_jwt demo_manager ?u (accounts_of demo_server)"
  have g: "case fst ?g of Inl e \<Rightarrow> False | Inr pair \<Rightarrow> tp_AccessToken pair = ''access:'' \<and> tp_ExpiresAt pair = 1060"
    by code_simp
  then obtain pair where pair: "fst ?g = Inr pair" "tp_AccessToken pair = ''access:''" "tp_ExpiresAt pair = 1060"
    by (auto split: sum.splits)
  have lib: "al_jwt ?L = visible_jwt" by simp
  have run: "GenerateTokenPair (al_jwt ?L) demo_manager ?u (accounts_of demo_server) = (Inr pair, snd ?g)"
    unfolding lib by (simp only: prod_eq_iff fst_conv snd_conv pair(1))
  have acc: "jwt_accepts (al_jwt ?L) demo_manager" by (simp add: visible_jwt_accepts)
  have h: "rq_Header (gc_Request (new_context get_file)) ''Authorization'' = ''Bearer '' @ tp_AccessToken pair"
    by (simp add: new_context_def get_file_def demo_request_def pair(2))
  have t: "jl_numericDate (al_jwt ?L) (fst (read_clock (snd (read_clock (accounts_of demo_server))))) \<le> fst (time_now (srv_times demo_server))"
    "fst (time_now (srv_times demo_server)) < jl_numericDate (al_jwt ?L) (tp_ExpiresAt pair)"
    by (simp_all add: visible_jwt_def demo_jwt_def read_clock_def accounts_of_def demo_server_def time_now_def pair(3))
  from bearer_token_roundtrip [OF acc run _ _ h t prod.collapse [symmetric]] show ?thesis by simp
qed

end
