(* ===== verification/Worker_Liveness.thy ===== *)
theory Worker_Liveness
  imports Worker_Loop
begin

text \<open>
  What the worker achieves: when nothing fails any more, its loop does not end before every
  claimable document whose job waits in the queue, and whose object is complete, is ready.
\<close>

subsection \<open>Ports without failures\<close>

text \<open>
  The contract of the ports allows every call to fail. Ports are calm in a state from which on no
  call fails for a reason outside the program.
\<close>

locale reliable_worker = worker_ports k docs rinv objs sinv
  for k :: "('p, 's) document_worker" and docs rinv objs sinv +
  fixes rcalm :: "'p \<Rightarrow> bool" and scalm :: "'s \<Rightarrow> bool"
  assumes get_live: "rinv p \<Longrightarrow> rcalm p \<Longrightarrow> docs p did = Some d \<Longrightarrow> repo_GetByID (wk_repository k) did p = (rg, p') \<Longrightarrow> \<exists>x. rg = Inr x"
    and get_calm: "rcalm p \<Longrightarrow> repo_GetByID (wk_repository k) did p = (rg, p') \<Longrightarrow> rcalm p'"
    and claim_live: "rinv p \<Longrightarrow> rcalm p \<Longrightarrow> repo_ClaimProcessing (wk_repository k) did p = (rb, p') \<Longrightarrow> \<exists>x. rb = Inr x"
    and claim_calm: "rcalm p \<Longrightarrow> repo_ClaimProcessing (wk_repository k) did p = (rb, p') \<Longrightarrow> rcalm p'"
    and ready_live: "rinv p \<Longrightarrow> rcalm p \<Longrightarrow> valid_checksum c \<Longrightarrow> docs p did = Some d \<Longrightarrow> is_processing d \<Longrightarrow> 0 \<le> n \<Longrightarrow>
          repo_MarkReady (wk_repository k) did c n p = (ru, p') \<Longrightarrow> ru = Inr ()"
    and ready_calm: "rcalm p \<Longrightarrow> repo_MarkReady (wk_repository k) did c n p = (ru, p') \<Longrightarrow> rcalm p'"
    and failed_calm: "rcalm p \<Longrightarrow> repo_MarkFailed (wk_repository k) did msg p = (ru, p') \<Longrightarrow> rcalm p'"
    and open_live: "sinv s \<Longrightarrow> scalm s \<Longrightarrow> storable key \<Longrightarrow> objs s key = Some b \<Longrightarrow> st_Open (wk_storage k) key s = (ro, s') \<Longrightarrow>
          \<exists>ob. ro = Inr ob \<and> source_fin (obj_Body ob) = io_EOF"
    and open_calm: "scalm s \<Longrightarrow> st_Open (wk_storage k) key s = (ro, s') \<Longrightarrow> scalm s'"
begin

definition calm :: "('p, 's, 'q) surroundings \<Rightarrow> bool" where
  "calm w \<longleftrightarrow> rcalm (sur_repository w) \<and> scalm (sur_storage w)"

lemma fail_calm: "calm w \<Longrightarrow> wk_fail k did reason w = (r, w') \<Longrightarrow> calm w'"
  by (auto simp: calm_def wk_fail_def on_repository_def split: prod.splits sum.splits dest: failed_calm)

lemma finish_calm: "calm w \<Longrightarrow> wk_finish sha256 k d ob w = (r, w') \<Longrightarrow> calm w'"
  by (auto simp: wk_finish_def Let_def split: option.splits prod.splits if_splits dest: fail_calm)
     (auto simp: calm_def on_repository_def split: prod.splits dest: ready_calm)

lemma process_calm:
  assumes "calm w" "wk_Process sha256 k job w = (r, w')"
  shows "calm w'"
proof -
  obtain g p1 where g: "repo_GetByID (wk_repository k) (job_DocumentID job) (sur_repository w) = (g, p1)" by fastforce
  have c1: "rcalm p1" "scalm (sur_storage w)" using assms(1) get_calm [OF _ g] by (auto simp: calm_def)
  show ?thesis
  proof (cases g)
    case (Inr d)
    obtain b p2 where b: "repo_ClaimProcessing (wk_repository k) (doc_ID d) p1 = (b, p2)" by fastforce
    have c2: "rcalm p2" by (rule claim_calm [OF c1(1) b])
    obtain ro s3 where o: "st_Open (wk_storage k) (doc_StorageKey d) (sur_storage w) = (ro, s3)" by fastforce
    have c3: "calm (w\<lparr>sur_repository := p2, sur_storage := s3\<rparr>)" using c2 open_calm [OF c1(2) o] by (simp add: calm_def)
    from assms(2) g Inr b o c1 c2 fail_calm [OF c3] finish_calm [OF c3] show ?thesis
      by (auto simp: wk_Process_def on_repository_def on_storage_def calm_def split: if_splits sum.splits)
  qed (use assms(2) g c1 in \<open>auto simp: wk_Process_def on_repository_def calm_def\<close>)
qed

text \<open>A job whose document can be claimed, and whose object is complete, is done.\<close>

lemma process_live:
  assumes ok: "sur_ok w" "calm w" and d: "Docs w (job_DocumentID job) = Some d" "doc_claimable d"
    and key: "storable (doc_StorageKey d)" "Objs w (doc_StorageKey d) = Some b" "doc_SizeBytes d = int (length b)"
    and sha: "\<And>b. length (sha256 b) = 32"
    and p: "wk_Process sha256 k job w = (r, w')"
  shows "r = Inr ()"
proof -
  have ri: "rinv (sur_repository w)" "rcalm (sur_repository w)" and si: "sinv (sur_storage w)" "scalm (sur_storage w)"
    using ok by (auto simp: sur_ok_def calm_def)
  obtain g p1 where g: "repo_GetByID (wk_repository k) (job_DocumentID job) (sur_repository w) = (g, p1)" by fastforce
  from get_live [OF ri d(1) g] obtain d' where "g = Inr d'" by blast
  with repo.get_ok [OF ri(1), of "job_DocumentID job" d' p1] g d(1)
  have d1: "g = Inr d" "rinv p1" "docs p1 = Docs w" "doc_ID d = job_DocumentID job" by auto
  have c1: "rcalm p1" by (rule get_calm [OF ri(2) g])
  obtain cb p2 where c: "repo_ClaimProcessing (wk_repository k) (doc_ID d) p1 = (cb, p2)" by fastforce
  from claim_live [OF d1(2) c1 c] obtain x where x: "cb = Inr x" by blast
  from repo.claim_ok [OF d1(2) c [unfolded x]] d d1(3,4) have x': "x" by (auto split: if_splits)
  from repo.claim_ok [OF d1(2) c [unfolded x]] x' obtain u where
    d2: "rinv p2" "docs p2 (doc_ID d) = Some (doc_claim u d)" using d d1(3,4) by (auto simp: doc_changed_def)
  have c2: "rcalm p2" by (rule claim_calm [OF c1 c])
  obtain ro s3 where o: "st_Open (wk_storage k) (doc_StorageKey d) (sur_storage w) = (ro, s3)" by fastforce
  from open_live [OF si key(1,2) o] obtain ob where ob: "ro = Inr ob" "source_fin (obj_Body ob) = io_EOF" by blast
  from store.open_ok [OF si(1) key(1) o [unfolded ob(1)]] ob(2) key(2) have body: "source_bytes (obj_Body ob) = b" by simp
  from plain.copy_append [of "obj_Body ob" "[]"] ob(2) body obtain src where
    copy: "io_copy append_write source_read (obj_Body ob) [] = Some (None, src, b)" by auto
  have nr: "doc_Status d \<noteq> DocumentReady" using d(2) by (auto simp: doc_claimable_def status_defs)
  obtain m p4 where m: "repo_MarkReady (wk_repository k) (doc_ID d) (hex_encode (sha256 b)) (int (length b)) p2 = (m, p4)" by fastforce
  have "is_processing (doc_claim u d)" by (simp add: is_processing_def doc_claim_def)
  then have "m = Inr ()" by (rule ready_live [OF d2(1) c2 valid_digest [of sha256, OF sha] d2(2) _ _ m]) simp
  with p g d1(1,4) nr c x x' o ob(1) copy key(3) m show ?thesis
    by (simp add: wk_Process_def on_repository_def on_storage_def wk_finish_def Let_def)
qed

end

subsection \<open>PostgreSQL and the local storage without failures\<close>

lemma pg_call_calm: "pg_faults db = [] \<Longrightarrow>
    pg_call stmt db = (fst (stmt (pg_now db) (pg_tables db)), db\<lparr>pg_tables := snd (stmt (pg_now db) (pg_tables db)), pg_faults := []\<rparr>)"
  by (simp add: pg_call_def faulty_no_fault)

lemma mark_ready_result:
  assumes "valid_checksum c" "0 \<le> n"
  shows "\<exists>x. fst (sql_MarkDocumentReady c n did now t) = Inr x"
  using checksum_column [OF assms(1)] assms(2) by (simp add: sql_MarkDocumentReady_def Let_def)

definition store_calm :: "local_fs \<Rightarrow> bool" where
  "store_calm l \<longleftrightarrow> lf_faults l = [] \<and> lf_ctx l = []"

lemma calm_os: "store_calm l \<Longrightarrow> os_fault l = (None, l)" "store_calm l \<Longrightarrow> ctx_check l = (None, l)"
  by (simp_all add: store_calm_def os_fault_def ctx_check_def ctx_err_def)

lemma filepath_rel_below:
  assumes "\<forall>c \<in> set (b @ cs). normal_comp c" "cs \<noteq> []"
  shows "filepath_rel (abs_path b) (abs_path (b @ cs)) = join_with slash cs"
proof -
  have "rel_comps b (b @ cs) = cs" for b by (induction b) (cases cs; simp)+
  with assms show ?thesis by (simp add: filepath_rel_def abs_comps_abs_path)
qed

lemma calm_Open:
  assumes ok: "store_ok rc l" "store_calm l" and k: "storable key" "local_objects rc l key = Some b"
  shows "\<exists>ob. local_Open (abs_path rc) key l = (Inr ob, l) \<and> source_fin (obj_Body ob) = io_EOF"
proof -
  let ?p = "rc @ key_comps key"
  from ok have t0: "tree_ok rc (lf_fs l)" by (simp add: store_ok_def)
  note n = storable_comps [OF k(1)]
  have f: "lf_fs l ?p = Some (File b)"
    using k by (auto simp: local_objects_def tree_objects_def file_at_def split: option.splits node.splits)
  have nrc: "\<forall>c \<in> set (rc @ key_comps key). normal_comp c" using tree_ok_rc [OF t0] n(2) by auto
  have ev: "eval_resolve (lf_fs l) (abs_path ?p) = Inr ?p"
    using eval_store_Inl [OF t0 n(2)] eval_store [OF t0 n(2)] f by (cases "eval_resolve (lf_fs l) (abs_path ?p)") auto
  have kr: "kernel_resolve (lf_fs l) (abs_path ?p) = Inr ?p"
    using kernel_store_Inl [OF t0 n(2)] kernel_store [OF t0 n(2)] f by (cases "kernel_resolve (lf_fs l) (abs_path ?p)") auto
  have rel: "filepath_rel (abs_path rc) (abs_path ?p) = key"
    using filepath_rel_below [OF nrc n(1)] n(4) by simp
  have "key \<noteq> dotdot" "\<not> has_prefix key ''../''"
    using k(1) by (auto simp: storable_def validateKey_def split: if_splits)
  then have v: "verifyInside (abs_path rc) (abs_path ?p) l = (None, l)"
    by (simp add: verifyInside_def filepath_EvalSymlinks_def calm_os [OF ok(2)] ev rel Let_def)
  have "pathForExisting (abs_path rc) key l = (Inr (abs_path ?p), l)"
    using pathForWrite_storable [OF k(1) tree_ok_rc [OF t0]] v
    by (simp add: pathForExisting_def filepath_EvalSymlinks_def calm_os [OF ok(2)] ev)
  then show ?thesis
    by (simp add: local_Open_def os_Open_def calm_os [OF ok(2)] kr f)
qed

lemma os_fault_calm: "store_calm l \<Longrightarrow> os_fault l = (e, l') \<Longrightarrow> store_calm l'"
  by (auto simp: store_calm_def os_fault_def)

lemma Open_calm: "store_calm l \<Longrightarrow> local_Open root key l = (r, l') \<Longrightarrow> store_calm l'"
  by (auto simp: local_Open_def pathForExisting_def verifyInside_def filepath_EvalSymlinks_def os_Open_def calm_os Let_def
      split: prod.splits sum.splits if_splits option.splits node.splits)

interpretation calm_wk: reliable_worker "app_worker rc" pg_documents pg_inv "local_objects rc" "store_ok rc"
    "\<lambda>db. pg_faults db = []" store_calm
  for rc
proof (unfold_locales, goal_cases)
  case (1 p did d rg p')
  then obtain r0 where "r0 \<in> set (t_documents (pg_tables p))" "dbd_ID r0 = did" "live r0"
    by (auto simp: pg_documents_def docs_of_def dest!: row_by_Some split: option.splits if_splits)
  then have "find (\<lambda>r. dbd_ID r = did \<and> live r) (t_documents (pg_tables p)) \<noteq> None" by (auto simp: find_None_iff)
  with 1 show ?case by (auto simp: pg_repository_def dr_GetByID_def pg_call_calm sql_GetDocumentByID_def)
next
  case (2 p did rg p')
  then show ?case by (auto simp: pg_repository_def dr_GetByID_def pg_call_calm split: prod.splits sum.splits)
next
  case (3 p did rb p')
  then show ?case by (auto simp: pg_repository_def dr_ClaimProcessing_def pg_call_calm sql_ClaimDocumentProcessing_def Let_def)
next
  case (4 p did rb p')
  then show ?case by (auto simp: pg_repository_def dr_ClaimProcessing_def pg_call_calm split: prod.splits sum.splits)
next
  case (5 p c did d n ru p')
  let ?t = "pg_tables p"
  obtain x t' where x: "sql_MarkDocumentReady c n did (pg_now p) ?t = (Inr x, t')"
    using mark_ready_result [OF 5(3,6), of did "pg_now p" ?t] by (metis prod.collapse)
  have "docs_inv ?t" using 5(1) by (simp add: pg_inv_def)
  with keyed_MarkReady [OF 5(3), of did n] x have
    "x = 1 \<or> x = 0 \<and> (\<forall>d. docs_of ?t did = Some d \<longrightarrow> \<not> is_processing d)"
    unfolding keyed_update_def by fastforce
  with 5(4,5) have "x = 1" by (auto simp: pg_documents_def)
  with 5(2,7) x show ?case by (simp add: pg_repository_def dr_MarkReady_def pg_call_calm)
next
  case (6 p did c n ru p')
  then show ?case by (auto simp: pg_repository_def dr_MarkReady_def pg_call_calm split: prod.splits sum.splits)
next
  case (7 p did msg ru p')
  then show ?case by (auto simp: pg_repository_def dr_MarkFailed_def pg_call_calm split: prod.splits sum.splits)
next
  case (8 s key b ro s')
  then show ?case using calm_Open [of rc s key b] by auto
next
  case (9 s key ro s')
  then show ?case using Open_calm by simp
qed

subsection \<open>Redis without failures\<close>

lemma redis_call_calm: "rd_faults r = [] \<Longrightarrow>
    redis_call cmd r = (fst (cmd (rd_lists r)), r\<lparr>rd_lists := snd (cmd (rd_lists r)), rd_faults := []\<rparr>)"
  by (simp add: redis_call_def faulty_no_fault)

lemma calm_queue:
  assumes "queue_names_ok q" "rd_faults r = []"
  shows calm_Consume: "rd_lists r (rq_main q) \<noteq> [] \<Longrightarrow> decode_job (last (rd_lists r (rq_main q))) = Some j \<Longrightarrow>
      q_Consume q r = (Inr \<lparr>clj_job = j, clj_payload = last (rd_lists r (rq_main q))\<rparr>,
        r\<lparr>rd_lists := move_lists (rq_main q) (rq_processing q) (rd_lists r), rd_faults := []\<rparr>)"
    and calm_Consume_empty: "rd_lists r (rq_main q) = [] \<Longrightarrow> \<exists>e. q_Consume q r = (Inl e, r\<lparr>rd_faults := []\<rparr>)"
    and calm_Ack: "q_Ack q c r = (Inr (), r\<lparr>rd_lists := remove_lists (rq_processing q) (clj_payload c) (rd_lists r), rd_faults := []\<rparr>)"
    and calm_Retry: "retry_target q (clj_job c) = (dest, nxt) \<Longrightarrow> q_Retry q c e r = (Inr (),
      r\<lparr>rd_lists := push_lists dest (json_marshal_job nxt) (remove_lists (rq_processing q) (clj_payload c) (rd_lists r)), rd_faults := []\<rparr>)"
proof -
  have b: "rq_backend q = redis_backend" using assms(1) by (simp add: queue_names_ok_def)
  note run = b redis_backend_def redis_call_calm [OF assms(2)]
  show "rd_lists r (rq_main q) \<noteq> [] \<Longrightarrow> decode_job (last (rd_lists r (rq_main q))) = Some j \<Longrightarrow>
      q_Consume q r = (Inr \<lparr>clj_job = j, clj_payload = last (rd_lists r (rq_main q))\<rparr>,
        r\<lparr>rd_lists := move_lists (rq_main q) (rq_processing q) (rd_lists r), rd_faults := []\<rparr>)"
    by (simp add: q_Consume_def run redis_Move_def decode_job_Some)
  show "rd_lists r (rq_main q) = [] \<Longrightarrow> \<exists>e. q_Consume q r = (Inl e, r\<lparr>rd_faults := []\<rparr>)"
    by (simp add: q_Consume_def run redis_Move_def)
  show "q_Ack q c r = (Inr (), r\<lparr>rd_lists := remove_lists (rq_processing q) (clj_payload c) (rd_lists r), rd_faults := []\<rparr>)"
    by (simp add: q_Ack_def run redis_Remove_def)
  show "q_Retry q c e r = (Inr (),
      r\<lparr>rd_lists := push_lists dest (json_marshal_job nxt) (remove_lists (rq_processing q) (clj_payload c) (rd_lists r)), rd_faults := []\<rparr>)"
    if "retry_target q (clj_job c) = (dest, nxt)"
    using that by (simp add: q_Retry_def run redis_Remove_def redis_Push_def redis_call_calm)
qed

lemma calm_redis_next:
  "rd_faults (r\<lparr>rd_lists := x, rd_faults := []\<rparr>) = []" "rd_lists (r\<lparr>rd_lists := x, rd_faults := []\<rparr>) = x"
  by simp_all

text \<open>A job that is retried stays decodable, and is lighter than before.\<close>

lemma retried_payload:
  assumes "queue_names_ok q" "decode_job p = Some j" "retry_target q j = (dest, nxt)"
  shows "decode_job (json_marshal_job nxt) \<noteq> None"
    "dest = rq_main q \<Longrightarrow> payload_weight (rq_maxAttempts q) (json_marshal_job nxt) < payload_weight (rq_maxAttempts q) p"
proof -
  have jk: "job_ok j" by (rule decode_job_ok [OF assms(2)])
  note b = assms(1) [unfolded queue_names_ok_def]
  show "decode_job (json_marshal_job nxt) \<noteq> None"
  proof (cases "rq_maxAttempts q \<le> job_Attempt j")
    case True
    with assms(3) jk show ?thesis by (auto simp: retry_target_def decode_marshal)
  next
    case False
    have "wrap_signed 64 (job_Attempt j + 1) = job_Attempt j + 1"
      using False b jk by (intro wrap_signed_id) (auto simp: job_ok_def)
    then have "job_ok nxt" using False assms(3) jk b by (auto simp: retry_target_def job_ok_def)
    then show ?thesis by (simp add: decode_marshal)
  qed
  assume "dest = rq_main q"
  then have a: "\<not> rq_maxAttempts q \<le> job_Attempt j" using assms(3) b by (auto simp: retry_target_def)
  with assms(3) retry_weight [OF jk, of "rq_maxAttempts q"] b
  show "payload_weight (rq_maxAttempts q) (json_marshal_job nxt) < payload_weight (rq_maxAttempts q) p"
    by (auto simp: retry_target_def payload_weight_def assms(2))
qed

subsection \<open>The loop\<close>

definition progress :: "(bytes \<Rightarrow> bytes) \<Rightarrow> int \<Rightarrow> string \<Rightarrow> bytes \<Rightarrow> doc_map \<Rightarrow> string list \<Rightarrow> bool" where
  \<comment> \<open>the document is ready, or it can be claimed and a job for it waits\<close>
  "progress sha256 did key b m ps \<longleftrightarrow> (\<exists>d. m did = Some d \<and> doc_StorageKey d = key \<and> doc_SizeBytes d = int (length b) \<and>
     (doc_Status d = DocumentReady \<and> doc_ChecksumSHA256 d = Some (hex_encode (sha256 b)) \<or>
      doc_claimable d \<and> (\<exists>p \<in> set ps. \<exists>j. decode_job p = Some j \<and> job_DocumentID j = did)))"

lemma progress_mono: "progress sha256 did key b m ps \<Longrightarrow> set ps \<subseteq> set ps' \<Longrightarrow> progress sha256 did key b m ps'"
  unfolding progress_def by blast

lemma ready_not_claimable: "doc_Status d = DocumentReady \<Longrightarrow> \<not> doc_claimable d"
  by (simp add: doc_claimable_def status_defs)

lemma worker_step_size: "worker_step sha256 obj d d' \<Longrightarrow> doc_SizeBytes d' = doc_SizeBytes d"
  by (auto simp: worker_step_def doc_claim_def doc_ready_def doc_fail_def)

lemma progress_round:
  assumes "progress sha256 did key b m ps" "ps \<noteq> []" "decode_job (last ps) = Some j" "obj key = Some b"
    and ch: "worker_change sha256 obj (job_DocumentID j) m m'"
    and won: "\<And>d. job_DocumentID j = did \<Longrightarrow> m did = Some d \<Longrightarrow> doc_claimable d \<Longrightarrow> doc_StorageKey d = key \<Longrightarrow>
        doc_SizeBytes d = int (length b) \<Longrightarrow> \<exists>d'. m' did = Some d' \<and> doc_Status d' = DocumentReady"
  shows "progress sha256 did key b m' (butlast ps)"
proof -
  obtain d where d: "m did = Some d" "doc_StorageKey d = key" "doc_SizeBytes d = int (length b)"
    "doc_Status d = DocumentReady \<and> doc_ChecksumSHA256 d = Some (hex_encode (sha256 b)) \<or>
      doc_claimable d \<and> (\<exists>p \<in> set ps. \<exists>j. decode_job p = Some j \<and> job_DocumentID j = did)"
    using assms(1) by (auto simp: progress_def)
  show ?thesis
  proof (cases "doc_Status d = DocumentReady \<or> job_DocumentID j \<noteq> did")
    case True
    have same: "m' did = Some d" using True ch d(1) ready_not_claimable [of d] by (auto simp: worker_change_def worker_step_def)
    have "p \<in> set (butlast ps)" if "p \<in> set ps" "decode_job p = Some i" "job_DocumentID i = did" "job_DocumentID j \<noteq> did" for p i
      using that assms(2,3) by (cases ps rule: rev_cases) auto
    with True same d ready_not_claimable [of d] show ?thesis unfolding progress_def by (intro exI [of _ d]) blast
  next
    case False
    then have c: "doc_claimable d" and jd: "job_DocumentID j = did" using d(4) by auto
    from won [OF jd d(1) c d(2,3)] obtain d' where d': "m' did = Some d'" "doc_Status d' = DocumentReady" by blast
    with d(1) False have "m' \<noteq> m" by auto
    with ch jd d(1) d'(1) have st: "worker_step sha256 obj d d'" by (auto simp: worker_change_def)
    from worker_step_intact [OF st d'(2)] worker_step_fields [OF st] worker_step_size [OF st] d(2,3) assms(4)
    have "doc_ChecksumSHA256 d' = Some (hex_encode (sha256 b))" "doc_StorageKey d' = key" "doc_SizeBytes d' = int (length b)" by auto
    with d' show ?thesis by (auto simp: progress_def)
  qed
qed

context reliable_worker
begin

text \<open>One round over a queue with a job: it is taken, processed, and acknowledged or put back.\<close>

lemma calm_round:
  assumes q: "queue_names_ok q" and sha: "\<And>b. length (sha256 b) = 32"
    and w: "sur_ok w" "calm w" "rd_faults (sur_queue w) = []" "\<forall>i d. Docs w i = Some d \<longrightarrow> storable (doc_StorageKey d)"
    and ps: "rd_lists (sur_queue w) (rq_main q) = ps" "ps \<noteq> []" "\<forall>p \<in> set ps. decode_job p \<noteq> None"
    and key: "Objs w key = Some b" "progress sha256 did key b (Docs w) ps"
  obtains w' ps' where
    "wk_Run sha256 k (redis_queue_port q) (redis_claims q) [] w = wk_Run sha256 k (redis_queue_port q) (redis_claims q) [] w'"
    "sur_ok w'" "calm w'" "rd_faults (sur_queue w') = []" "\<forall>i d. Docs w' i = Some d \<longrightarrow> storable (doc_StorageKey d)"
    "rd_lists (sur_queue w') (rq_main q) = ps'" "\<forall>p \<in> set ps'. decode_job p \<noteq> None" "Objs w' key = Some b"
    "progress sha256 did key b (Docs w') ps'" "list_weight (rq_maxAttempts q) ps' < list_weight (rq_maxAttempts q) ps"
proof -
  note n = q [unfolded queue_names_ok_def]
  let ?p = "last ps"
  have lp: "?p \<in> set ps" using ps(2) by simp
  then obtain j where j: "decode_job ?p = Some j" using ps(3) by blast
  let ?c = "\<lparr>clj_job = j, clj_payload = ?p\<rparr>" and ?r1 = "(sur_queue w)\<lparr>rd_lists := move_lists (rq_main q) (rq_processing q) (rd_lists (sur_queue w)), rd_faults := []\<rparr>"
  let ?w1 = "w\<lparr>sur_queue := ?r1\<rparr>"
  have cons: "q_Consume q (sur_queue w) = (Inr ?c, ?r1)"
    using calm_Consume [OF q w(3), of j] ps j by simp
  obtain r w2 where p: "wk_Process sha256 k j ?w1 = (r, w2)" by fastforce
  have ok1: "sur_ok ?w1" "calm ?w1" using w(1,2) by (simp_all add: sur_ok_def calm_def)
  have st: "sur_ok w2 \<and> Objs w2 = Objs w \<and> sur_queue w2 = ?r1 \<and> worker_change sha256 (Objs w) (job_DocumentID j) (Docs w) (Docs w2) \<and>
      (r = Inr () \<longrightarrow> (\<exists>d. Docs w2 (job_DocumentID j) = Some d \<and> \<not> doc_claimable d \<and> (Docs w2 \<noteq> Docs w \<longrightarrow> doc_Status d = DocumentReady)))"
    using process_step [OF ok1(1) _ sha p] w(4) by simp
  have c2: "calm w2" by (rule process_calm [OF ok1(2) p])
  have keys2: "\<forall>i d. Docs w2 i = Some d \<longrightarrow> storable (doc_StorageKey d)"
    using worker_change_keys [of sha256 "Objs w" "job_DocumentID j" "Docs w" "Docs w2"] st w(4) by (simp add: keys_ok_def)
  have live: "r = Inr () \<and> (\<exists>d'. Docs w2 did = Some d' \<and> doc_Status d' = DocumentReady)"
    if "job_DocumentID j = did" "Docs w did = Some d" "doc_claimable d" "doc_StorageKey d = key" "doc_SizeBytes d = int (length b)" for d
  proof -
    have "r = Inr ()" by (rule process_live [OF ok1 _ that(3) _ _ that(5) sha p]) (use that w(4) key(1) in auto)
    with st that show ?thesis by auto
  qed
  have pr: "progress sha256 did key b (Docs w2) (butlast ps)"
    by (rule progress_round [where obj = "Objs w", OF key(2) ps(2) j key(1)]) (use st live in blast)+
  have lists2: "rd_lists (sur_queue w2) (rq_main q) = butlast ps" "rd_faults (sur_queue w2) = []"
    using st n ps(1) by (simp_all add: move_lists_def Let_def)
  have wt: "list_weight (rq_maxAttempts q) ps = list_weight (rq_maxAttempts q) (butlast ps) + payload_weight (rq_maxAttempts q) ?p"
    by (rule list_weight_butlast [OF ps(2)])
  have dec: "\<forall>p \<in> set (butlast ps). decode_job p \<noteq> None" using ps(3) by (blast dest: in_set_butlastD)
  have "\<exists>r3 ps'. on_queue (case r of Inl e \<Rightarrow> q_Retry q ?c e | Inr u \<Rightarrow> q_Ack q ?c) w2 = (Inr (), w2\<lparr>sur_queue := r3\<rparr>) \<and>
      rd_faults r3 = [] \<and> rd_lists r3 (rq_main q) = ps' \<and> set (butlast ps) \<subseteq> set ps' \<and> (\<forall>p \<in> set ps'. decode_job p \<noteq> None) \<and>
      list_weight (rq_maxAttempts q) ps' < list_weight (rq_maxAttempts q) ps"
  proof (cases r)
    case (Inr u)
    with calm_Ack [OF q lists2(2), of ?c] n lists2(1) dec wt payload_weight_pos [of "rq_maxAttempts q" ?p] show ?thesis
      by (intro exI [of _ "(sur_queue w2)\<lparr>rd_lists := remove_lists (rq_processing q) ?p (rd_lists (sur_queue w2)), rd_faults := []\<rparr>"]
            exI [of _ "butlast ps"])
        (auto simp: on_queue_def remove_lists_def)
  next
    case (Inl e)
    obtain dest nxt where t: "retry_target q j = (dest, nxt)" by fastforce
    let ?ps = "if dest = rq_main q then json_marshal_job nxt # butlast ps else butlast ps"
    note rp = retried_payload [OF q j t]
    have "list_weight (rq_maxAttempts q) ?ps < list_weight (rq_maxAttempts q) ps"
      using rp(2) wt payload_weight_pos [of "rq_maxAttempts q" ?p] by (simp add: list_weight_def)
    moreover have "\<forall>p \<in> set ?ps. decode_job p \<noteq> None" using rp(1) dec by simp
    ultimately show ?thesis using Inl calm_Retry [OF q lists2(2), of ?c dest nxt e] t n lists2(1)
      by (intro exI [of _ "(sur_queue w2)\<lparr>rd_lists := push_lists dest (json_marshal_job nxt)
            (remove_lists (rq_processing q) ?p (rd_lists (sur_queue w2))), rd_faults := []\<rparr>"] exI [of _ ?ps])
        (auto simp: on_queue_def push_lists_def remove_lists_def)
  qed
  then obtain r3 ps' where f: "on_queue (case r of Inl e \<Rightarrow> q_Retry q ?c e | Inr u \<Rightarrow> q_Ack q ?c) w2 = (Inr (), w2\<lparr>sur_queue := r3\<rparr>)"
    and r3: "rd_faults r3 = []" "rd_lists r3 (rq_main q) = ps'" "set (butlast ps) \<subseteq> set ps'" "\<forall>p \<in> set ps'. decode_job p \<noteq> None"
      "list_weight (rq_maxAttempts q) ps' < list_weight (rq_maxAttempts q) ps" by blast
  have "wk_Run sha256 k (redis_queue_port q) (redis_claims q) [] w =
      wk_Run sha256 k (redis_queue_port q) (redis_claims q) [] (w2\<lparr>sur_queue := r3\<rparr>)"
    using cons p f by (cases r) (simp_all add: wk_Run.simps [of sha256 k "redis_queue_port q" "redis_claims q" "[]" w] ctx_err_def on_queue_def q_Job_def)
  moreover have "progress sha256 did key b (Docs w2) ps'" by (rule progress_mono [OF pr r3(3)])
  ultimately show ?thesis
    by (intro that [of "w2\<lparr>sur_queue := r3\<rparr>" ps']) (use st c2 keys2 r3 key(1) in \<open>simp_all add: sur_ok_def calm_def\<close>)
qed

lemma run_makes_ready:
  assumes q: "queue_names_ok q" and sha: "\<And>b. length (sha256 b) = 32"
  shows "sur_ok w \<Longrightarrow> calm w \<Longrightarrow> rd_faults (sur_queue w) = [] \<Longrightarrow> \<forall>i d. Docs w i = Some d \<longrightarrow> storable (doc_StorageKey d) \<Longrightarrow>
    \<forall>p \<in> set (rd_lists (sur_queue w) (rq_main q)). decode_job p \<noteq> None \<Longrightarrow> Objs w key = Some b \<Longrightarrow>
    progress sha256 did key b (Docs w) (rd_lists (sur_queue w) (rq_main q)) \<Longrightarrow>
    \<exists>e w' d. wk_Run sha256 k (redis_queue_port q) (redis_claims q) [] w = Some (e, w') \<and> rd_lists (sur_queue w') (rq_main q) = [] \<and>
      Docs w' did = Some d \<and> doc_Status d = DocumentReady \<and> doc_ChecksumSHA256 d = Some (hex_encode (sha256 b)) \<and> doc_StorageKey d = key"
proof (induction "main_weight q (sur_queue w)" arbitrary: w rule: less_induct)
  case less
  let ?ps = "rd_lists (sur_queue w) (rq_main q)"
  show ?case
  proof (cases "?ps = []")
    case True
    from calm_Consume_empty [OF q less.prems(3) True] obtain e where
      e: "q_Consume q (sur_queue w) = (Inl e, (sur_queue w)\<lparr>rd_faults := []\<rparr>)" by blast
    then have "wk_Run sha256 k (redis_queue_port q) (redis_claims q) [] w = Some (e, w\<lparr>sur_queue := (sur_queue w)\<lparr>rd_faults := []\<rparr>\<rparr>)"
      by (simp add: wk_Run.simps [of sha256 k "redis_queue_port q" "redis_claims q" "[]" w] ctx_err_def on_queue_def)
    with less.prems(7) True show ?thesis by (auto simp: progress_def)
  next
    case False
    from calm_round [OF q sha less.prems(1-4) refl False less.prems(5-7)] obtain w' ps' where r:
      "wk_Run sha256 k (redis_queue_port q) (redis_claims q) [] w = wk_Run sha256 k (redis_queue_port q) (redis_claims q) [] w'"
      "sur_ok w'" "calm w'" "rd_faults (sur_queue w') = []" "\<forall>i d. Docs w' i = Some d \<longrightarrow> storable (doc_StorageKey d)"
      "rd_lists (sur_queue w') (rq_main q) = ps'" "\<forall>p \<in> set ps'. decode_job p \<noteq> None" "Objs w' key = Some b"
      "progress sha256 did key b (Docs w') ps'" "list_weight (rq_maxAttempts q) ps' < list_weight (rq_maxAttempts q) ?ps"
      by blast
    have "main_weight q (sur_queue w') < main_weight q (sur_queue w)" using r(6,10) by (simp add: main_weight_def)
    from less.hyps [OF this r(2-5)] r(6-9) show ?thesis unfolding r(1) by blast
  qed
qed

end

end
