(* ===== verification/Worker_Progress.thy ===== *)
theory Worker_Progress
  imports Worker_Liveness Demo_Run
begin

text \<open>The end of an upload's way: the worker makes its document ready.\<close>

lemma waiting_payload: "j \<in> set (waiting_jobs ps) \<Longrightarrow> \<exists>p \<in> set ps. decode_job p = Some j"
  by (auto simp: waiting_jobs_def List.map_filter_def)

text \<open>
  C23. An accepted upload becomes a ready document: once the database, the storage and the queue
  answer, and if every payload in the main queue is a job, the worker's loop does not end
  before the document is ready, with the SHA-256 of exactly the uploaded bytes, and the queue
  is empty - whatever other jobs were queued before it, and however often they fail.
\<close>

theorem accepted_upload_becomes_ready:
  assumes "program_ok rc w" "keys_ok (documents w)" "0 < m" "m < 2 ^ 63" "proper_upload input"
    and q: "q = queue_of main processing dead n" "main \<noteq> processing" "main \<noteq> dead" "n < 2 ^ 63"
    and s: "s = app_service ul rc q m mts cdn"
    and run: "ds_Create ul s actor input w = ((Some d, None), w')" "in_Body input = Some body"
    and calm: "pg_faults (sur_repository w') = []" "store_calm (sur_storage w')" "rd_faults (sur_queue w') = []"
    and jobs: "\<forall>p \<in> set (rd_lists (sur_queue w') main). decode_job p \<noteq> None"
    and sha: "\<forall>b. length (sha256 b) = 32"
  shows "\<exists>e w'' d'. wk_Run sha256 (app_worker rc) (redis_queue_port q) (redis_claims q) [] w' = Some (e, w'') \<and>
    rd_lists (sur_queue w'') main = [] \<and> documents w'' (doc_ID d) = Some d' \<and>
    doc_Status d' = DocumentReady \<and> doc_ChecksumSHA256 d' = Some (hex_encode (sha256 (source_bytes body)))"
proof -
  have c: "configured s" using assms(3,4) by (simp add: s configured_local)
  have ok: "app.sur_ok rc w" using assms(1) by (simp add: program_ok_app)
  obtain oid nd d0 where up: "accepted_upload ul s actor input oid body nd" "d = setPublicURL s d0" "program_ok rc w'"
    "doc_created nd d0 (documents w) (documents w')" "objects rc w' = (objects rc w)(nd_StorageKey nd \<mapsto> source_bytes body)"
    "jobs_in main w' = jobs_in main w @ [first_job d0]"
  proof (rule app.create_cases [OF ok proper_uploadD [OF assms(5)] run(1) [unfolded s q(1)] c [unfolded s q(1)]], goal_cases)
    case (2 oid body' nd d1)
    have "body' = body" using 2(3) run(2) by (simp add: accepted_upload_def)
    with 2 show ?case by (intro 2(1) [of oid nd d1]) (auto simp: s q(1) program_ok_app)
  qed auto
  have key: "storable (nd_StorageKey nd)"
    using up(1) c object_key_storable [of "sv_storageKeyPrefix s" oid] by (auto simp: accepted_upload_def configured_def)
  have keys: "keys_ok (documents w')" by (rule doc_created_keys [OF up(4) key assms(2)])
  have d0: "documents w' (doc_ID d0) = Some d0" "doc_StorageKey d0 = nd_StorageKey nd" "doc_claimable d0"
      "doc_SizeBytes d0 = int (length (source_bytes body))"
    using up(1,4) by (auto simp: doc_created_def fresh_document_def doc_claimable_def accepted_upload_def)
  have "first_job d0 \<in> set (jobs_in main w')" using up(6) by simp
  then obtain p where p: "p \<in> set (rd_lists (sur_queue w') main)" "decode_job p = Some (first_job d0)"
    by (blast dest: waiting_payload)
  have "job_DocumentID (first_job d0) = doc_ID d0" by (simp add: first_job_def)
  with d0 p have pr: "progress sha256 (doc_ID d0) (nd_StorageKey nd) (source_bytes body) (documents w') (rd_lists (sur_queue w') main)"
    unfolding progress_def by blast
  have qn: "queue_names_ok q" using q by (simp add: queue_names_ok_queue_of)
  have qm: "rq_main q = main" by (simp add: q(1) queue_of_def newRedisQueue_def)
  have sh: "length (sha256 b) = 32" for b using sha by blast
  have "app_wk.sur_ok rc w'" using up(3) by (simp add: program_ok_app)
  moreover have "calm_wk.calm w'" using calm(1,2) by (simp add: calm_wk.calm_def)
  ultimately have "\<exists>e w'' d'. wk_Run sha256 (app_worker rc) (redis_queue_port q) (redis_claims q) [] w' = Some (e, w'') \<and>
      rd_lists (sur_queue w'') (rq_main q) = [] \<and> documents w'' (doc_ID d0) = Some d' \<and> doc_Status d' = DocumentReady \<and>
      doc_ChecksumSHA256 d' = Some (hex_encode (sha256 (source_bytes body))) \<and> doc_StorageKey d' = nd_StorageKey nd"
    by (rule calm_wk.run_makes_ready [of q sha256, OF qn sh])
      (use sha calm(3) keys jobs up(5) pr qm in \<open>simp_all add: keys_ok_def\<close>)
  with up(2) qm show ?thesis by (simp add: setPublicURL_def) blast
qed

theorem accepted_upload_becomes_ready_witness:
  "\<exists>e w'' d'. wk_Run demo_sha256 (app_worker demo_root) (redis_queue_port demo_queue) (redis_claims demo_queue) [] demo_uploaded = Some (e, w'') \<and>
     documents w'' 1 = Some d' \<and> doc_Status d' = DocumentReady \<and> doc_ChecksumSHA256 d' = Some (hex_encode (demo_sha256 ''hello''))"
proof -
  have r: "\<exists>d. ds_Create (\<lambda>s. s) demo_service demo_actor demo_upload demo_state = ((Some d, None), demo_uploaded) \<and> doc_ID d = 1"
  proof -
    let ?r = "ds_Create (\<lambda>s. s) demo_service demo_actor demo_upload demo_state"
    have "snd (fst ?r) = None \<and> fst (fst ?r) \<noteq> None \<and> doc_ID (the (fst (fst ?r))) = 1" by code_simp
    moreover have "demo_uploaded = snd ?r" by (simp add: demo_uploaded_def)
    ultimately show ?thesis by (metis option.collapse prod.collapse)
  qed
  then obtain d where d: "ds_Create (\<lambda>s. s) demo_service demo_actor demo_upload demo_state = ((Some d, None), demo_uploaded)" "doc_ID d = 1"
    by blast
  have calm: "pg_faults (sur_repository demo_uploaded) = []" "store_calm (sur_storage demo_uploaded)" "rd_faults (sur_queue demo_uploaded) = []"
    unfolding store_calm_def by code_simp+
  have jobs: "\<forall>p \<in> set (rd_lists (sur_queue demo_uploaded) ''main''). decode_job p \<noteq> None" by code_simp
  have b: "in_Body demo_upload = Some [(''hel'', None), (''lo'', None)]" by code_simp
  note i = program_invD [OF demo_state_inv]
  from accepted_upload_becomes_ready [OF i(1,2) _ _ demo_upload_proper demo_queue_def _ _ _ demo_service_app [folded demo_queue_def] d(1) b calm jobs, of demo_sha256]
    demo_sha256_length d(2)
  show ?thesis by (simp add: demo_queue_def) blast
qed

end
