(* ===== verification/Claim_Exclusion.thy ===== *)
theory Claim_Exclusion
  imports Demo_Run
begin

text \<open>
  Workers that race for one document. What two workers that got the same job do to its row before
  one of them has finished are reads and claims, in any order; every command may fail, before or
  after it ran.
\<close>

datatype row_use = UseGet | UseClaim

fun race :: "int \<Rightarrow> row_use list \<Rightarrow> pg \<Rightarrow> (go_error + bool) list \<times> pg" where
  \<comment> \<open>the answers to the claims\<close>
  "race did [] db = ([], db)"
| "race did (UseGet # us) db = (case dr_GetByID did db of (_, db1) \<Rightarrow> race did us db1)"
| "race did (UseClaim # us) db =
     (case dr_ClaimProcessing did db of (r, db1) \<Rightarrow> (case race did us db1 of (rs, db2) \<Rightarrow> (r # rs, db2)))"

definition won :: "(go_error + bool) list \<Rightarrow> nat" where
  "won rs = length (filter (\<lambda>r. r = Inr True) rs)"

lemma race_get:
  assumes "pg_inv db" "dr_GetByID did db = (r, db1)"
  shows "pg_inv db1 \<and> pg_documents db1 = pg_documents db"
  using pg_docs.get_ok [OF assms(1), of did _ db1] pg_docs.get_err [OF assms(1), of did _ db1] assms(2)
  by (cases r) (auto simp: pg_repository_def)

lemma race_claim:
  assumes "pg_inv db" "dr_ClaimProcessing did db = (r, db1)"
  shows "pg_inv db1" "r = Inr True \<Longrightarrow> \<exists>d. pg_documents db1 did = Some d \<and> is_processing d"
    "(\<And>d. pg_documents db did = Some d \<Longrightarrow> \<not> doc_claimable d) \<Longrightarrow> pg_documents db1 = pg_documents db \<and> r \<noteq> Inr True"
proof -
  have c: "repo_ClaimProcessing pg_repository did db = (r, db1)" using assms(2) by (simp add: pg_repository_def)
  note l = pg_docs.claim_ok [OF assms(1), of did _ db1] pg_docs.claim_err [OF assms(1), of did _ db1]
  show "pg_inv db1" using l c by (cases r) auto
  show "r = Inr True \<Longrightarrow> \<exists>d. pg_documents db1 did = Some d \<and> is_processing d"
    using l(1) c by (auto dest: doc_changed_claim_status)
  show "(\<And>d. pg_documents db did = Some d \<Longrightarrow> \<not> doc_claimable d) \<Longrightarrow> pg_documents db1 = pg_documents db \<and> r \<noteq> Inr True"
    using l c by (cases r) (auto simp: doc_changed_def split: if_splits)
qed

lemma no_second_win:
  assumes "pg_inv db" "\<And>d. pg_documents db did = Some d \<Longrightarrow> \<not> doc_claimable d" "race did us db = (rs, db')"
  shows "won rs = 0"
  using assms
proof (induction did us db arbitrary: rs rule: race.induct)
  case (2 did us db)
  obtain r db1 where g: "dr_GetByID did db = (r, db1)" by fastforce
  note f = race_get [OF "2.prems"(1) g]
  show ?case by (rule "2.IH" [OF g [symmetric]]) (use f 2 g in auto)
next
  case (3 did us db)
  obtain r db1 where c: "dr_ClaimProcessing did db = (r, db1)" by fastforce
  obtain rs1 where rs: "race did us db1 = (rs1, db')" "rs = r # rs1" using "3.prems"(3) c by (auto split: prod.splits)
  note f = race_claim [OF "3.prems"(1) c]
  from f(3) "3.prems"(2) have s: "pg_documents db1 = pg_documents db" "r \<noteq> Inr True" by blast+
  have "won rs1 = 0" by (rule "3.IH" [OF c [symmetric] f(1) _ rs(1)]) (use s(1) "3.prems"(2) in simp)
  with s(2) rs(2) show ?case by (simp add: won_def)
qed (simp add: won_def)

text \<open>
  C24. Of all the workers that race for a document, at most one is told that it has the document,
  whatever the order of their commands and whichever of them fail or are lost.
\<close>

theorem one_claim_wins:
  assumes "pg_inv db"
  shows "won (fst (race did us db)) \<le> 1"
  using assms
proof (induction did us db rule: race.induct)
  case (2 did us db)
  obtain r db1 where g: "dr_GetByID did db = (r, db1)" by fastforce
  from race_get [OF "2.prems" g] "2.IH" [OF g [symmetric]] g show ?case by simp
next
  case (3 did us db)
  obtain r db1 where c: "dr_ClaimProcessing did db = (r, db1)" by fastforce
  obtain rs1 db' where rs: "race did us db1 = (rs1, db')" by fastforce
  note f = race_claim [OF "3.prems" c]
  show ?case
  proof (cases "r = Inr True")
    case True
    from f(2) [OF this] have "\<And>d. pg_documents db1 did = Some d \<Longrightarrow> \<not> doc_claimable d"
      by (auto simp: is_processing_def doc_claimable_def status_defs)
    from no_second_win [OF f(1) this rs] True c rs show ?thesis by (simp add: won_def)
  next
    case False
    with "3.IH" [OF c [symmetric] f(1)] c rs show ?thesis by (simp add: won_def)
  qed
qed (simp add: won_def)

theorem one_claim_wins_witness:
  "won (fst (race 1 [UseGet, UseGet, UseClaim, UseClaim] (sur_repository demo_uploaded))) = 1"
proof -
  have i: "pg_inv (sur_repository demo_uploaded)" using program_invD(1) [OF demo_uploaded_inv] by (simp add: program_ok_def)
  have "won (fst (race 1 [UseGet, UseGet, UseClaim, UseClaim] (sur_repository demo_uploaded))) \<noteq> 0" by code_simp
  with one_claim_wins [OF i, of 1 "[UseGet, UseGet, UseClaim, UseClaim]"] show ?thesis by linarith
qed

end
