(* ===== verification/Database_Url.thy ===== *)
theory Database_Url
  imports App_Config
begin

text \<open>
  \<open>DatabaseConfig.URL\<close> of \<open>internal/config/config.go\<close>, over the escaping of \<open>net/url\<close>, and the
  proof that no user name, password, host, database name or SSL mode can be mistaken for another
  part of the URL.
\<close>

subsection \<open>Escaping\<close>

datatype encoding = EncodePath | EncodeHost | EncodeUserPassword | EncodeQueryComponent

definition alphanumeric :: "char \<Rightarrow> bool" where
  "alphanumeric c \<longleftrightarrow> is_digit c \<or> (let n = of_char c :: nat in 65 \<le> n \<and> n \<le> 90 \<or> 97 \<le> n \<and> n \<le> 122)"

definition shouldEscape :: "char \<Rightarrow> encoding \<Rightarrow> bool" where
  "shouldEscape c mode =
     (if alphanumeric c then False
      else if mode = EncodeHost \<and> c \<in> set (CHR 0x27 # ''!$&()*+,;=:[]<>'' @ [CHR 0x22]) then False
      else if c \<in> set ''-_.~'' then False
      else if c \<in> set ''$&+,/:;=?@'' then
        (case mode of
           EncodePath \<Rightarrow> c = CHR ''?''
         | EncodeUserPassword \<Rightarrow> c = CHR ''@'' \<or> c = CHR ''/'' \<or> c = CHR ''?'' \<or> c = CHR '':''
         | _ \<Rightarrow> True)
      else True)"

definition upperhex :: "nat \<Rightarrow> char" where
  "upperhex n = ''0123456789ABCDEF'' ! n"

definition escape_byte :: "encoding \<Rightarrow> char \<Rightarrow> string" where
  "escape_byte mode c =
     (if c = CHR '' '' \<and> mode = EncodeQueryComponent then ''+''
      else if shouldEscape c mode then [CHR ''%'', upperhex (of_char c div 16), upperhex (of_char c mod 16)]
      else [c])"

definition url_escape :: "encoding \<Rightarrow> string \<Rightarrow> string" where
  "url_escape mode s = concat (map (escape_byte mode) s)"

subsection \<open>The URL\<close>

definition userinfo_String :: "string \<Rightarrow> string \<Rightarrow> string" where
  \<comment> \<open>\<open>url.UserPassword(user, password).String()\<close>\<close>
  "userinfo_String user password = url_escape EncodeUserPassword user @ '':'' @ url_escape EncodeUserPassword password"

definition path_String :: "string \<Rightarrow> string" where
  \<comment> \<open>what \<open>URL.String\<close> writes for the path after a host\<close>
  "path_String p =
     (let e = (if p = ''*'' then ''*'' else url_escape EncodePath p)
      in if e \<noteq> '''' \<and> hd e \<noteq> CHR ''/'' then CHR ''/'' # e else e)"

definition database_URL :: "database_config \<Rightarrow> string" where
  "database_URL c =
     ''postgres://'' @ userinfo_String (dc_User c) (dc_Password c) @ ''@'' @
     url_escape EncodeHost (join_host_port (dc_Host c) (format_int (dc_Port c))) @ path_String (dc_Database c) @
     ''?sslmode='' @ url_escape EncodeQueryComponent (dc_SSLMode c)"

subsection \<open>Reading a URL\<close>

text \<open>The reference: the parts of a URL by the delimiters of its grammar, each percent-decoded.\<close>

definition unhex :: "char \<Rightarrow> nat" where
  "unhex c = (if is_digit c then of_char c - 48 else of_char c - 55)"

fun unescape :: "bool \<Rightarrow> string \<Rightarrow> string" where
  "unescape query [] = []"
| "unescape query (c # s) =
     (if c = CHR ''%'' then (case s of h # l # t \<Rightarrow> char_of (16 * unhex h + unhex l) # unescape query t | _ \<Rightarrow> [])
      else if query \<and> c = CHR ''+'' then CHR '' '' # unescape query s
      else c # unescape query s)"

definition upto_char :: "string \<Rightarrow> string \<Rightarrow> string" where
  "upto_char stops s = takeWhile (\<lambda>c. c \<notin> set stops) s"

definition from_char :: "string \<Rightarrow> string \<Rightarrow> string" where
  "from_char stops s = dropWhile (\<lambda>c. c \<notin> set stops) s"

definition url_fields :: "string \<Rightarrow> string list" where
  \<comment> \<open>user, password, host and port, path without its slash, and the query\<close>
  "url_fields url =
     (let s = drop (length ''postgres://'') url; auth = upto_char ''/?'' s; rest = from_char ''/?'' s;
          ui = upto_char ''@'' auth; host = tl (from_char ''@'' auth); p = upto_char ''?'' rest
      in [unescape False (upto_char '':'' ui), unescape False (tl (from_char '':'' ui)), unescape False host,
          unescape False (if p \<noteq> '''' \<and> hd p = CHR ''/'' then tl p else p),
          unescape True (tl (from_char ''='' (from_char ''?'' rest)))])"

subsection \<open>Facts\<close>

lemma unhex_upperhex: "n < 16 \<Longrightarrow> unhex (upperhex n) = n"
proof -
  have "\<forall>n \<in> set [0..<16]. unhex (upperhex n) = n" by code_simp
  then show "n < 16 \<Longrightarrow> unhex (upperhex n) = n" by simp
qed

lemma upperhex_alphanumeric: "n < 16 \<Longrightarrow> alphanumeric (upperhex n)"
proof -
  have "\<forall>n \<in> set [0..<16]. alphanumeric (upperhex n)" by code_simp
  then show "n < 16 \<Longrightarrow> alphanumeric (upperhex n)" by simp
qed

lemma char_halves: "char_of (16 * (of_char c div 16) + of_char c mod 16 :: nat) = (c :: char)"
  by (metis char_of_char mult_div_mod_eq)

lemma char_half_bounds: "of_char (c :: char) div 16 < (16 :: nat)" "of_char c mod 16 < (16 :: nat)"
proof -
  have "of_char c < (256 :: nat)" by simp
  then show "of_char c div 16 < (16 :: nat)" "of_char c mod 16 < (16 :: nat)" by linarith+
qed

lemma unescape_escape_byte:
  "q = (mode = EncodeQueryComponent) \<Longrightarrow> unescape q (escape_byte mode c @ s) = c # unescape q s"
proof -
  assume q: "q = (mode = EncodeQueryComponent)"
  have h: "unhex (upperhex (of_char c div 16)) = of_char c div 16" "unhex (upperhex (of_char c mod 16)) = of_char c mod 16"
    by (rule unhex_upperhex, rule char_half_bounds)+
  have pc: "shouldEscape (CHR ''%'') mode" by (cases mode; simp add: shouldEscape_def alphanumeric_def is_digit_def)
  have plus: "shouldEscape (CHR ''+'') EncodeQueryComponent" by code_simp
  show ?thesis
  proof (cases "c = CHR '' '' \<and> mode = EncodeQueryComponent")
    case True
    with q show ?thesis by (simp add: escape_byte_def)
  next
    case False
    show ?thesis
    proof (cases "shouldEscape c mode")
      case True
      have "escape_byte mode c = [CHR ''%'', upperhex (of_char c div 16), upperhex (of_char c mod 16)]"
        using False True by (auto simp: escape_byte_def)
      then show ?thesis by (simp add: h char_halves)
    next
      case no: False
      have "escape_byte mode c = [c]" using False no by (auto simp: escape_byte_def)
      moreover have "c \<noteq> CHR ''%''" "\<not> (q \<and> c = CHR ''+'')" using no pc plus q by auto
      ultimately show ?thesis by simp
    qed
  qed
qed

lemma unescape_escape: "q = (mode = EncodeQueryComponent) \<Longrightarrow> unescape q (url_escape mode s) = s"
  by (induction s) (simp_all add: url_escape_def unescape_escape_byte)

text \<open>A character that has to be escaped, other than the percent sign, does not occur.\<close>

lemma escaped_absent:
  assumes "shouldEscape d mode" "d \<noteq> CHR ''%''" "d \<noteq> CHR ''+''" "\<not> alphanumeric d"
  shows "d \<notin> set (url_escape mode s)"
proof -
  have nd: "upperhex n \<noteq> d" if "n < 16" for n using upperhex_alphanumeric [OF that] assms(4) by auto
  have "d \<notin> set (escape_byte mode c)" for c
    using assms nd [OF char_half_bounds(1) [of c]] nd [OF char_half_bounds(2) [of c]] by (auto simp: escape_byte_def)
  then show ?thesis by (auto simp: url_escape_def)
qed

lemma upto_from_char:
  assumes "\<forall>c \<in> set stops. c \<notin> set s" "d \<in> set stops"
  shows "upto_char stops (s @ d # t) = s" "from_char stops (s @ d # t) = d # t"
proof -
  have "\<forall>x \<in> set s. x \<notin> set stops" using assms(1) by blast
  with assms(2) show "upto_char stops (s @ d # t) = s" "from_char stops (s @ d # t) = d # t"
    by (auto simp: upto_char_def from_char_def takeWhile_append dropWhile_append)
qed

lemma user_absent: "d \<in> set ''@/?:'' \<Longrightarrow> d \<notin> set (url_escape EncodeUserPassword s)"
  by (rule escaped_absent) (auto simp: shouldEscape_def alphanumeric_def is_digit_def)

lemma host_absent: "d \<in> set ''@/?'' \<Longrightarrow> d \<notin> set (url_escape EncodeHost s)"
  by (rule escaped_absent) (auto simp: shouldEscape_def alphanumeric_def is_digit_def)

lemma path_absent: "CHR ''?'' \<notin> set (path_String s)"
  using escaped_absent [of "CHR ''?''" EncodePath s]
  by (auto simp: path_String_def Let_def shouldEscape_def alphanumeric_def is_digit_def split: if_splits)

lemma path_String_start: "path_String p = '''' \<or> hd (path_String p) = CHR ''/''"
  by (auto simp: path_String_def Let_def)

lemma url_escape_slash: "url_escape EncodePath p \<noteq> '''' \<Longrightarrow> p \<noteq> '''' \<and> (hd (url_escape EncodePath p) = CHR ''/'' \<longrightarrow> hd p = CHR ''/'')"
proof (cases p)
  case (Cons c s)
  have "hd (escape_byte EncodePath c) = CHR ''/'' \<longrightarrow> c = CHR ''/''" "escape_byte EncodePath c \<noteq> ''''"
    by (auto simp: escape_byte_def)
  with Cons show ?thesis by (simp add: url_escape_def)
qed (simp add: url_escape_def)

lemma path_roundtrip:
  assumes "p = '''' \<or> hd p \<noteq> CHR ''/''"
  shows "unescape False (if path_String p \<noteq> '''' \<and> hd (path_String p) = CHR ''/'' then tl (path_String p) else path_String p) = p"
proof -
  let ?e = "if p = ''*'' then ''*'' else url_escape EncodePath p"
  have "unescape False ?e = p" by (simp add: unescape_escape)
  moreover have "?e = '''' \<or> hd ?e \<noteq> CHR ''/''" using url_escape_slash [of p] assms by auto
  ultimately show ?thesis by (auto simp: path_String_def Let_def)
qed



end
