(* ===== verification/App_Resources.thy ===== *)
theory App_Resources
  imports App_Errors External_Calls
begin

text \<open>
  The resource stack of \<open>internal/app/resources.go\<close>: what has been opened is closed once, the
  latest first, and the errors of the closings are joined. A closer is a Go \<open>func() error\<close>: it
  changes the state of the connections and may return an error. The mutex of the stack makes
  \<open>Add\<close> and \<open>Close\<close> atomic, so they are functions on the stack.
\<close>

type_synonym 'n closer = "'n \<Rightarrow> go_error option \<times> 'n"

record 'n resourceStack =
  rs_once :: bool
  rs_closers :: "'n closer list"
  rs_err :: "go_error option"

definition new_resourceStack :: "'n resourceStack" where
  "new_resourceStack = \<lparr>rs_once = False, rs_closers = [], rs_err = None\<rparr>"

definition rs_Add :: "'n closer \<Rightarrow> 'n resourceStack \<Rightarrow> 'n resourceStack" where
  "rs_Add c s = s\<lparr>rs_closers := rs_closers s @ [c]\<rparr>"

text \<open>The loop of \<open>Close\<close>, whose index counts down to 0.\<close>

primrec close_down :: "nat \<Rightarrow> 'n closer list \<Rightarrow> go_error option \<Rightarrow> 'n \<Rightarrow> go_error option \<times> 'n" where
  "close_down 0 cs err w = (err, w)"
| "close_down (Suc index) cs err w =
     (case (cs ! index) w of (e, w') \<Rightarrow> close_down index cs (errors_Join err e) w')"

definition rs_Close :: "'n resourceStack \<Rightarrow> 'n \<Rightarrow> go_error option \<times> 'n resourceStack \<times> 'n" where
  "rs_Close s w =
     (if rs_once s then (rs_err s, s, w)
      else case close_down (length (rs_closers s)) (rs_closers s) (rs_err s) w of
             (err, w') \<Rightarrow> (err, s\<lparr>rs_once := True, rs_err := err\<rparr>, w'))"

subsection \<open>Facts\<close>

lemma errors_Join_None [simp]: "errors_Join a b = None \<longleftrightarrow> a = None \<and> b = None"
  by (cases a; cases b) (auto simp: errors_Join_def)

definition has_error :: "go_error option \<Rightarrow> go_error \<Rightarrow> bool" where
  \<comment> \<open>\<open>errors.Is\<close> on an error that may be nil\<close>
  "has_error e target \<longleftrightarrow> (case e of None \<Rightarrow> False | Some e' \<Rightarrow> errors_is e' target)"

lemma has_error_simps [simp]: "\<not> has_error None t" "has_error (Some e) t \<longleftrightarrow> errors_is e t"
  by (simp_all add: has_error_def)

lemma has_error_Join [simp]: "has_error (errors_Join a b) t \<longleftrightarrow> has_error a t \<or> has_error b t"
  by (cases a; cases b) (simp_all add: errors_Join_def)

text \<open>The reference: running the closers of a list one after the other, with their errors.\<close>

primrec close_each :: "'n closer list \<Rightarrow> 'n \<Rightarrow> go_error list \<times> 'n" where
  "close_each [] w = ([], w)"
| "close_each (c # cs) w = (case c w of (e, w1) \<Rightarrow>
     (case close_each cs w1 of (es, w2) \<Rightarrow> ((case e of None \<Rightarrow> es | Some x \<Rightarrow> x # es), w2)))"

lemma close_down_append: "n \<le> length cs \<Longrightarrow> close_down n (cs @ ds) = close_down n cs"
  by (induction n) (auto simp: fun_eq_iff nth_append split: prod.splits)

lemma close_down_each:
  assumes "close_down (length cs) cs err w = (err', w')" "close_each (rev cs) w = (es, w'')"
  shows "w' = w'' \<and> (err' = None \<longleftrightarrow> err = None \<and> es = []) \<and>
    (\<forall>t. has_error err' t \<longleftrightarrow> has_error err t \<or> (\<exists>e \<in> set es. errors_is e t))"
  using assms
proof (induction cs arbitrary: err w es rule: rev_induct)
  case Nil
  then show ?case by simp
next
  case (snoc c cs)
  obtain e w1 where c: "c w = (e, w1)" by fastforce
  obtain es1 where r: "close_each (rev cs) w1 = (es1, w'')"
    using snoc.prems(2) c by (auto split: prod.splits)
  have "close_down (length cs) cs (errors_Join err e) w1 = (err', w')"
    using snoc.prems(1) c by (simp add: close_down_append nth_append)
  from snoc.IH [OF this r] snoc.prems(2) c r show ?case
    by (cases e) auto
qed

lemma rs_Close_first:
  assumes "\<not> rs_once s" "rs_err s = None" "rs_Close s w = (err, s', w')" "close_each (rev (rs_closers s)) w = (es, w'')"
  shows "w' = w'' \<and> (err = None \<longleftrightarrow> es = []) \<and> (\<forall>t. has_error err t \<longleftrightarrow> (\<exists>e \<in> set es. errors_is e t)) \<and>
    rs_once s' \<and> rs_err s' = err \<and> rs_closers s' = rs_closers s"
proof -
  obtain e v where "close_down (length (rs_closers s)) (rs_closers s) None w = (e, v)" by fastforce
  from close_down_each [OF this assms(4)] this assms(1-3) show ?thesis
    by (auto simp: rs_Close_def)
qed

lemma rs_Close_again: "rs_once s \<Longrightarrow> rs_Close s w = (rs_err s, s, w)"
  by (simp add: rs_Close_def)

subsection \<open>The stack under any use\<close>

text \<open>
  The uses of a stack: adding and closing, in any order and by any goroutine. A closer that was
  added before the first \<open>Close\<close> runs in it; the log of the runs shows the order.
\<close>

datatype stack_use = UseAdd nat | UseClose

definition logging_closer :: "(nat \<Rightarrow> go_error option) \<Rightarrow> nat \<Rightarrow> nat list closer" where
  \<comment> \<open>the resource of number \<open>k\<close> notes its closing\<close>
  "logging_closer fails k w = (fails k, w @ [k])"

fun use_stack :: "(nat \<Rightarrow> go_error option) \<Rightarrow> stack_use list \<Rightarrow> nat list resourceStack \<Rightarrow> nat list \<Rightarrow> nat list resourceStack \<times> nat list" where
  "use_stack fails [] s w = (s, w)"
| "use_stack fails (UseAdd k # us) s w = use_stack fails us (rs_Add (logging_closer fails k) s) w"
| "use_stack fails (UseClose # us) s w = (case rs_Close s w of (err, s', w') \<Rightarrow> use_stack fails us s' w')"

fun added :: "stack_use list \<Rightarrow> nat list" where
  \<comment> \<open>what has been added before the first \<open>Close\<close>\<close>
  "added [] = []"
| "added (UseAdd k # us) = k # added us"
| "added (UseClose # us) = []"

lemma close_each_logging: "close_each (map (logging_closer fails) ks) w = (List.map_filter fails ks, w @ ks)"
  by (induction ks arbitrary: w) (auto simp: logging_closer_def map_filter_simps split: option.splits)

lemma use_stack_closed: "rs_once s \<Longrightarrow> use_stack fails us s w = (s', w') \<Longrightarrow> w' = w \<and> rs_once s' \<and> rs_err s' = rs_err s"
proof (induction us arbitrary: s)
  case (Cons u us)
  show ?case
  proof (cases u)
    case (UseAdd k)
    with Cons.IH [of "rs_Add (logging_closer fails k) s"] Cons.prems show ?thesis by (simp add: rs_Add_def)
  qed (use Cons in \<open>simp add: rs_Close_again\<close>)
qed simp

lemma use_stack_open:
  assumes "\<not> rs_once s" "rs_err s = None" "rs_closers s = map (logging_closer fails) ks" "use_stack fails us s w = (s', w')"
  shows "w' = (if UseClose \<in> set us then w @ rev (ks @ added us) else w) \<and>
    (rs_err s' = None \<longleftrightarrow> UseClose \<notin> set us \<or> (\<forall>k \<in> set (ks @ added us). fails k = None))"
  using assms
proof (induction us arbitrary: s ks w rule: added.induct)
  case (2 k us)
  have "use_stack fails us (rs_Add (logging_closer fails k) s) w = (s', w')" using "2.prems"(4) by simp
  with "2.IH" [of "rs_Add (logging_closer fails k) s" "ks @ [k]" w] "2.prems"(1-3) show ?case
    by (simp add: rs_Add_def)
next
  case (3 us)
  obtain err s1 w1 where c: "rs_Close s w = (err, s1, w1)" by (metis prod_cases3)
  have "close_each (rev (rs_closers s)) w = (List.map_filter fails (rev ks), w @ rev ks)"
    using close_each_logging [of fails "rev ks" w] "3.prems"(3) by (simp add: rev_map)
  from rs_Close_first [OF "3.prems"(1,2) c this] use_stack_closed [of s1 fails us w1 s' w'] c "3.prems"(4)
  have "w' = w @ rev ks \<and> (rs_err s' = None \<longleftrightarrow> List.map_filter fails (rev ks) = [])" by auto
  moreover have "List.map_filter fails (rev ks) = [] \<longleftrightarrow> (\<forall>k \<in> set ks. fails k = None)"
    by (auto simp: List.map_filter_def filter_empty_conv)
  ultimately show ?case by simp
qed simp

text \<open>
  C28. However often and in whatever order the stack is used, its resources are closed by the
  first \<open>Close\<close>, each exactly once and the latest first, and by no other call; the error that
  every \<open>Close\<close> reports is nil exactly if none of them failed.
\<close>

theorem resources_closed_once:
  "case use_stack fails us new_resourceStack [] of (s, closed) \<Rightarrow>
     closed = (if UseClose \<in> set us then rev (added us) else []) \<and>
     (rs_err s = None \<longleftrightarrow> UseClose \<notin> set us \<or> (\<forall>k \<in> set (added us). fails k = None))"
proof -
  obtain s w where u: "use_stack fails us new_resourceStack [] = (s, w)" by fastforce
  from use_stack_open [OF _ _ _ u, of "[]"] u show ?thesis by (simp add: new_resourceStack_def)
qed

theorem resources_closed_once_witness:
  "snd (use_stack (\<lambda>k. None) [UseAdd 1, UseAdd 2, UseClose, UseAdd 3, UseClose] new_resourceStack []) = [2, 1]"
  using resources_closed_once [where fails = "\<lambda>k. None" and us = "[UseAdd 1, UseAdd 2, UseClose, UseAdd 3, UseClose]"]
  by (simp split: prod.splits)

end
