(* ===== verification/App_Build.thy ===== *)
theory App_Build
  imports Http_Server S3_Deployment Database_Url App_Resources Worker_Loop
begin

text \<open>
  \<open>internal/app/resources.go\<close>, \<open>pkg/database\<close>, \<open>pkg/logger\<close> and the commands of the server and
  the worker: connecting, putting the parts together, running until something ends it, and
  releasing what was opened. pgx, go-redis and logrus are third-party packages and so
  parameters: records of the calls the program makes, over the state \<open>'n\<close> of the connections.
\<close>

subsection \<open>Connections\<close>

record pool_config =
  pcf_dsn :: string
  pcf_MaxConns :: int
  pcf_MinConns :: int
  pcf_MaxConnLifetime :: int

record redis_options =
  ro_Addr :: string
  ro_Password :: string
  ro_DB :: int

record ('n, 'pool, 'client) net_lib =
  px_ParseConfig :: "string \<Rightarrow> go_error + pool_config"
  px_NewWithConfig :: "pool_config \<Rightarrow> ('n, go_error, 'pool) call"
  px_Ping :: "'pool \<Rightarrow> ('n, go_error, unit) call"
  px_Close :: "'pool \<Rightarrow> 'n \<Rightarrow> 'n"
  rd_NewClient :: "redis_options \<Rightarrow> 'n \<Rightarrow> 'client \<times> 'n"
  rd_Ping :: "'client \<Rightarrow> ('n, go_error, unit) call"
  rd_Close :: "'client \<Rightarrow> 'n closer"

definition NewPostgres :: "('n, 'pool, 'client) net_lib \<Rightarrow> string \<Rightarrow> int \<Rightarrow> int \<Rightarrow> int \<Rightarrow> ('n, go_error, 'pool) call" where
  "NewPostgres net dsn maxOpen maxIdle maxLifetime n =
     (case px_ParseConfig net dsn of
        Inl err \<Rightarrow> (Inl (FmtWrap (''parse PostgreSQL configuration: '' @ error_text err) err), n)
      | Inr pc \<Rightarrow>
          (case px_NewWithConfig net (pc\<lparr>pcf_MaxConns := maxOpen, pcf_MinConns := maxIdle, pcf_MaxConnLifetime := maxLifetime\<rparr>) n of
             (Inl err, n1) \<Rightarrow> (Inl (FmtWrap (''create PostgreSQL pool: '' @ error_text err) err), n1)
           | (Inr pool, n1) \<Rightarrow>
               (case px_Ping net pool n1 of
                  (Inl err, n2) \<Rightarrow> (Inl (FmtWrap (''ping PostgreSQL: '' @ error_text err) err), px_Close net pool n2)
                | (Inr _, n2) \<Rightarrow> (Inr pool, n2))))"

definition NewRedis :: "('n, 'pool, 'client) net_lib \<Rightarrow> string \<Rightarrow> string \<Rightarrow> int \<Rightarrow> ('n, go_error, 'client) call" where
  "NewRedis net address password db n =
     (case rd_NewClient net \<lparr>ro_Addr = address, ro_Password = password, ro_DB = db\<rparr> n of
        (client, n1) \<Rightarrow>
          (case rd_Ping net client n1 of
             (Inl err, n2) \<Rightarrow>
               (case rd_Close net client n2 of
                  (_, n3) \<Rightarrow> (Inl (FmtWrap (''ping Redis: '' @ error_text err) err), n3))
           | (Inr _, n2) \<Rightarrow> (Inr client, n2)))"

subsection \<open>The storage behind its interface\<close>

text \<open>
  The storage is one of the two stores, chosen by the configuration; its state is that of the
  file system and of the objects behind the S3 client.
\<close>

definition on_left :: "('a \<Rightarrow> 'r \<times> 'a) \<Rightarrow> 'a \<times> 'b \<Rightarrow> 'r \<times> 'a \<times> 'b" where
  "on_left f s = (case s of (a, b) \<Rightarrow> (case f a of (r, a') \<Rightarrow> (r, (a', b))))"

definition on_right :: "('b \<Rightarrow> 'r \<times> 'b) \<Rightarrow> 'a \<times> 'b \<Rightarrow> 'r \<times> 'a \<times> 'b" where
  "on_right f s = (case s of (a, b) \<Rightarrow> (case f b of (r, b') \<Rightarrow> (r, (a, b'))))"

definition storage_port :: "('w, upload_reader) storage_value \<Rightarrow> (local_fs \<times> 'w, upload_reader) object_storage" where
  "storage_port v = (case v of
     LocalStore root \<Rightarrow>
       \<lparr>st_Put = (\<lambda>k r mt s. case s of (l, x) \<Rightarrow> (case local_Put root upload_read k r mt l of (res, r', l') \<Rightarrow> (res, r', (l', x)))),
        st_Open = (\<lambda>k. on_left (local_Open root k)), st_Delete = (\<lambda>k. on_left (local_Delete root k))\<rparr>
   | S3Store c \<Rightarrow>
       \<lparr>st_Put = (\<lambda>k r mt s. case s of (l, x) \<Rightarrow> (case s3_Put c k r mt x of (res, r', x') \<Rightarrow> (res, r', (l, x')))),
        st_Open = (\<lambda>k. on_right (s3_Open c k)), st_Delete = (\<lambda>k. on_right (s3_Delete c k))\<rparr>)"

subsection \<open>Build\<close>

record ('n, 'pool, 'client, 'aws, 'w) build_libs =
  bl_net :: "('n, 'pool, 'client) net_lib"
  bl_cwd :: string
  bl_load_default_config :: "aws_option list \<Rightarrow> go_error + 'aws"
  bl_new_from_config :: "'aws \<Rightarrow> bool \<Rightarrow> string option \<Rightarrow> ('w, upload_reader) s3_api"
  bl_gin :: gin_lib
  bl_auth :: auth_libs
  bl_lower :: "string \<Rightarrow> string"

text \<open>What the process can reach: its connections, and the servers and files behind them.\<close>

record ('n, 'w) host =
  hs_net :: 'n
  hs_server :: "(local_fs \<times> 'w) server_over"

record ('n, 'w) runtime =
  rn_Router :: "(local_fs \<times> 'w) server_over engine"
  rn_Worker :: "(pg, local_fs \<times> 'w) document_worker"
  rn_Queue :: "redis redis_queue"
  rn_stack :: "'n resourceStack"

definition build_fail :: "go_error \<Rightarrow> 'n resourceStack \<Rightarrow> ('n, 'w) host \<Rightarrow> (go_error + ('n, 'w) runtime) \<times> ('n, 'w) host" where
  "build_fail err stack h =
     (case rs_Close stack (hs_net h) of
        (closed, _, n) \<Rightarrow> (Inl (case errors_Join (Some err) closed of Some e \<Rightarrow> e | None \<Rightarrow> err), h\<lparr>hs_net := n\<rparr>))"

definition built_queue :: "config \<Rightarrow> redis redis_queue" where
  "built_queue cfg = newRedisQueue redis_backend (rc_DocumentQueue (cfg_Redis cfg)) (rc_ProcessingQueue (cfg_Redis cfg))
     (rc_DeadLetterQueue (cfg_Redis cfg)) (rc_DocumentMaxAttempts (cfg_Redis cfg))"

definition built_manager :: "config \<Rightarrow> jwt_manager" where
  "built_manager cfg = NewJWTManager (jc_Secret (cfg_JWT cfg)) (jc_Issuer (cfg_JWT cfg)) (jc_Audience (cfg_JWT cfg))
     (jc_AccessTokenExpiry (cfg_JWT cfg)) (jc_RefreshTokenExpiry (cfg_JWT cfg))"

definition storageKeyPrefix :: "storage_config \<Rightarrow> string" where
  "storageKeyPrefix c = (if sc_Driver c = ''s3'' then s3c_Prefix (sc_S3 c) else '''')"

definition built_documents :: "(string \<Rightarrow> string) \<Rightarrow> config \<Rightarrow> (local_fs \<times> 'w, upload_reader) object_storage
    \<Rightarrow> (local_fs \<times> 'w) app_documents_over" where
  "built_documents unicode_lower cfg storage =
     NewDocumentService unicode_lower pg_repository storage (redis_queue_port (built_queue cfg))
       (sc_MaxUploadBytes (cfg_Storage cfg)) (sc_AllowedMediaTypes (cfg_Storage cfg)) (sc_CDNURL (cfg_Storage cfg))
       (storageKeyPrefix (cfg_Storage cfg))"

definition built_engine :: "('n, 'pool, 'client, 'aws, 'w) build_libs \<Rightarrow> config \<Rightarrow> (local_fs \<times> 'w, upload_reader) object_storage
    \<Rightarrow> (local_fs \<times> 'w) server_over engine" where
  "built_engine B cfg storage =
     app_engine (bl_gin B) (bl_auth B) (bl_lower B) (built_manager cfg)
       (built_documents (al_unicode_lower (bl_auth B)) cfg storage) (cfg_AllowedOrigins cfg)"

text \<open>The storage factory works on the files of the host.\<close>

definition host_storage_New :: "('n, 'pool, 'client, 'aws, 'w) build_libs \<Rightarrow> storage_config \<Rightarrow> ('n, 'w) host
    \<Rightarrow> (go_error + ('w, upload_reader) storage_value) \<times> ('n, 'w) host" where
  "host_storage_New B c h =
     (case on_left (storage_New (bl_cwd B) (bl_load_default_config B) (bl_new_from_config B) c) (srv_storage (hs_server h)) of
        (r, s) \<Rightarrow> (r, h\<lparr>hs_server := (hs_server h)\<lparr>srv_storage := s\<rparr>\<rparr>))"

definition Build :: "('n, 'pool, 'client, 'aws, 'w) build_libs \<Rightarrow> config \<Rightarrow> ('n, 'w) host
    \<Rightarrow> (go_error + ('n, 'w) runtime) \<times> ('n, 'w) host" where
  "Build B cfg h =
     (let stack = new_resourceStack; db = cfg_Database cfg; rd = cfg_Redis cfg; net = bl_net B
      in case NewPostgres net (database_URL db) (dc_MaxOpenConns db) (dc_MaxIdleConns db) (dc_ConnMaxLifetime db) (hs_net h) of
           (Inl err, n1) \<Rightarrow> build_fail err stack (h\<lparr>hs_net := n1\<rparr>)
         | (Inr pool, n1) \<Rightarrow>
             let stack = rs_Add (\<lambda>n. (None, px_Close net pool n)) stack
             in case NewRedis net (redis_address rd) (rc_Password rd) (rc_DB rd) n1 of
                  (Inl err, n2) \<Rightarrow> build_fail err stack (h\<lparr>hs_net := n2\<rparr>)
                | (Inr client, n2) \<Rightarrow>
                    let stack = rs_Add (rd_Close net client) stack
                    in case host_storage_New B (cfg_Storage cfg) (h\<lparr>hs_net := n2\<rparr>) of
                         (Inl err, h3) \<Rightarrow> build_fail err stack h3
                       | (Inr storage, h3) \<Rightarrow>
                           (Inr \<lparr>rn_Router = built_engine B cfg (storage_port storage),
                                 rn_Worker = NewDocumentWorker pg_repository (storage_port storage),
                                 rn_Queue = built_queue cfg, rn_stack = stack\<rparr>, h3))"

definition runtime_Close :: "('n, 'w) runtime \<Rightarrow> 'n \<Rightarrow> go_error option \<times> ('n, 'w) runtime \<times> 'n" where
  "runtime_Close r n = (case rs_Close (rn_stack r) n of (e, s, n') \<Rightarrow> (e, r\<lparr>rn_stack := s\<rparr>, n'))"

subsection \<open>The logger\<close>

datatype formatter = JSONFormatter | TextFormatter (DisableColors: bool) (ForceColors: bool) (FullTimestamp: bool)

record 'lvl logger =
  lg_Level :: 'lvl
  lg_Formatter :: formatter

definition logger_New :: "(string \<Rightarrow> go_error + 'lvl) \<Rightarrow> string \<Rightarrow> string \<Rightarrow> go_error + 'lvl logger" where
  "logger_New parse_level level format =
     (case parse_level level of
        Inl err \<Rightarrow> Inl (FmtWrap (''invalid log level '' @ go_quote level @ '': '' @ error_text err) err)
      | Inr parsed \<Rightarrow>
          if format = ''json'' then Inr \<lparr>lg_Level = parsed, lg_Formatter = JSONFormatter\<rparr>
          else if format = ''text'' then Inr \<lparr>lg_Level = parsed, lg_Formatter = TextFormatter True False True\<rparr>
          else if format = ''colored_text'' then Inr \<lparr>lg_Level = parsed, lg_Formatter = TextFormatter False True True\<rparr>
          else Inl (FmtError (''invalid log format '' @ go_quote format)))"

datatype log_entry = LogPrintf string go_error | LogInfo string "(string \<times> string) option" | LogError string go_error

subsection \<open>Running\<close>

definition log_close :: "go_error option \<Rightarrow> log_entry list" where
  \<comment> \<open>the deferred closing\<close>
  "log_close e = (case e of None \<Rightarrow> [] | Some err \<Rightarrow> [LogError ''close resources'' err])"

definition close_runtime :: "('n, 'w) runtime \<Rightarrow> ('n, 'w) host \<Rightarrow> log_entry list \<times> ('n, 'w) host" where
  "close_runtime r h = (case runtime_Close r (hs_net h) of (e, _, n) \<Rightarrow> (log_close e, h\<lparr>hs_net := n\<rparr>))"

definition http_ErrServerClosed :: go_error where
  "http_ErrServerClosed = Sentinel ''http.ErrServerClosed'' ''http: Server closed''"

text \<open>
  What ends \<open>RunServer\<close>: the listener returns an error, or the context is done and \<open>Shutdown\<close>
  returns. The requests it served until then are a list.
\<close>

datatype server_end = ListenerReturned go_error | ContextDone "go_error option"

fun serve_all :: "gin_lib \<Rightarrow> 'w engine \<Rightarrow> http_request list \<Rightarrow> 'w \<Rightarrow> gin_context list \<times> 'w" where
  "serve_all gin e [] w = ([], w)"
| "serve_all gin e (r # rs) w =
     (case serve gin e r w of (c, w1) \<Rightarrow> (case serve_all gin e rs w1 of (cs, w2) \<Rightarrow> (c # cs, w2)))"

definition server_result :: "server_end \<Rightarrow> go_error option" where
  "server_result ev = (case ev of
     ListenerReturned err \<Rightarrow>
       if errors_is err http_ErrServerClosed then None else Some (FmtWrap (''serve HTTP: '' @ error_text err) err)
   | ContextDone None \<Rightarrow> None
   | ContextDone (Some err) \<Rightarrow> Some (FmtWrap (''shutdown HTTP server: '' @ error_text err) err))"

definition RunServer :: "('n, 'pool, 'client, 'aws, 'w) build_libs \<Rightarrow> config \<Rightarrow> http_request list \<Rightarrow> server_end \<Rightarrow> ('n, 'w) host
    \<Rightarrow> go_error option \<times> log_entry list \<times> gin_context list \<times> ('n, 'w) host" where
  "RunServer B cfg requests ev h =
     (case Build B cfg h of
        (Inl err, h1) \<Rightarrow> (Some err, [], [], h1)
      | (Inr rt, h1) \<Rightarrow>
          (case serve_all (bl_gin B) (rn_Router rt) requests (hs_server h1) of
             (answers, w) \<Rightarrow>
               (case close_runtime rt (h1\<lparr>hs_server := w\<rparr>) of
                  (logs, h2) \<Rightarrow>
                    (server_result ev,
                     LogInfo ''HTTP server started'' (Some (''address'', '':'' @ ac_Port (cfg_App cfg))) # logs, answers, h2))))"

text \<open>The worker: \<open>None\<close> for a loop that goes on for ever.\<close>

definition put_surroundings :: "'s server_over \<Rightarrow> (pg, 's, redis) surroundings \<Rightarrow> 's server_over" where
  "put_surroundings w d = w\<lparr>srv_pg := sur_repository d, srv_storage := sur_storage d, srv_queue := sur_queue d, srv_random := sur_random d\<rparr>"

definition RunWorker :: "('n, 'pool, 'client, 'aws, 'w) build_libs \<Rightarrow> config \<Rightarrow> ctx \<Rightarrow> ('n, 'w) host
    \<Rightarrow> (go_error option \<times> log_entry list \<times> ('n, 'w) host) option" where
  "RunWorker B cfg c h =
     (case Build B cfg h of
        (Inl err, h1) \<Rightarrow> Some (Some err, [], h1)
      | (Inr rt, h1) \<Rightarrow>
          (case wk_Run (al_sha256 (bl_auth B)) (rn_Worker rt) (redis_queue_port (rn_Queue rt)) (redis_claims (rn_Queue rt)) c
                  (documents_of (hs_server h1)) of
             None \<Rightarrow> None
           | Some (err, d) \<Rightarrow>
               (case close_runtime rt (h1\<lparr>hs_server := put_surroundings (hs_server h1) d\<rparr>) of
                  (logs, h2) \<Rightarrow>
                    Some (if errors_is err context_Canceled then None else Some err,
                          LogInfo ''document worker started'' None # logs, h2))))"

subsection \<open>The commands\<close>

record 'lvl main_libs =
  ml_url_parse :: "string \<Rightarrow> go_error + url_parts"
  ml_fraction :: "int \<Rightarrow> int \<Rightarrow> int \<Rightarrow> int"
  ml_parse_level :: "string \<Rightarrow> go_error + 'lvl"

definition main_setup :: "'lvl main_libs \<Rightarrow> environ \<Rightarrow> log_entry + config" where
  \<comment> \<open>the first half of both commands: the configuration and the logger\<close>
  "main_setup M getenv =
     (case config_Load (ml_url_parse M) (ml_fraction M) getenv of
        Inl err \<Rightarrow> Inl (LogPrintf ''configuration error: '' err)
      | Inr cfg \<Rightarrow>
          (case logger_New (ml_parse_level M) (lc_Level (cfg_Logging cfg)) (lc_Format (cfg_Logging cfg)) of
             Inl err \<Rightarrow> Inl (LogPrintf ''logging error: '' err)
           | Inr _ \<Rightarrow> Inr cfg))"

text \<open>The exit status, the log and the host afterwards.\<close>

definition server_main :: "'lvl main_libs \<Rightarrow> ('n, 'pool, 'client, 'aws, 'w) build_libs \<Rightarrow> environ \<Rightarrow> http_request list \<Rightarrow> server_end
    \<Rightarrow> ('n, 'w) host \<Rightarrow> int \<times> log_entry list \<times> ('n, 'w) host" where
  "server_main M B getenv requests ev h =
     (case main_setup M getenv of
        Inl entry \<Rightarrow> (1, [entry], h)
      | Inr cfg \<Rightarrow>
          (case RunServer B cfg requests ev h of
             (Some err, logs, _, h1) \<Rightarrow> (1, logs @ [LogError ''server stopped'' err], h1)
           | (None, logs, _, h1) \<Rightarrow> (0, logs, h1)))"

definition worker_main :: "'lvl main_libs \<Rightarrow> ('n, 'pool, 'client, 'aws, 'w) build_libs \<Rightarrow> environ \<Rightarrow> ctx \<Rightarrow> ('n, 'w) host
    \<Rightarrow> (int \<times> log_entry list \<times> ('n, 'w) host) option" where
  "worker_main M B getenv c h =
     (case main_setup M getenv of
        Inl entry \<Rightarrow> Some (1, [entry], h)
      | Inr cfg \<Rightarrow>
          (case RunWorker B cfg c h of
             None \<Rightarrow> None
           | Some (Some err, logs, h1) \<Rightarrow> Some (1, logs @ [LogError ''worker stopped'' err], h1)
           | Some (None, logs, h1) \<Rightarrow> Some (0, logs, h1)))"

end
