(* ===== verification/App_Lifecycle.thy ===== *)
theory App_Lifecycle
  imports App_Build Config_Checks Http_Demo
begin

text \<open>
  The life of the two processes: whatever fails while they start, run or stop, the connections
  they have opened are released, each once, and their exit status says whether they failed.
\<close>

subsection \<open>What the program relies on of the drivers\<close>

text \<open>
  The documented behaviour of pgx and go-redis as far as opening and closing goes: a pool or a
  client is open from the call that returned it to its \<open>Close\<close>, whether or not that reports an
  error; what closing something that is not open does is left open.
\<close>

definition net_ok :: "('n, 'pool, 'client) net_lib \<Rightarrow> ('n \<Rightarrow> ('pool + 'client) multiset) \<Rightarrow> bool" where
  "net_ok net opened \<longleftrightarrow>
     (\<forall>pc n. case px_NewWithConfig net pc n of
        (Inl e, n') \<Rightarrow> opened n' = opened n | (Inr p, n') \<Rightarrow> opened n' = add_mset (Inl p) (opened n)) \<and>
     (\<forall>p n. opened (snd (px_Ping net p n)) = opened n) \<and>
     (\<forall>p n. Inl p \<in># opened n \<longrightarrow> opened (px_Close net p n) = opened n - {#Inl p#}) \<and>
     (\<forall>ops n. case rd_NewClient net ops n of (c, n') \<Rightarrow> opened n' = add_mset (Inr c) (opened n)) \<and>
     (\<forall>c n. opened (snd (rd_Ping net c n)) = opened n) \<and>
     (\<forall>c n. Inr c \<in># opened n \<longrightarrow> opened (snd (rd_Close net c n)) = opened n - {#Inr c#})"

lemma net_okD:
  assumes "net_ok net opened"
  shows "px_NewWithConfig net pc n = (Inl e, n') \<Longrightarrow> opened n' = opened n"
    "px_NewWithConfig net pc n = (Inr p, n') \<Longrightarrow> opened n' = add_mset (Inl p) (opened n)"
    "px_Ping net p n = (r, n') \<Longrightarrow> opened n' = opened n"
    "Inl p \<in># opened n \<Longrightarrow> opened (px_Close net p n) = opened n - {#Inl p#}"
    "rd_NewClient net ops n = (c, n') \<Longrightarrow> opened n' = add_mset (Inr c) (opened n)"
    "rd_Ping net c n = (q, n') \<Longrightarrow> opened n' = opened n"
    "Inr c \<in># opened n \<Longrightarrow> rd_Close net c n = (x, n') \<Longrightarrow> opened n' = opened n - {#Inr c#}"
proof -
  note d = assms [unfolded net_ok_def]
  have 1: "case px_NewWithConfig net pc n of (Inl e, n') \<Rightarrow> opened n' = opened n | (Inr p, n') \<Rightarrow> opened n' = add_mset (Inl p) (opened n)"
    by (rule conjunct1 [OF d, THEN spec, THEN spec])
  show "px_NewWithConfig net pc n = (Inl e, n') \<Longrightarrow> opened n' = opened n"
    "px_NewWithConfig net pc n = (Inr p, n') \<Longrightarrow> opened n' = add_mset (Inl p) (opened n)" using 1 by simp_all
  have 2: "opened (snd (px_Ping net p n)) = opened n" "opened (snd (rd_Ping net c n)) = opened n" using d by blast+
  show "px_Ping net p n = (r, n') \<Longrightarrow> opened n' = opened n" using 2(1) by simp
  show "rd_Ping net c n = (q, n') \<Longrightarrow> opened n' = opened n" using 2(2) by simp
  have 3: "case rd_NewClient net ops n of (c, n') \<Rightarrow> opened n' = add_mset (Inr c) (opened n)"
    by (rule d [THEN conjunct2, THEN conjunct2, THEN conjunct2, THEN conjunct1, THEN spec, THEN spec])
  show "rd_NewClient net ops n = (c, n') \<Longrightarrow> opened n' = add_mset (Inr c) (opened n)" using 3 by simp
  show "Inl p \<in># opened n \<Longrightarrow> opened (px_Close net p n) = opened n - {#Inl p#}" using d by blast
  have 4: "Inr c \<in># opened n \<Longrightarrow> opened (snd (rd_Close net c n)) = opened n - {#Inr c#}" using d by blast
  show "Inr c \<in># opened n \<Longrightarrow> rd_Close net c n = (x, n') \<Longrightarrow> opened n' = opened n - {#Inr c#}" using 4 by simp
qed

subsection \<open>Connecting\<close>

lemma NewPostgres_opened:
  assumes "net_ok net opened" "NewPostgres net dsn mo mi ml n = (r, n')"
  shows "opened n' = (case r of Inl e \<Rightarrow> opened n | Inr p \<Rightarrow> add_mset (Inl p) (opened n))"
proof (cases "px_ParseConfig net dsn")
  case (Inr pc)
  let ?pc = "pc\<lparr>pcf_MaxConns := mo, pcf_MinConns := mi, pcf_MaxConnLifetime := ml\<rparr>"
  obtain pr n1 where new: "px_NewWithConfig net ?pc n = (pr, n1)" by fastforce
  show ?thesis
  proof (cases pr)
    case (Inl e)
    with assms(2) Inr new net_okD(1) [OF assms(1) new [unfolded Inl]] show ?thesis by (auto simp: NewPostgres_def)
  next
    case p: (Inr p)
    obtain q n2 where ping: "px_Ping net p n1 = (q, n2)" by fastforce
    have o: "opened n2 = add_mset (Inl p) (opened n)"
      using net_okD(2) [OF assms(1) new [unfolded p]] net_okD(3) [OF assms(1) ping] by simp
    then have "opened (px_Close net p n2) = opened n" using net_okD(4) [OF assms(1), of p n2] by simp
    with assms(2) Inr new p ping o show ?thesis by (cases q) (auto simp: NewPostgres_def)
  qed
qed (use assms(2) in \<open>simp add: NewPostgres_def split: sum.splits, blast?\<close>)

lemma NewRedis_opened:
  assumes "net_ok net opened" "NewRedis net a p d n = (r, n')"
  shows "opened n' = (case r of Inl e \<Rightarrow> opened n | Inr c \<Rightarrow> add_mset (Inr c) (opened n))"
proof -
  obtain c n1 where new: "rd_NewClient net \<lparr>ro_Addr = a, ro_Password = p, ro_DB = d\<rparr> n = (c, n1)" by fastforce
  obtain q n2 where ping: "rd_Ping net c n1 = (q, n2)" by fastforce
  obtain x n3 where cl: "rd_Close net c n2 = (x, n3)" by fastforce
  have o: "opened n2 = add_mset (Inr c) (opened n)"
    using net_okD(5) [OF assms(1) new] net_okD(6) [OF assms(1) ping] by simp
  then have "opened n3 = opened n" using net_okD(7) [OF assms(1) _ cl] by simp
  with assms(2) new ping cl o show ?thesis by (cases q) (auto simp: NewRedis_def)
qed

text \<open>The stack at the three points where \<open>Build\<close> can fail.\<close>

definition stack_of :: "('n, 'pool, 'client) net_lib \<Rightarrow> ('pool + 'client) list \<Rightarrow> 'n resourceStack" where
  "stack_of net rs = new_resourceStack\<lparr>rs_closers :=
     map (\<lambda>r. case r of Inl p \<Rightarrow> (\<lambda>n. (None, px_Close net p n)) | Inr c \<Rightarrow> rd_Close net c) rs\<rparr>"

lemma close_each_opened:
  assumes "net_ok net opened" "opened n = mset rs + others"
    "close_each (map (\<lambda>r. case r of Inl p \<Rightarrow> (\<lambda>n. (None, px_Close net p n)) | Inr c \<Rightarrow> rd_Close net c) rs) n = (es, n')"
  shows "opened n' = others"
  using assms(2,3)
proof (induction rs arbitrary: n es)
  case (Cons r rs)
  obtain e n1 where c: "(case r of Inl p \<Rightarrow> (\<lambda>n. (None, px_Close net p n)) | Inr c \<Rightarrow> rd_Close net c) n = (e, n1)" by fastforce
  have "r \<in># opened n" using Cons.prems(1) by simp
  then have "opened n1 = opened n - {#r#}"
    using c net_okD(4,7) [OF assms(1)] by (auto split: sum.splits)
  then have "opened n1 = mset rs + others" using Cons.prems(1) by simp
  with Cons.IH Cons.prems(2) c show ?case by (auto split: prod.splits)
qed simp

lemma stack_of_Close:
  assumes "net_ok net opened" "opened n = mset rs + others" "rs_Close (stack_of net rs) n = (e, s, n')"
  shows "opened n' = others"
proof -
  let ?f = "\<lambda>r. case r of Inl p \<Rightarrow> (\<lambda>n. (None, px_Close net p n)) | Inr c \<Rightarrow> rd_Close net c"
  obtain es n'' where c: "close_each (map ?f (rev rs)) n = (es, n'')" by fastforce
  have "close_each (rev (rs_closers (stack_of net rs))) n = (es, n'')"
    using c by (simp add: stack_of_def rev_map)
  from rs_Close_first [OF _ _ assms(3) this] have "n' = n''" by (simp add: stack_of_def new_resourceStack_def)
  with close_each_opened [OF assms(1) _ c, of others] assms(2) show ?thesis by simp
qed

lemma build_fail_opened:
  assumes "net_ok net opened" "opened (hs_net h) = mset rs + others" "build_fail err (stack_of net rs) h = (r, h')"
  shows "\<exists>e. r = Inl e \<and> opened (hs_net h') = others \<and> hs_server h' = hs_server h"
proof -
  obtain e s n where c: "rs_Close (stack_of net rs) (hs_net h) = (e, s, n)" by (metis prod_cases3)
  from stack_of_Close [OF assms(1,2) c] assms(3) c show ?thesis by (auto simp: build_fail_def)
qed

lemma stack_of_Add:
  "rs_Add (\<lambda>n. (None, px_Close net p n)) new_resourceStack = stack_of net [Inl p]"
  "rs_Add (rd_Close net c) (stack_of net [Inl p]) = stack_of net [Inl p, Inr c]"
  by (simp_all add: rs_Add_def stack_of_def new_resourceStack_def)

lemma stack_of_Nil: "new_resourceStack = stack_of net []"
  by (simp add: stack_of_def new_resourceStack_def)

lemma host_storage_New_frame:
  assumes "host_storage_New B c h = (r, h')"
  shows "hs_net h' = hs_net h \<and> hs_server h' = (hs_server h)\<lparr>srv_storage := srv_storage (hs_server h')\<rparr>"
  using assms by (auto simp: host_storage_New_def split: prod.splits)

lemma Build_cases:
  assumes "net_ok (bl_net B) opened" "Build B cfg h = (r, h')"
  shows "hs_server h' = (hs_server h)\<lparr>srv_storage := srv_storage (hs_server h')\<rparr> \<and>
    (case r of
       Inl e \<Rightarrow> opened (hs_net h') = opened (hs_net h)
     | Inr rt \<Rightarrow> \<exists>p c. opened (hs_net h') = mset [Inl p, Inr c] + opened (hs_net h) \<and>
         rn_stack rt = stack_of (bl_net B) [Inl p, Inr c] \<and> rn_Queue rt = built_queue cfg)"
proof -
  let ?net = "bl_net B" and ?db = "cfg_Database cfg" and ?rd = "cfg_Redis cfg"
  obtain pr n1 where pg: "NewPostgres ?net (database_URL ?db) (dc_MaxOpenConns ?db) (dc_MaxIdleConns ?db) (dc_ConnMaxLifetime ?db) (hs_net h) = (pr, n1)"
    by fastforce
  note o1 = NewPostgres_opened [OF assms(1) pg]
  show ?thesis
  proof (cases pr)
    case (Inl e)
    with assms(2) pg have "build_fail e (stack_of ?net []) (h\<lparr>hs_net := n1\<rparr>) = (r, h')"
      by (simp add: Build_def Let_def stack_of_Nil [of ?net])
    from build_fail_opened [OF assms(1) _ this, of "opened (hs_net h)"] Inl o1 show ?thesis by auto
  next
    case (Inr p)
    obtain cr n2 where rd: "NewRedis ?net (redis_address ?rd) (rc_Password ?rd) (rc_DB ?rd) n1 = (cr, n2)" by fastforce
    note o2 = NewRedis_opened [OF assms(1) rd]
    show ?thesis
    proof (cases cr)
      case (Inl e)
      with assms(2) pg rd Inr have "build_fail e (stack_of ?net [Inl p]) (h\<lparr>hs_net := n2\<rparr>) = (r, h')"
        by (simp add: Build_def Let_def stack_of_Add)
      from build_fail_opened [OF assms(1) _ this, of "opened (hs_net h)"] Inl Inr o1 o2 show ?thesis by auto
    next
      case c: (Inr c)
      obtain sr h3 where st: "host_storage_New B (cfg_Storage cfg) (h\<lparr>hs_net := n2\<rparr>) = (sr, h3)" by fastforce
      note f = host_storage_New_frame [OF st]
      have o3: "opened (hs_net h3) = mset [Inl p, Inr c] + opened (hs_net h)" using f o1 o2 Inr c by simp
      show ?thesis
      proof (cases sr)
        case (Inl e)
        with assms(2) pg rd Inr c st have "build_fail e (stack_of ?net [Inl p, Inr c]) h3 = (r, h')"
          by (simp add: Build_def Let_def stack_of_Add)
        from build_fail_opened [OF assms(1) o3 this] f show ?thesis by auto
      next
        case s: (Inr s)
        with assms(2) pg rd Inr c st f o3 show ?thesis by (auto simp: Build_def Let_def stack_of_Add intro!: exI [of _ p] exI [of _ c])
      qed
    qed
  qed
qed

lemma close_runtime_opened:
  assumes "net_ok net opened" "rn_stack rt = stack_of net rs" "opened (hs_net h) = mset rs + others"
    "close_runtime rt h = (logs, h')"
  shows "opened (hs_net h') = others \<and> hs_server h' = hs_server h"
proof -
  obtain e s n where c: "rs_Close (stack_of net rs) (hs_net h) = (e, s, n)" by (metis prod_cases3)
  from stack_of_Close [OF assms(1,3) c] assms(2,4) c show ?thesis
    by (auto simp: close_runtime_def runtime_Close_def)
qed

subsection \<open>The processes\<close>

lemma RunServer_opened:
  assumes "net_ok (bl_net B) opened" "RunServer B cfg requests ev h = (e, logs, cs, h')"
  shows "opened (hs_net h') = opened (hs_net h)"
proof -
  obtain r h1 where b: "Build B cfg h = (r, h1)" by fastforce
  note bc = Build_cases [OF assms(1) b]
  show ?thesis
  proof (cases r)
    case (Inr rt)
    obtain cs w where sv: "serve_all (bl_gin B) (rn_Router rt) requests (hs_server h1) = (cs, w)" by fastforce
    obtain l h2 where cl: "close_runtime rt (h1\<lparr>hs_server := w\<rparr>) = (l, h2)" by fastforce
    from bc Inr obtain p c where o: "opened (hs_net h1) = mset [Inl p, Inr c] + opened (hs_net h)"
        "rn_stack rt = stack_of (bl_net B) [Inl p, Inr c]" by auto
    have "opened (hs_net (h1\<lparr>hs_server := w\<rparr>)) = mset [Inl p, Inr c] + opened (hs_net h)" using o(1) by simp
    from close_runtime_opened [OF assms(1) o(2) this cl] assms(2) b Inr sv cl show ?thesis
      by (simp add: RunServer_def)
  qed (use bc assms(2) b in \<open>simp add: RunServer_def\<close>)
qed

lemma RunWorker_returns:
  assumes "net_ok (bl_net B) opened" "queue_names_ok (built_queue cfg)"
  shows "\<exists>e logs h'. RunWorker B cfg c h = Some (e, logs, h') \<and> opened (hs_net h') = opened (hs_net h)"
proof -
  obtain r h1 where b: "Build B cfg h = (r, h1)" by fastforce
  note bc = Build_cases [OF assms(1) b]
  show ?thesis
  proof (cases r)
    case (Inr rt)
    have q: "rn_Queue rt = built_queue cfg" using bc Inr by auto
    obtain err d where run: "wk_Run (al_sha256 (bl_auth B)) (rn_Worker rt) (redis_queue_port (rn_Queue rt)) (redis_claims (rn_Queue rt)) c
        (documents_of (hs_server h1)) = Some (err, d)"
      using loop_terminates [OF assms(2), where ?sha256.0 = "al_sha256 (bl_auth B)" and k = "rn_Worker rt" and step = "\<lambda>_ _. True"
          and c = c and w = "documents_of (hs_server h1)"] q by auto
    let ?h = "h1\<lparr>hs_server := put_surroundings (hs_server h1) d\<rparr>"
    obtain l h2 where cl: "close_runtime rt ?h = (l, h2)" by fastforce
    from bc Inr obtain p k where o: "opened (hs_net h1) = mset [Inl p, Inr k] + opened (hs_net h)"
        "rn_stack rt = stack_of (bl_net B) [Inl p, Inr k]" by auto
    have "opened (hs_net ?h) = mset [Inl p, Inr k] + opened (hs_net h)" using o(1) by simp
    from close_runtime_opened [OF assms(1) o(2) this cl] b Inr run cl show ?thesis
      by (simp add: RunWorker_def)
  qed (use bc b in \<open>simp add: RunWorker_def\<close>)
qed



subsection \<open>Concrete drivers\<close>

text \<open>
  Drivers that number what they open, keep the list of what is open, and whose calls over the
  network fail as a script says.
\<close>

type_synonym demo_net = "(nat + nat) list \<times> go_error option list"

definition demo_try :: "demo_net \<Rightarrow> (go_error + unit) \<times> demo_net" where
  "demo_try n = (case snd n of [] \<Rightarrow> (Inr (), n) | e # es \<Rightarrow> ((case e of None \<Rightarrow> Inr () | Some x \<Rightarrow> Inl x), (fst n, es)))"

definition demo_net_lib :: "(demo_net, nat, nat) net_lib" where
  "demo_net_lib =
     \<lparr>px_ParseConfig = (\<lambda>dsn. Inr \<lparr>pcf_dsn = dsn, pcf_MaxConns = 4, pcf_MinConns = 0, pcf_MaxConnLifetime = 0\<rparr>),
      px_NewWithConfig = (\<lambda>pc n. (Inr (length (fst n)), (Inl (length (fst n)) # fst n, snd n))),
      px_Ping = (\<lambda>p. demo_try), px_Close = (\<lambda>p n. (remove1 (Inl p) (fst n), snd n)),
      rd_NewClient = (\<lambda>ops n. (length (fst n), (Inr (length (fst n)) # fst n, snd n))),
      rd_Ping = (\<lambda>c. demo_try), rd_Close = (\<lambda>c n. (None, (remove1 (Inr c) (fst n), snd n)))\<rparr>"

lemma demo_net_ok: "net_ok demo_net_lib (\<lambda>n. mset (fst n))"
  by (auto simp: net_ok_def demo_net_lib_def demo_try_def split: list.splits)

definition no_s3 :: "(unit, upload_reader) s3_api" where
  "no_s3 = \<lparr>s3_PutObject = (\<lambda>b k r mt w. (Inl (FmtError ''no S3''), r, w)), s3_GetObject = (\<lambda>b k w. (Inl (FmtError ''no S3''), w)),
     s3_DeleteObject = (\<lambda>b k w. (Inl (FmtError ''no S3''), w))\<rparr>"

definition demo_build :: "(demo_net, nat, nat, unit, unit) build_libs" where
  "demo_build =
     \<lparr>bl_net = demo_net_lib, bl_cwd = ''/'', bl_load_default_config = (\<lambda>_. Inl (FmtError ''no AWS'')), bl_new_from_config = (\<lambda>_ _ _. no_s3),
      bl_gin = demo_gin, bl_auth = demo_libs, bl_lower = demo_lower\<rparr>"

definition demo_main :: "nat main_libs" where
  "demo_main = \<lparr>ml_url_parse = (\<lambda>s. Inl (FmtError ''no url'')), ml_fraction = demo_fraction,
     ml_parse_level = (\<lambda>l. if l = ''info'' then Inr 4 else Inl (FmtError ''not a valid logrus Level''))\<rparr>"

definition demo_host :: "go_error option list \<Rightarrow> (demo_net, unit) host" where
  "demo_host es = \<lparr>hs_net = ([], es),
     hs_server = \<lparr>srv_pg = demo_pg, srv_storage = (demo_fs, ()), srv_queue = demo_redis, srv_random = [], srv_times = [1000]\<rparr>\<rparr>"



end
