(* ===== verification/Error_Registry.thy ===== *)
theory Error_Registry
  imports App_Errors
begin

text \<open>
  \<open>pkg/errors/codes.go\<close>: the constants of the error codes, and the format its comment documents:
  the letter E, two digits for the domain, two for the kind of HTTP answer, a sequence number.
\<close>

definition error_codes :: "(string \<times> string) list" where
  \<comment> \<open>the constants, in the order of the file\<close>
  "error_codes =
    [(''CodeCommonInvalidRequest'', ''E00400001''), (''CodeCommonInvalidBody'', ''E00400002''), (''CodeCommonInternal'', ''E00500001''),
     (''CodeAuthInvalidRequest'', ''E01400001''), (''CodeAuthInvalidBody'', ''E01400002''), (''CodeAuthUnauthorized'', ''E01410001''),
     (''CodeAuthInvalidCredentials'', ''E01410002''), (''CodeAuthInvalidRefresh'', ''E01410003''),
     (''CodeAuthInvalidTokenFormat'', ''E01410004''), (''CodeAuthInvalidToken'', ''E01410005''),
     (''CodeAuthUserNotFound'', ''E01440001''), (''CodeAuthEmailConflict'', ''E01090001''), (''CodeAuthInternal'', ''E01500001''),
     (''CodeDocumentInvalidRequest'', ''E02400001''), (''CodeDocumentUnauthorized'', ''E02410001''),
     (''CodeDocumentForbidden'', ''E02420001''), (''CodeDocumentNotFound'', ''E02440001''), (''CodeDocumentNotReady'', ''E02090001''),
     (''CodeDocumentConflict'', ''E02090002''), (''CodeDocumentInternal'', ''E02500001''),
     (''CodeStorageInvalidKey'', ''E03400001''), (''CodeStorageObjectNotFound'', ''E03440001''),
     (''CodeStorageUnavailable'', ''E03530001''), (''CodeStorageInternal'', ''E03500001''),
     (''CodeQueueInvalidJob'', ''E04400001''), (''CodeQueueUnavailable'', ''E04530001''), (''CodeQueueInternal'', ''E04500001'')]"

text \<open>The status each documented kind of answer stands for.\<close>

definition http_type_status :: "(string \<times> int) list" where
  "http_type_status = [(''40'', 400), (''41'', 401), (''42'', 403), (''44'', 404), (''09'', 409), (''50'', 500), (''53'', 503)]"

definition error_domains :: "(string \<times> string) list" where
  "error_domains = [(''00'', ''Common''), (''01'', ''Auth''), (''02'', ''Document''), (''03'', ''Storage''), (''04'', ''Queue'')]"

definition documented_code :: "string \<times> string \<Rightarrow> bool" where
  \<comment> \<open>the code has the documented format, and the domain its constant is named after\<close>
  "documented_code nc = (case nc of (name, code) \<Rightarrow>
     length code = 9 \<and> take 1 code = ''E'' \<and> list_all is_digit (drop 1 code) \<and>
     (case map_of error_domains (take 2 (drop 1 code)) of None \<Rightarrow> False | Some d \<Rightarrow> take (4 + length d) name = ''Code'' @ d) \<and>
     map_of http_type_status (take 2 (drop 3 code)) \<noteq> None)"

definition answers_as_documented :: "go_error \<Rightarrow> bool" where
  \<comment> \<open>the HTTP status of the sentinel is the one its code stands for; only an answer of 503 invites a retry\<close>
  "answers_as_documented e \<longleftrightarrow> map_of http_type_status (take 2 (drop 3 (Code e))) = Some (Status e) \<and>
     (Retryable e \<longleftrightarrow> Status e = 503) \<and> cause e = None"

text \<open>
  C39. The registry of errors is what its comment and its tests say: every constant is the code of
  exactly one sentinel, no code is used twice, every code has the documented format with the
  domain its name says, every sentinel answers with the HTTP status its code stands for, and no
  two sentinels are mistaken for each other by \<open>errors.Is\<close>, wrapped or not.
\<close>

theorem error_registry:
  "map Code registry = map snd error_codes \<and> distinct (map snd error_codes) \<and> distinct (map fst error_codes) \<and>
   list_all documented_code error_codes \<and> list_all answers_as_documented registry \<and>
   list_all (\<lambda>a. list_all (\<lambda>b. errors_is (FmtWrap ctx (Wrap a (Some (FmtError text)))) b = (a = b)) registry) registry"
proof (intro conjI)
  show "map Code registry = map snd error_codes" by code_simp
  show "distinct (map snd error_codes)" "distinct (map fst error_codes)" by code_simp+
  show "list_all documented_code error_codes" "list_all answers_as_documented registry" by code_simp+
  have eq: "list_all (\<lambda>a. list_all (\<lambda>b. (Code a = Code b) = (a = b)) registry) registry" by code_simp
  have app: "list_all (\<lambda>a. case a of AppError _ _ _ _ _ \<Rightarrow> True | _ \<Rightarrow> False) registry" by code_simp
  have "errors_is (FmtWrap ctx (Wrap a (Some (FmtError text)))) b = (Code a = Code b)" if "a \<in> set registry" "b \<in> set registry" for a b
    using app that by (cases a; cases b) (auto simp: list_all_iff Wrap_def error_matches_def)
  with eq show "list_all (\<lambda>a. list_all (\<lambda>b. errors_is (FmtWrap ctx (Wrap a (Some (FmtError text)))) b = (a = b)) registry) registry"
    by (simp add: list_all_iff)
qed

end
