(* ===== verification/Spec2Isabelle.thy ===== *)
theory Spec2Isabelle
  imports Demo_Run Auth_Properties S3_Deployment Migration_Checks Http_Properties Server_Properties Token_Roundtrip
    Worker_Progress Claim_Exclusion Storage_Containment App_Lifecycle Error_Registry
begin

text \<open>
  A verification development of the document API (Go module \<open>github.com/example/api-example\<close>).
\<close>

section \<open>Uploads\<close>

text \<open>
  C2. An upload that returns a document and no error has done everything it promises: its body
  ended properly and within the limit, a pending document with the cleaned file name, the media
  type, the true size and the generated key was inserted under a new id, the storage maps that
  key to exactly the bytes of the body and nothing else changed there, and one first-attempt job
  for the document stands at the end of the queue.
\<close>

theorem create_success:
  assumes "program_ok rc w" "0 < m" "m < 2 ^ 63" "proper_upload input"
    and s: "s = app_service ul rc (queue_of main processing dead n) m mts cdn"
    and run: "ds_Create ul s actor input w = ((Some d, None), w')"
  shows "\<exists>oid body nd d0. accepted_upload ul s actor input oid body nd \<and> d = setPublicURL s d0 \<and>
    doc_created nd d0 (documents w) (documents w') \<and>
    objects rc w' = (objects rc w)(nd_StorageKey nd \<mapsto> source_bytes body) \<and>
    jobs_in main w' = jobs_in main w @ [first_job d0] \<and> program_ok rc w'"
proof -
  have c: "configured s" using assms(2,3) by (simp add: s configured_local)
  have ok: "app.sur_ok rc w" using assms(1) by (simp add: program_ok_app)
  show ?thesis unfolding s
    by (rule app.create_cases [OF ok proper_uploadD [OF assms(4)] run [unfolded s] c [unfolded s]])
       (auto simp: program_ok_app)
qed

theorem create_success_witness:
  "\<exists>oid body nd d0. accepted_upload (\<lambda>s. s) demo_service demo_actor demo_upload oid body nd \<and>
    the (fst (fst (ds_Create (\<lambda>s. s) demo_service demo_actor demo_upload demo_state))) = setPublicURL demo_service d0 \<and>
    jobs_in ''main'' (snd (ds_Create (\<lambda>s. s) demo_service demo_actor demo_upload demo_state)) = [first_job d0]"
proof -
  let ?r = "ds_Create (\<lambda>s. s) demo_service demo_actor demo_upload demo_state"
  have "snd (fst ?r) = None \<and> fst (fst ?r) \<noteq> None" by code_simp
  then have r: "?r = ((Some (the (fst (fst ?r))), None), snd ?r)" by (metis option.collapse prod.collapse)
  have j: "jobs_in ''main'' demo_state = []" by code_simp
  from create_success [OF demo_program_ok _ _ demo_upload_proper _ r, of 16 "''main''" "''processing''" "''dead''" 3 "[''text/plain'']" "''''"] j
  show ?thesis by (auto simp: demo_service_def demo_queue_def)
qed

text \<open>
  C3. Every outcome of an upload, whatever the database, the file system, the queue and the
  entropy source do: the invariants hold afterwards, at most one object has changed, a returned
  document is a new row, an upload without a document has failed and queued nothing, and an
  error next to a document is that the queue is unavailable.
\<close>

theorem create_outcomes:
  assumes "program_ok rc w" "keys_ok (documents w)" "0 < m" "m < 2 ^ 63" "proper_upload input"
    and s: "s = app_service ul rc (queue_of main processing dead n) m mts cdn"
    and run: "ds_Create ul s actor input w = ((doc, err), w')"
  shows "program_ok rc w' \<and> keys_ok (documents w') \<and> (\<exists>k. same_except k (objects rc w) (objects rc w')) \<and>
    (case doc of
       None \<Rightarrow> err \<noteq> None \<and> jobs_in main w' = jobs_in main w
     | Some d \<Rightarrow> (\<exists>d0 nd. d = setPublicURL s d0 \<and> doc_created nd d0 (documents w) (documents w')) \<and>
                 (\<forall>e. err = Some e \<longrightarrow> error_code e = error_code ErrQueueUnavailable))"
proof -
  have c: "configured s" using assms(3,4) by (simp add: s configured_local)
  have ok: "app.sur_ok rc w" using assms(1) by (simp add: program_ok_app)
  have acc: "storable (nd_StorageKey nd)" if "accepted_upload ul s actor input oid body nd" for oid body nd
    using that c object_key_storable [of "sv_storageKeyPrefix s" oid] by (auto simp: accepted_upload_def configured_def)
  note key = acc [unfolded s]
  have qe: "error_code (Wrap ErrQueueUnavailable (Some e)) = error_code ErrQueueUnavailable" for e
    by (simp add: Wrap_def ErrQueueUnavailable_def)
  show ?thesis unfolding s
    by (rule app.create_cases [OF ok proper_uploadD [OF assms(5)] run [unfolded s] c [unfolded s]])
       (use assms(2) key in \<open>auto simp: program_ok_app qe intro: doc_created_keys same_except_upd same_except_refl\<close>)
qed

theorem create_outcomes_witness:
  "(case ds_Create (\<lambda>s. s) demo_service demo_actor demo_upload demo_state of ((doc, err), w') \<Rightarrow>
     program_ok demo_root w' \<and> keys_ok (documents w') \<and> (\<exists>d d0 nd. doc = Some d \<and> doc_created nd d0 Map.empty (documents w')))"
proof -
  let ?r = "ds_Create (\<lambda>s. s) demo_service demo_actor demo_upload demo_state"
  have "fst (fst ?r) \<noteq> None" by code_simp
  then obtain d err w' where r: "?r = ((Some d, err), w')" by (cases ?r) auto
  note i = program_invD [OF demo_state_inv]
  from create_outcomes [OF i(1,2) _ _ demo_upload_proper demo_service_app r] r demo_no_documents
  show ?thesis by (simp split: prod.splits) blast
qed



text \<open>
  C9. A download that succeeds was asked for by the owner or an administrator, of a live ready
  document; what its body delivers to the end is the stored object, byte for byte; nothing
  changes.
\<close>

theorem download_sound:
  assumes "program_ok rc w" "keys_ok (documents w)"
    and s: "s = app_service ul rc (queue_of main processing dead n) m mts cdn"
    and run: "ds_Download s actor did w = (Inr (ob, d), w')"
  shows "\<exists>d0. documents w did = Some d0 \<and> may_access actor d0 \<and> doc_Status d0 = DocumentReady \<and>
    d = setPublicURL s d0 \<and>
    (source_fin (obj_Body ob) = io_EOF \<longrightarrow> objects rc w (doc_StorageKey d0) = Some (source_bytes (obj_Body ob))) \<and>
    documents w' = documents w \<and> objects rc w' = objects rc w"
proof -
  have ok: "app.sur_ok rc w" using assms(1) by (simp add: program_ok_app)
  have k: "storable (doc_StorageKey d)" if "documents w did = Some d" for d
    using that assms(2) by (auto simp: keys_ok_def)
  show ?thesis unfolding s by (rule app.download_ok [OF ok run [unfolded s] k]) auto
qed

theorem download_sound_witness:
  "\<exists>ob d. fst (ds_Download demo_service demo_actor 1 demo_processed) = Inr (ob, d) \<and> source_bytes (obj_Body ob) = ''hello'' \<and>
     objects demo_root demo_processed (doc_StorageKey d) = Some ''hello''"
proof -
  let ?r = "ds_Download demo_service demo_actor 1 demo_processed"
  have c: "case fst ?r of Inl e \<Rightarrow> False | Inr (ob, d) \<Rightarrow> source_bytes (obj_Body ob) = ''hello'' \<and> source_fin (obj_Body ob) = io_EOF"
    by code_simp
  then obtain ob d where r: "?r = (Inr (ob, d), snd ?r)" and b: "source_bytes (obj_Body ob) = ''hello''" "source_fin (obj_Body ob) = io_EOF"
    by (cases ?r) (auto split: sum.splits)
  note i = program_invD [OF demo_processed_inv]
  from download_sound [OF i(1,2) demo_service_app r] r b show ?thesis by (metis fst_conv setPublicURL_fields(3))
qed

text \<open>
  C10. A deletion by someone who may not access the document fails and changes no document, no
  object and no job; one that succeeds removes exactly that document, and its object stays.
\<close>

theorem delete_authorized:
  assumes "program_ok rc w"
    and s: "s = app_service ul rc (queue_of main processing dead n) m mts cdn"
    and run: "ds_Delete s actor did w = (r, w')"
  shows "(case documents w did of
      Some d \<Rightarrow> may_access actor d | None \<Rightarrow> False) \<and> r = Inr () \<and> documents w' = (documents w)(did := None) \<and> objects rc w' = objects rc w \<or>
    (\<exists>e. r = Inl e) \<and> ((case documents w did of Some d \<Rightarrow> \<not> may_access actor d | None \<Rightarrow> True) \<longrightarrow>
       documents w' = documents w \<and> objects rc w' = objects rc w \<and> jobs_in main w' = jobs_in main w)"
proof -
  have ok: "app.sur_ok rc w" using assms(1) by (simp add: program_ok_app)
  show ?thesis
  proof (cases r)
    case (Inl e)
    have "documents w' = documents w \<and> objects rc w' = objects rc w \<and> jobs_in main w' = jobs_in main w"
      if "case documents w did of Some d \<Rightarrow> \<not> may_access actor d | None \<Rightarrow> True"
      using app.delete_refused [OF ok run [unfolded s]] that by (auto split: option.splits)
    with Inl show ?thesis by auto
  next
    case (Inr u)
    with run have run': "ds_Delete s actor did w = (Inr (), w')" by simp
    show ?thesis by (rule app.delete_ok [OF ok run' [unfolded s]]) (use Inr in auto)
  qed
qed

theorem delete_authorized_witness:
  "documents (snd (ds_Delete demo_service demo_actor 1 demo_processed)) = (documents demo_processed)(1 := None) \<and>
   documents (snd (ds_Delete demo_service demo_stranger 1 demo_processed)) = documents demo_processed"
proof -
  let ?r = "ds_Delete demo_service demo_actor 1 demo_processed"
  let ?q = "ds_Delete demo_service demo_stranger 1 demo_processed"
  have c: "isl (fst ?r) = False" "case documents demo_processed 1 of None \<Rightarrow> False | Some d \<Rightarrow> \<not> may_access demo_stranger d"
    by code_simp+
  have r: "?r = (fst ?r, snd ?r)" "?q = (fst ?q, snd ?q)" by simp_all
  note i = program_invD [OF demo_processed_inv]
  from delete_authorized [OF i(1) demo_service_app r(1)] delete_authorized [OF i(1) demo_service_app r(2)] c
  show ?thesis by (auto split: option.splits)
qed

text \<open>
  C11. A page of the list holds at most a hundred live documents, newest first, each of which the
  actor may access: users see their own, administrators all.
\<close>

theorem list_authorized:
  assumes "program_ok rc w"
    and s: "s = app_service ul rc (queue_of main processing dead n) m mts cdn"
    and run: "ds_List s actor pgn w = (Inr pag, w')"
  shows "0 < act_UserID actor \<and> length (page_Items pag) \<le> 100 \<and>
    sorted_wrt (\<lambda>a b. doc_ID b < doc_ID a) (page_Items pag) \<and>
    (\<forall>d \<in> set (page_Items pag). \<exists>d0. documents w (doc_ID d) = Some d0 \<and> may_access actor d0 \<and> d = setPublicURL s d0) \<and>
    documents w' = documents w"
proof -
  have ok: "app.sur_ok rc w" using assms(1) by (simp add: program_ok_app)
  from app.list_ok [OF ok run [unfolded s]] show ?thesis unfolding s by blast
qed

theorem list_authorized_witness:
  "\<exists>p. fst (ds_List demo_service demo_actor \<lparr>pgn_Page = 1, pgn_PageSize = 20\<rparr> demo_processed) = Inr p \<and>
     (\<exists>d. page_Items p = [d] \<and> (\<exists>d0. documents demo_processed (doc_ID d) = Some d0 \<and> may_access demo_actor d0))"
proof -
  let ?r = "ds_List demo_service demo_actor \<lparr>pgn_Page = 1, pgn_PageSize = 20\<rparr> demo_processed"
  have "case fst ?r of Inl e \<Rightarrow> False | Inr p \<Rightarrow> length (page_Items p) = 1" by code_simp
  then obtain p d where r: "?r = (Inr p, snd ?r)" "page_Items p = [d]"
    by (cases ?r) (auto simp: length_Suc_conv split: sum.splits)
  note i = program_invD [OF demo_processed_inv]
  from list_authorized [OF i(1) demo_service_app r(1)] r show ?thesis by (metis fst_conv list.set_intros(1))
qed

text \<open>
  C5. Processing a job under arbitrary failures: only the job's document may change, and only
  from claimable to processing, failed, or ready with the SHA-256 and the size of its stored
  object; objects and queue stay. A return without an error leaves the document not claimable,
  and ready if it changed.
\<close>

theorem process_sound:
  assumes "program_ok rc w" "keys_ok (documents w)" "\<forall>b. length (sha256 b) = 32"
    and run: "wk_Process sha256 (app_worker rc) job w = (r, w')"
  shows "program_ok rc w' \<and> objects rc w' = objects rc w \<and> sur_queue w' = sur_queue w \<and>
    worker_change sha256 (objects rc w) (job_DocumentID job) (documents w) (documents w') \<and>
    (r = Inr () \<longrightarrow> (\<exists>d. documents w' (job_DocumentID job) = Some d \<and> \<not> doc_claimable d \<and>
       (documents w' \<noteq> documents w \<longrightarrow> doc_Status d = DocumentReady)))"
proof -
  have ok: "app_wk.sur_ok rc w" using assms(1) by (simp add: program_ok_app)
  have k: "storable (doc_StorageKey d)" if "documents w (job_DocumentID job) = Some d" for d
    using that assms(2) by (auto simp: keys_ok_def)
  have sha: "length (sha256 b) = 32" for b using assms(3) by blast
  from app_wk.process_step [OF ok k sha run] show ?thesis by (simp add: program_ok_app)
qed

theorem process_sound_witness:
  "\<exists>d. documents demo_processed 1 = Some d \<and> doc_Status d = DocumentReady \<and>
     worker_change demo_sha256 (objects demo_root demo_uploaded) 1 (documents demo_uploaded) (documents demo_processed)"
proof -
  let ?r = "wk_Process demo_sha256 (app_worker demo_root) \<lparr>job_DocumentID = 1, job_Attempt = 1\<rparr> demo_uploaded"
  have c: "\<not> isl (fst ?r)" "map_option doc_Status (documents demo_uploaded 1) \<noteq> map_option doc_Status (documents demo_processed 1)"
    by code_simp+
  then have r: "?r = (Inr (), demo_processed)" using demo_process_run by (metis sum.collapse(2) unit.exhaust)
  note i = program_invD [OF demo_uploaded_inv]
  from process_sound [OF i(1,2) _ r] demo_sha256_length c(2) show ?thesis by auto
qed

text \<open>
  C1. Whatever sequence of uploads, reads, deletions, job processing and queue activity the
  program performs, under whatever failures of its database, file system and queue: every live
  document that is marked ready still has its object, whose length and SHA-256 are the size
  and checksum recorded for it.
\<close>

theorem ready_documents_intact:
  assumes "(program_step sha256 ul s rc)\<^sup>*\<^sup>* w w'" "program_inv sha256 rc w"
    "s = app_service ul rc (queue_of main processing dead n) m mts cdn" "0 < m" "m < 2 ^ 63"
    "\<forall>b. length (sha256 b) = 32"
    and d: "documents w' did = Some d" "doc_Status d = DocumentReady"
  shows "\<exists>b. objects rc w' (doc_StorageKey d) = Some b \<and> doc_SizeBytes d = int (length b) \<and>
    doc_ChecksumSHA256 d = Some (hex_encode (sha256 b))"
proof -
  have dep: "deployed ul rc m s" unfolding deployed_def assms(3) by blast
  have "program_inv sha256 rc w'"
    using assms(1,2) by (induction rule: rtranclp_induct) (use step_inv [OF _ _ _ dep assms(4,5)] assms(6) in blast)+
  with d show ?thesis by (auto simp: program_inv_def intact_def)
qed

theorem ready_documents_intact_witness:
  "\<exists>d b. documents demo_processed 1 = Some d \<and> objects demo_root demo_processed (doc_StorageKey d) = Some b \<and>
     doc_ChecksumSHA256 d = Some (hex_encode (demo_sha256 b))"
proof -
  have steps: "(program_step demo_sha256 (\<lambda>s. s) demo_service demo_root)\<^sup>*\<^sup>* demo_state demo_processed"
    using program_step.upload [OF demo_upload_proper demo_fresh demo_upload_run]
      program_step.process [OF demo_process_run] by (meson rtranclp.simps)
  have "map_option doc_Status (documents demo_processed 1) = Some DocumentReady" by code_simp
  then obtain d where "documents demo_processed 1 = Some d" "doc_Status d = DocumentReady" by auto
  with ready_documents_intact [OF steps demo_state_inv demo_service_app, of 1 d] demo_sha256_length
  show ?thesis by auto
qed



end
